(* ===== verification/Sculk_Prelude.thy ===== *)
theory Sculk_Prelude
  imports Main "HOL-Library.Word"
begin

text \<open>
  Shared vocabulary of the development: the machine integers of the Rust code, byte strings,
  results as sums, saturating and checked increments, and the contract of a transition system
  with an inductive invariant, which every concurrent component of the model instantiates.
\<close>

unbundle bit_operations_syntax

section \<open>Collections of facts\<close>

named_theorems codec_simps \<open>lengths, slices and round trips of byte layouts\<close>
named_theorems store_simps \<open>what one file-system call does to the store\<close>

section \<open>Machine integers and byte strings\<close>

type_synonym u8 = "8 word"
type_synonym u16 = "16 word"
type_synonym u32 = "32 word"
type_synonym u64 = "64 word"
type_synonym bytes = "u8 list"

text \<open>A Rust \<^verbatim>\<open>str\<close> that is only copied, compared and measured is its list of UTF-8 bytes.\<close>

definition str_of_bytes :: "bytes \<Rightarrow> string" where
  "str_of_bytes bs = map (\<lambda>b. char_of (unat b)) bs"

definition bytes_of_str :: "string \<Rightarrow> bytes" where
  "bytes_of_str s = map (\<lambda>c. of_nat (of_char c)) s"

lemma of_char_less_256 [simp]: "(of_char c :: nat) < 256"
  using of_char_mod_256 [of c, where ?'a = nat] by (metis mod_less_divisor zero_less_numeral)

lemma unat_of_char [simp]: "unat (of_nat (of_char c) :: u8) = of_char c"
  by (simp add: unat_of_nat take_bit_eq_mod)

lemma str_of_bytes_of_str [simp]: "str_of_bytes (bytes_of_str s) = s"
  by (simp add: str_of_bytes_def bytes_of_str_def comp_def)

lemma unat_u8_less [simp]: "unat (b :: u8) < 256"
  using unsigned_less [of b, where ?'a = nat] by simp

lemma bytes_of_str_of_bytes [simp]: "bytes_of_str (str_of_bytes bs) = bs"
  by (induction bs) (simp_all add: str_of_bytes_def bytes_of_str_def)

lemma length_bytes_of_str [simp]: "length (bytes_of_str s) = length s"
  by (simp add: bytes_of_str_def)

lemma bytes_of_str_Nil [simp]: "bytes_of_str s = [] \<longleftrightarrow> s = []"
  by (simp add: bytes_of_str_def)

lemma length_str_of_bytes [simp]: "length (str_of_bytes bs) = length bs"
  by (simp add: str_of_bytes_def)

section \<open>Saturating and checked counters\<close>

text \<open>\<^verbatim>\<open>u32::saturating_add(1)\<close>, \<^verbatim>\<open>u64::checked_add(1)\<close> and \<^verbatim>\<open>usize::saturating_sub(1)\<close>.\<close>

definition saturating_inc :: "'a::len word \<Rightarrow> 'a word" where
  "saturating_inc w = (if w = - 1 then w else w + 1)"

definition saturating_dec :: "'a::len word \<Rightarrow> 'a word" where
  "saturating_dec w = (if w = 0 then 0 else w - 1)"

definition checked_inc :: "'a::len word \<Rightarrow> 'a word option" where
  "checked_inc w = (if w = - 1 then None else Some (w + 1))"

lemma unat_max [simp]: "unat (- 1 :: 'a::len word) = 2 ^ LENGTH('a) - 1"
  by (simp add: unsigned_minus_1_eq_mask mask_eq_exp_minus_1)

lemma unat_max_iff: "w = - 1 \<longleftrightarrow> unat w = 2 ^ LENGTH('a) - 1" for w :: "'a::len word"
  by (metis unat_max word_unat_eq_iff)

lemma unat_le_max: "unat w \<le> 2 ^ LENGTH('a) - Suc 0" for w :: "'a::len word"
  using unsigned_less [of w, where ?'a = nat] by linarith

lemma unat_inc: "w \<noteq> - 1 \<Longrightarrow> unat (w + 1) = Suc (unat w)" for w :: "'a::len word"
  by (metis add.commute eq_neg_iff_add_eq_0 unatSuc)

lemma unat_saturating_inc:
  "unat (saturating_inc w) = min (Suc (unat w)) (2 ^ LENGTH('a) - 1)" for w :: "'a::len word"
proof (cases "w = - 1")
  case True
  then show ?thesis by (simp add: saturating_inc_def)
next
  case False
  then have "unat w \<noteq> 2 ^ LENGTH('a) - 1" using unat_max_iff by blast
  with unat_le_max [of w] False show ?thesis by (simp add: saturating_inc_def unat_inc min_def)
qed

lemma saturating_inc_ge: "w \<le> saturating_inc w" for w :: "'a::len word"
  using unat_le_max [of w] by (simp add: word_le_nat_alt unat_saturating_inc)

lemma saturating_inc_pos: "saturating_inc w \<noteq> 0" for w :: "'a::len word"
proof -
  have "(2::nat) ^ 1 \<le> 2 ^ LENGTH('a)" by (rule power_increasing) (auto simp: Suc_leI)
  then have "0 < unat (saturating_inc w)" by (simp add: unat_saturating_inc)
  then show ?thesis by auto
qed

lemma checked_inc_Some: "checked_inc w = Some v \<Longrightarrow> unat v = Suc (unat w)"
  by (auto simp: checked_inc_def unat_inc split: if_splits)

lemma saturating_dec_inc: "w \<noteq> - 1 \<Longrightarrow> saturating_dec (saturating_inc w) = w"
  using saturating_inc_pos [of w] by (simp add: saturating_dec_def saturating_inc_def)

section \<open>Results\<close>

text \<open>\<^verbatim>\<open>Result<T, E>\<close> is \<open>'e + 'a\<close>, the error on the left.\<close>

definition is_ok :: "'e + 'a \<Rightarrow> bool" where
  "is_ok r = (case r of Inl _ \<Rightarrow> False | Inr _ \<Rightarrow> True)"

definition map_err :: "('e \<Rightarrow> 'f) \<Rightarrow> 'e + 'a \<Rightarrow> 'f + 'a" where
  "map_err f r = (case r of Inl e \<Rightarrow> Inl (f e) | Inr a \<Rightarrow> Inr a)"

definition and_then :: "'e + 'a \<Rightarrow> ('a \<Rightarrow> 'e + 'b) \<Rightarrow> 'e + 'b" where
  "and_then r f = (case r of Inl e \<Rightarrow> Inl e | Inr a \<Rightarrow> f a)"

definition ok_or :: "'e \<Rightarrow> 'a option \<Rightarrow> 'e + 'a" where
  "ok_or e x = (case x of None \<Rightarrow> Inl e | Some a \<Rightarrow> Inr a)"

lemma result_simps [simp]:
  "is_ok (Inr a) = True" "is_ok (Inl e) = False"
  "map_err f (Inl e) = Inl (f e)" "map_err f (Inr a) = Inr a"
  "and_then (Inl e) g = Inl e" "and_then (Inr a) g = g a"
  "ok_or e None = Inl e" "ok_or e (Some a) = Inr a"
  by (simp_all add: is_ok_def map_err_def and_then_def ok_or_def)

lemma and_then_Inr: "and_then r f = Inr b \<longleftrightarrow> (\<exists>a. r = Inr a \<and> f a = Inr b)"
  by (cases r) auto

lemma map_err_Inr [simp]: "map_err f r = Inr a \<longleftrightarrow> r = Inr a"
  by (cases r) auto

lemma ok_or_Inr [simp]: "ok_or e x = Inr a \<longleftrightarrow> x = Some a"
  by (cases x) auto

section \<open>Transition systems with an invariant\<close>

text \<open>
  The contract every concurrent component is proved against: an initial state, a step
  function over labelled steps, and a property that holds initially and is kept by every
  step. \<open>run\<close> is an interleaving: the list of the steps that happened.
\<close>

fun run_steps :: "('s \<Rightarrow> 'l \<Rightarrow> 's) \<Rightarrow> 's \<Rightarrow> 'l list \<Rightarrow> 's" where
  "run_steps step s [] = s"
| "run_steps step s (l # ls) = run_steps step (step s l) ls"

lemma run_steps_append: "run_steps step s (xs @ ys) = run_steps step (run_steps step s xs) ys"
  by (induction xs arbitrary: s) auto

locale invariant_system =
  fixes start :: "'s \<Rightarrow> bool"
    and step :: "'s \<Rightarrow> 'l \<Rightarrow> 's"
    and inv :: "'s \<Rightarrow> bool"
  assumes inv_start: "start s \<Longrightarrow> inv s"
    and inv_step: "inv s \<Longrightarrow> inv (step s l)"
begin

lemma inv_run: "inv s \<Longrightarrow> inv (run_steps step s ls)"
  by (induction ls arbitrary: s) (auto intro: inv_step)

lemma inv_reachable: "start s \<Longrightarrow> inv (run_steps step s ls)"
  by (rule inv_run) (rule inv_start)

end

end
