(* ===== verification/Sculk_Time.thy ===== *)
theory Sculk_Time
  imports Sculk_Prelude
begin

text \<open>
  The parts of \<^verbatim>\<open>std::time\<close> the code uses. A \<^verbatim>\<open>Duration\<close> is its number of nanoseconds
  (at most \<open>duration_max\<close>: 64-bit seconds and a sub-second part); \<^verbatim>\<open>SystemTime\<close> and
  \<^verbatim>\<open>Instant\<close> are nanoseconds since the epoch, whose second count is a signed 64-bit integer
  on Unix, so that \<^verbatim>\<open>checked_add\<close> fails past \<open>time_max\<close>.
\<close>

type_synonym duration = nat
type_synonym system_time = int
type_synonym instant = int

definition nanos_per_sec :: nat where
  "nanos_per_sec = 1000000000"

definition duration_max :: duration where
  "duration_max = 2 ^ 64 * nanos_per_sec - 1"

definition time_max :: int where
  "time_max = 2 ^ 63 * 1000000000 - 1"

definition from_secs :: "nat \<Rightarrow> duration" where
  "from_secs s = s * nanos_per_sec"

definition from_millis :: "nat \<Rightarrow> duration" where
  "from_millis m = m * 1000000"

definition as_secs :: "duration \<Rightarrow> nat" where
  "as_secs d = d div nanos_per_sec"

definition subsec_nanos :: "duration \<Rightarrow> nat" where
  "subsec_nanos d = d mod nanos_per_sec"

definition as_millis :: "duration \<Rightarrow> nat" where
  "as_millis d = d div 1000000"

definition saturating_mul :: "duration \<Rightarrow> nat \<Rightarrow> duration" where
  "saturating_mul d k = min (d * k) duration_max"

text \<open>\<^verbatim>\<open>2_u32.saturating_pow(e)\<close>.\<close>

definition saturating_pow2 :: "nat \<Rightarrow> nat" where
  "saturating_pow2 e = (if e < 32 then 2 ^ e else 2 ^ 32 - 1)"

text \<open>\<^verbatim>\<open>SystemTime::checked_add\<close> and \<^verbatim>\<open>Instant::checked_add\<close>.\<close>

definition time_checked_add :: "int \<Rightarrow> duration \<Rightarrow> int option" where
  "time_checked_add t d = (if t + int d \<le> time_max then Some (t + int d) else None)"

text \<open>\<^verbatim>\<open>later.duration_since(earlier)\<close>: an error when \<open>later\<close> is the smaller one.\<close>

definition duration_since :: "int \<Rightarrow> int \<Rightarrow> duration option" where
  "duration_since later earlier = (if earlier \<le> later then Some (nat (later - earlier)) else None)"

definition saturating_duration_since :: "int \<Rightarrow> int \<Rightarrow> duration" where
  "saturating_duration_since later earlier = nat (later - earlier)"

section \<open>Facts\<close>

lemma secs_nanos_split: "from_secs (as_secs d) + subsec_nanos d = d"
  by (simp add: from_secs_def as_secs_def subsec_nanos_def)

lemma subsec_nanos_less: "subsec_nanos d < 1000000000"
  by (simp add: subsec_nanos_def nanos_per_sec_def)

lemma as_secs_bound: "d \<le> duration_max \<Longrightarrow> as_secs d < 2 ^ 64"
proof -
  assume "d \<le> duration_max"
  then have "d < 2 ^ 64 * nanos_per_sec" by (simp add: duration_max_def nanos_per_sec_def)
  then show ?thesis unfolding as_secs_def by (rule less_mult_imp_div_less)
qed

lemma saturating_mul_le: "saturating_mul d k \<le> duration_max"
  by (simp add: saturating_mul_def)

lemma saturating_mul_mono: "d \<le> e \<Longrightarrow> k \<le> m \<Longrightarrow> saturating_mul d k \<le> saturating_mul e m"
  unfolding saturating_mul_def by (intro min.mono mult_le_mono) simp_all

lemma saturating_pow2_pos: "0 < saturating_pow2 e"
  by (simp add: saturating_pow2_def)

lemma saturating_pow2_mono: "a \<le> b \<Longrightarrow> saturating_pow2 a \<le> saturating_pow2 b"
proof (cases "b < 32")
  case True
  moreover assume "a \<le> b"
  ultimately show ?thesis by (simp add: saturating_pow2_def power_increasing)
next
  case False
  have "a < 32 \<Longrightarrow> (2::nat) ^ a \<le> 2 ^ 31" by (rule power_increasing) simp_all
  with False show ?thesis by (auto simp: saturating_pow2_def)
qed

lemma time_checked_add_Some:
  "time_checked_add t d = Some u \<longleftrightarrow> u = t + int d \<and> u \<le> time_max"
  by (auto simp: time_checked_add_def)

lemma duration_since_Some:
  "duration_since a b = Some d \<longleftrightarrow> b \<le> a \<and> d = nat (a - b)"
  by (auto simp: duration_since_def)

end
