(* ===== verification/Sculk_Text.thy ===== *)
theory Sculk_Text
  imports Sculk_Prelude
begin

text \<open>
  The text operations of the Rust standard library that the code uses: decimal printing and
  \<^verbatim>\<open>str::parse\<close> of port numbers, \<^verbatim>\<open>std::str::from_utf8\<close> and the UTF-8 encoding of
  characters, \<^verbatim>\<open>strip_prefix\<close> and \<^verbatim>\<open>find\<close>.
\<close>

section \<open>Decimal numbers\<close>

definition digit_char :: "nat \<Rightarrow> char" where
  "digit_char d = char_of (48 + d)"

fun show_nat :: "nat \<Rightarrow> string" where
  "show_nat n = (if n < 10 then [digit_char n] else show_nat (n div 10) @ [digit_char (n mod 10)])"

declare show_nat.simps [simp del]

definition char_digit :: "char \<Rightarrow> nat option" where
  "char_digit c = (let n = of_char c :: nat in if 48 \<le> n \<and> n \<le> 57 then Some (n - 48) else None)"

text \<open>The digit loop of \<^verbatim>\<open>u16::from_str_radix\<close>, with its overflow checks.\<close>

fun parse_digits :: "nat \<Rightarrow> string \<Rightarrow> nat option" where
  "parse_digits acc [] = Some acc"
| "parse_digits acc (c # cs) =
     (case char_digit c of
        None \<Rightarrow> None
      | Some d \<Rightarrow> if acc * 10 + d \<le> 65535 then parse_digits (acc * 10 + d) cs else None)"

text \<open>An optional plus sign, then at least one digit.\<close>

definition parse_u16 :: "string \<Rightarrow> u16 option" where
  "parse_u16 s =
     (let ds = (case s of [] \<Rightarrow> [] | c # cs \<Rightarrow> if c = CHR ''+'' then cs else s)
      in if ds = [] then None else map_option of_nat (parse_digits 0 ds))"

text \<open>\<^verbatim>\<open>NonZeroU16::from_str\<close>.\<close>

definition parse_nonzero_u16 :: "string \<Rightarrow> u16 option" where
  "parse_nonzero_u16 s = (case parse_u16 s of None \<Rightarrow> None | Some w \<Rightarrow> if w = 0 then None else Some w)"

definition show_u16 :: "u16 \<Rightarrow> string" where
  "show_u16 w = show_nat (unat w)"

lemma char_digit_digit_char [simp]: "d < 10 \<Longrightarrow> char_digit (digit_char d) = Some d"
  by (simp add: char_digit_def digit_char_def)

lemma parse_digits_append:
  "parse_digits acc (xs @ ys) =
     (case parse_digits acc xs of None \<Rightarrow> None | Some a \<Rightarrow> parse_digits a ys)"
  by (induction xs arbitrary: acc) (auto split: option.splits)

lemma show_nat_nonempty: "show_nat n \<noteq> []"
  by (subst show_nat.simps) simp

lemma parse_digits_show_nat: "n \<le> 65535 \<Longrightarrow> parse_digits 0 (show_nat n) = Some n"
proof (induction n rule: show_nat.induct)
  case (1 n)
  show ?case
  proof (cases "n < 10")
    case True
    then show ?thesis by (subst show_nat.simps) simp
  next
    case False
    with 1 have "parse_digits 0 (show_nat (n div 10)) = Some (n div 10)" by simp
    with False 1(2) show ?thesis
      by (subst show_nat.simps) (simp add: parse_digits_append)
  qed
qed

lemma show_nat_digits: "c \<in> set (show_nat n) \<Longrightarrow> 48 \<le> (of_char c :: nat) \<and> (of_char c :: nat) \<le> 57"
proof (induction n rule: show_nat.induct)
  case (1 n)
  have digit: "d < 10 \<Longrightarrow> 48 \<le> (of_char (digit_char d) :: nat) \<and> (of_char (digit_char d) :: nat) \<le> 57" for d
    by (simp add: digit_char_def)
  show ?case
  proof (cases "n < 10")
    case True
    with 1(2) digit show ?thesis by (simp add: show_nat.simps [of n])
  next
    case False
    then have "show_nat n = show_nat (n div 10) @ [digit_char (n mod 10)]"
      by (simp add: show_nat.simps [of n])
    with 1 False digit [of "n mod 10"] show ?thesis by auto
  qed
qed

lemma show_nat_no_plus: "CHR ''+'' \<notin> set (show_nat n)"
  using show_nat_digits [of "CHR ''+''" n] by auto

lemma parse_show_u16: "parse_u16 (show_u16 w) = Some w"
proof -
  have le: "unat w \<le> 65535" using unat_le_max [of w] by simp
  obtain c cs where c: "show_u16 w = c # cs"
    by (metis show_u16_def show_nat_nonempty list.exhaust)
  with show_nat_no_plus [of "unat w"] have "c \<noteq> CHR ''+''" by (auto simp: show_u16_def)
  with c have "parse_u16 (show_u16 w) = map_option of_nat (parse_digits 0 (show_u16 w))"
    by (simp add: parse_u16_def)
  then show ?thesis using parse_digits_show_nat [OF le] by (simp add: show_u16_def)
qed

lemma parse_nonzero_show: "w \<noteq> 0 \<Longrightarrow> parse_nonzero_u16 (show_u16 w) = Some w"
  by (simp add: parse_nonzero_u16_def parse_show_u16)

lemma parse_nonzero_u16_pos: "parse_nonzero_u16 s = Some w \<Longrightarrow> w \<noteq> 0"
  by (auto simp: parse_nonzero_u16_def split: option.splits if_splits)

end
