(* ===== verification/Sculk_Errors.thy ===== *)
theory Sculk_Errors
  imports Sculk_Text
begin

text \<open>
  \<^verbatim>\<open>core/src/error.rs\<close>: the error enums of the crate with their messages, and the stable
  product-level category of every error. An opaque source error (a boxed \<^verbatim>\<open>dyn Error\<close>) keeps
  what the code looks at: whether it is an \<^verbatim>\<open>io::Error\<close> with its kind, and its text.
\<close>

type_synonym path = string

datatype io_error_kind =
    NotFound | AlreadyExists | WouldBlock | TimedOut | BrokenPipe | ConnectionReset
  | ConnectionAborted | NotConnected | UnexpectedEof | InvalidData | WriteZero | OtherKind

record io_error =
  io_kind :: io_error_kind
  io_text :: string

datatype box_error = BoxIo io_error | BoxOther string

fun box_text :: "box_error \<Rightarrow> string" where
  "box_text (BoxIo e) = io_text e"
| "box_text (BoxOther s) = s"

datatype error_category =
    CatInvalidJoinUri
  | CatInvalidEndpoint
  | CatAuthorizationDenied
  | CatHostUnreachable
  | CatTargetUnavailable
  | CatLocalPortUnavailable
  | CatIdentityUnavailable
  | CatOperationConflict
  | CatResourceLimit
  | CatInvalidConfiguration
  | CatInternal

datatype persist_error =
    SystemDataDirUnavailable
  | PathIo string path io_error
  | InvalidKeyLength nat nat
  | InvalidHostStateLength nat nat
  | UnsupportedHostStateVersion u8
  | InvalidHostStateTimestamp
  | ProfileParse path string
  | ProfileSerialize string
  | PersistRelayUrlParse string

datatype join_uri_error =
    UrlParse string
  | InvalidStructure
  | UnsupportedVersion
  | InvalidPayload
  | PayloadTooLong
  | UnsupportedFlags
  | JoinRelayUrlParse string

datatype tunnel_error =
    MutexPoisoned string
  | BindHostEndpoint box_error
  | BindJoinEndpoint box_error
  | BindLocalListener box_error
  | AcceptHostConnection box_error
  | AcceptQuicBiStream box_error
  | AcceptLocalTcpClient box_error
  | ConnectHostEndpoint box_error
  | InitialConnectionExhausted nat
  | OpenAuthStream box_error
  | AcceptAuthStream box_error
  | ReadAuthResult box_error
  | ReadAuthPayload box_error
  | WriteAuthPayload box_error
  | WriteAuthRejected box_error
  | WriteAuthDecision box_error
  | FinishAuthStream box_error
  | AuthRejectedByHost
  | AuthTimedOut
  | BridgeTcpToQuic box_error
  | BridgeQuicToTcp box_error

datatype sculk_error =
    Persist persist_error
  | JoinUriErr join_uri_error
  | TunnelErr tunnel_error

section \<open>Messages\<close>

fun persist_error_text :: "persist_error \<Rightarrow> string" where
  "persist_error_text SystemDataDirUnavailable = ''cannot determine system data directory''"
| "persist_error_text (PathIo op p src) = op @ '' `'' @ p @ ''` failed: '' @ io_text src"
| "persist_error_text (InvalidKeyLength e a) =
     ''invalid key file length: expected '' @ show_nat e @ '' bytes, got '' @ show_nat a @ '' bytes''"
| "persist_error_text (InvalidHostStateLength e a) =
     ''invalid host state length: expected '' @ show_nat e @ '' bytes, got '' @ show_nat a @ '' bytes''"
| "persist_error_text (UnsupportedHostStateVersion v) =
     ''unsupported host state version: '' @ show_nat (unat v)"
| "persist_error_text InvalidHostStateTimestamp = ''invalid host state timestamp''"
| "persist_error_text (ProfileParse p src) = ''failed to parse profile `'' @ p @ ''`: '' @ src"
| "persist_error_text (ProfileSerialize src) = src"
| "persist_error_text (PersistRelayUrlParse s) = ''invalid relay URL: '' @ s"

fun join_uri_error_text :: "join_uri_error \<Rightarrow> string" where
  "join_uri_error_text (UrlParse src) = src"
| "join_uri_error_text InvalidStructure = ''invalid Join URI structure''"
| "join_uri_error_text UnsupportedVersion = ''unsupported Join URI version''"
| "join_uri_error_text InvalidPayload = ''invalid Join URI payload''"
| "join_uri_error_text PayloadTooLong = ''Join URI payload is too long''"
| "join_uri_error_text UnsupportedFlags = ''Join URI contains unsupported flags''"
| "join_uri_error_text (JoinRelayUrlParse s) = ''invalid relay URL: '' @ s"

fun tunnel_error_text :: "tunnel_error \<Rightarrow> string" where
  "tunnel_error_text (MutexPoisoned name) = ''mutex poisoned: '' @ name"
| "tunnel_error_text (BindHostEndpoint _) = ''bind host endpoint failed''"
| "tunnel_error_text (BindJoinEndpoint _) = ''bind join endpoint failed''"
| "tunnel_error_text (BindLocalListener _) = ''bind local tcp listener failed''"
| "tunnel_error_text (AcceptHostConnection _) = ''accept host connection failed''"
| "tunnel_error_text (AcceptQuicBiStream _) = ''accept QUIC bi stream failed''"
| "tunnel_error_text (AcceptLocalTcpClient _) = ''accept local tcp client failed''"
| "tunnel_error_text (ConnectHostEndpoint _) = ''connect host endpoint failed''"
| "tunnel_error_text (InitialConnectionExhausted n) =
     ''initial connection failed after '' @ show_nat n @ '' attempts''"
| "tunnel_error_text (OpenAuthStream _) = ''open auth stream failed''"
| "tunnel_error_text (AcceptAuthStream _) = ''accept auth stream failed''"
| "tunnel_error_text (ReadAuthResult _) = ''read auth result failed''"
| "tunnel_error_text (ReadAuthPayload _) = ''read auth payload failed''"
| "tunnel_error_text (WriteAuthPayload _) = ''write auth payload failed''"
| "tunnel_error_text (WriteAuthRejected _) = ''write auth rejected failed''"
| "tunnel_error_text (WriteAuthDecision _) = ''write auth decision failed''"
| "tunnel_error_text (FinishAuthStream _) = ''finish auth stream failed''"
| "tunnel_error_text AuthRejectedByHost = ''auth rejected by host''"
| "tunnel_error_text AuthTimedOut = ''auth handshake timed out''"
| "tunnel_error_text (BridgeTcpToQuic _) = ''bridge tcp->quic failed''"
| "tunnel_error_text (BridgeQuicToTcp _) = ''bridge quic->tcp failed''"

fun sculk_error_text :: "sculk_error \<Rightarrow> string" where
  "sculk_error_text (Persist e) = persist_error_text e"
| "sculk_error_text (JoinUriErr e) = join_uri_error_text e"
| "sculk_error_text (TunnelErr e) = tunnel_error_text e"

section \<open>Categories\<close>

fun persist_category :: "persist_error \<Rightarrow> error_category" where
  "persist_category (PersistRelayUrlParse _) = CatInvalidEndpoint"
| "persist_category SystemDataDirUnavailable = CatIdentityUnavailable"
| "persist_category (PathIo _ _ _) = CatIdentityUnavailable"
| "persist_category (InvalidKeyLength _ _) = CatIdentityUnavailable"
| "persist_category (InvalidHostStateLength _ _) = CatIdentityUnavailable"
| "persist_category (UnsupportedHostStateVersion _) = CatIdentityUnavailable"
| "persist_category InvalidHostStateTimestamp = CatIdentityUnavailable"
| "persist_category (ProfileParse _ _) = CatInvalidConfiguration"
| "persist_category (ProfileSerialize _) = CatInvalidConfiguration"

fun join_uri_category :: "join_uri_error \<Rightarrow> error_category" where
  "join_uri_category (JoinRelayUrlParse _) = CatInvalidEndpoint"
| "join_uri_category (UrlParse _) = CatInvalidJoinUri"
| "join_uri_category InvalidStructure = CatInvalidJoinUri"
| "join_uri_category UnsupportedVersion = CatInvalidJoinUri"
| "join_uri_category InvalidPayload = CatInvalidJoinUri"
| "join_uri_category PayloadTooLong = CatInvalidJoinUri"
| "join_uri_category UnsupportedFlags = CatInvalidJoinUri"

fun tunnel_category :: "tunnel_error \<Rightarrow> error_category" where
  "tunnel_category (BindLocalListener _) = CatLocalPortUnavailable"
| "tunnel_category (ConnectHostEndpoint _) = CatHostUnreachable"
| "tunnel_category (InitialConnectionExhausted _) = CatHostUnreachable"
| "tunnel_category AuthTimedOut = CatHostUnreachable"
| "tunnel_category AuthRejectedByHost = CatAuthorizationDenied"
| "tunnel_category (BindHostEndpoint _) = CatInvalidEndpoint"
| "tunnel_category (BindJoinEndpoint _) = CatInvalidEndpoint"
| "tunnel_category (MutexPoisoned _) = CatInternal"
| "tunnel_category (AcceptHostConnection _) = CatInternal"
| "tunnel_category (AcceptQuicBiStream _) = CatInternal"
| "tunnel_category (AcceptLocalTcpClient _) = CatInternal"
| "tunnel_category (OpenAuthStream _) = CatInternal"
| "tunnel_category (AcceptAuthStream _) = CatInternal"
| "tunnel_category (ReadAuthResult _) = CatInternal"
| "tunnel_category (ReadAuthPayload _) = CatInternal"
| "tunnel_category (WriteAuthPayload _) = CatInternal"
| "tunnel_category (WriteAuthRejected _) = CatInternal"
| "tunnel_category (WriteAuthDecision _) = CatInternal"
| "tunnel_category (FinishAuthStream _) = CatInternal"
| "tunnel_category (BridgeTcpToQuic _) = CatInternal"
| "tunnel_category (BridgeQuicToTcp _) = CatInternal"

fun sculk_category :: "sculk_error \<Rightarrow> error_category" where
  "sculk_category (Persist e) = persist_category e"
| "sculk_category (JoinUriErr e) = join_uri_category e"
| "sculk_category (TunnelErr e) = tunnel_category e"

definition mutex_poisoned :: "string \<Rightarrow> tunnel_error" where
  "mutex_poisoned name = MutexPoisoned name"

text \<open>The only denial an error of the crate reports is the one the Host answered with.\<close>

lemma denied_iff: "sculk_category e = CatAuthorizationDenied \<longleftrightarrow> e = TunnelErr AuthRejectedByHost"
proof (cases e)
  case (Persist p)
  then show ?thesis by (cases p) auto
next
  case (JoinUriErr j)
  then show ?thesis by (cases j) auto
next
  case (TunnelErr t)
  then show ?thesis by (cases t) auto
qed

end
