(* ===== verification/Sculk_Types.thy ===== *)
theory Sculk_Types
  imports Sculk_Time Sculk_Errors
begin

text \<open>
  \<^verbatim>\<open>core/src/types.rs\<close>: the fixed-size identifiers of the protocol. A Rust array of \<open>n\<close> bytes
  is a byte list of length \<open>n\<close>, kept by \<^verbatim>\<open>typedef\<close>s so that every value of the type has its
  length.

  What the code calls in third-party crates is a value of the record \<open>crates\<close>, passed to the
  operations that use it: the constant-time comparison of \<^verbatim>\<open>subtle\<close>, the ed25519 keys and relay
  URLs of \<^verbatim>\<open>iroh\<close>, the URL parser of \<^verbatim>\<open>url\<close>, the URL-safe base64 engine of \<^verbatim>\<open>base64\<close>, and the
  TOML printer and parser.
\<close>

section \<open>Fixed-size arrays\<close>

typedef service_id = "{bs :: bytes. length bs = 16}"
  morphisms service_bytes Abs_service_id
  by (rule exI [of _ "replicate 16 0"]) simp

typedef access_token = "{bs :: bytes. length bs = 32}"
  morphisms token_bytes Abs_access_token
  by (rule exI [of _ "replicate 32 0"]) simp

typedef secret_key = "{bs :: bytes. length bs = 32}"
  morphisms secret_bytes Abs_secret_key
  by (rule exI [of _ "replicate 32 0"]) simp

text \<open>Arrays are compared byte by byte.\<close>

instantiation service_id :: equal
begin

definition equal_service_id :: "service_id \<Rightarrow> service_id \<Rightarrow> bool" where
  "equal_service_id a b \<longleftrightarrow> service_bytes a = service_bytes b"

instance
  by standard (simp add: equal_service_id_def service_bytes_inject)

end

instantiation access_token :: equal
begin

definition equal_access_token :: "access_token \<Rightarrow> access_token \<Rightarrow> bool" where
  "equal_access_token a b \<longleftrightarrow> token_bytes a = token_bytes b"

instance
  by standard (simp add: equal_access_token_def token_bytes_inject)

end

instantiation secret_key :: equal
begin

definition equal_secret_key :: "secret_key \<Rightarrow> secret_key \<Rightarrow> bool" where
  "equal_secret_key a b \<longleftrightarrow> secret_bytes a = secret_bytes b"

instance
  by standard (simp add: equal_secret_key_def secret_bytes_inject)

end

text \<open>
  \<^verbatim>\<open>try_into\<close> of a slice into an array: \<^verbatim>\<open>None\<close> when the length differs. \<^verbatim>\<open>from_bytes\<close> of
  the Rust types takes an array, so every value is made by one of these.
\<close>

definition service_of_slice :: "bytes \<Rightarrow> service_id option" where
  "service_of_slice bs = (if length bs = 16 then Some (Abs_service_id bs) else None)"

definition token_of_slice :: "bytes \<Rightarrow> access_token option" where
  "token_of_slice bs = (if length bs = 32 then Some (Abs_access_token bs) else None)"

definition secret_of_slice :: "bytes \<Rightarrow> secret_key option" where
  "secret_of_slice bs = (if length bs = 32 then Some (Abs_secret_key bs) else None)"

lemma length_service_bytes [simp, codec_simps]: "length (service_bytes s) = 16"
  using service_bytes by auto

lemma length_token_bytes [simp, codec_simps]: "length (token_bytes t) = 32"
  using token_bytes by auto

lemma length_secret_bytes [simp, codec_simps]: "length (secret_bytes k) = 32"
  using secret_bytes by auto

lemma service_of_slice_bytes [simp, codec_simps]: "service_of_slice (service_bytes s) = Some s"
  by (simp add: service_of_slice_def service_bytes_inverse)

lemma token_of_slice_bytes [simp, codec_simps]: "token_of_slice (token_bytes t) = Some t"
  by (simp add: token_of_slice_def token_bytes_inverse)

lemma secret_of_slice_bytes [simp, codec_simps]: "secret_of_slice (secret_bytes k) = Some k"
  by (simp add: secret_of_slice_def secret_bytes_inverse)

lemma service_of_slice_Some [codec_simps]: "service_of_slice bs = Some s \<longleftrightarrow> bs = service_bytes s"
  by (auto simp: service_of_slice_def Abs_service_id_inverse service_bytes_inverse)

lemma token_of_slice_Some [codec_simps]: "token_of_slice bs = Some t \<longleftrightarrow> bs = token_bytes t"
  by (auto simp: token_of_slice_def Abs_access_token_inverse token_bytes_inverse)

lemma secret_of_slice_Some [codec_simps]: "secret_of_slice bs = Some k \<longleftrightarrow> bs = secret_bytes k"
  by (auto simp: secret_of_slice_def Abs_secret_key_inverse secret_bytes_inverse)

lemma service_of_slice_None [codec_simps]: "service_of_slice bs = None \<longleftrightarrow> length bs \<noteq> 16"
  by (auto simp: service_of_slice_def)

lemma token_of_slice_None [codec_simps]: "token_of_slice bs = None \<longleftrightarrow> length bs \<noteq> 32"
  by (auto simp: token_of_slice_def)

lemma secret_of_slice_None [codec_simps]: "secret_of_slice bs = None \<longleftrightarrow> length bs \<noteq> 32"
  by (auto simp: secret_of_slice_def)

text \<open>Concrete identifiers whose bytes are all the same, for evaluation.\<close>

definition service_filled :: "u8 \<Rightarrow> service_id" where
  "service_filled b = Abs_service_id (replicate 16 b)"

definition token_filled :: "u8 \<Rightarrow> access_token" where
  "token_filled b = Abs_access_token (replicate 32 b)"

definition secret_filled :: "u8 \<Rightarrow> secret_key" where
  "secret_filled b = Abs_secret_key (replicate 32 b)"

lemma filled_bytes [simp]:
  "service_bytes (service_filled b) = replicate 16 b"
  "token_bytes (token_filled b) = replicate 32 b"
  "secret_bytes (secret_filled b) = replicate 32 b"
  by (simp_all add: service_filled_def token_filled_def secret_filled_def Abs_service_id_inverse
      Abs_access_token_inverse Abs_secret_key_inverse)

lemma filled_of_slice [simp]:
  "service_of_slice (replicate 16 b) = Some (service_filled b)"
  "token_of_slice (replicate 32 b) = Some (token_filled b)"
  "secret_of_slice (replicate 32 b) = Some (secret_filled b)"
  by (simp_all add: service_of_slice_def token_of_slice_def secret_of_slice_def service_filled_def
      token_filled_def secret_filled_def)

lemma filled_eq [simp]:
  "service_filled a = service_filled b \<longleftrightarrow> a = b"
  "token_filled a = token_filled b \<longleftrightarrow> a = b"
  "secret_filled a = secret_filled b \<longleftrightarrow> a = b"
  by (metis filled_bytes(1) replicate_eq_replicate zero_neq_numeral,
      metis filled_bytes(2) replicate_eq_replicate zero_neq_numeral,
      metis filled_bytes(3) replicate_eq_replicate zero_neq_numeral)

section \<open>Third-party crates\<close>

text \<open>
  An \<^verbatim>\<open>EndpointId\<close> is an ed25519 public key: 32 bytes, of which \<^verbatim>\<open>iroh\<close> rejects the ones
  that are no point. A \<^verbatim>\<open>RelayUrl\<close> is kept as the text \<^verbatim>\<open>iroh\<close> displays for it.
\<close>

typedef endpoint_id = "{bs :: bytes. length bs = 32}"
  morphisms endpoint_bytes Abs_endpoint_id
  by (rule exI [of _ "replicate 32 0"]) simp

lemma length_endpoint_bytes [simp, codec_simps]: "length (endpoint_bytes e) = 32"
  using endpoint_bytes by auto

instantiation endpoint_id :: equal
begin

definition equal_endpoint_id :: "endpoint_id \<Rightarrow> endpoint_id \<Rightarrow> bool" where
  "equal_endpoint_id a b \<longleftrightarrow> endpoint_bytes a = endpoint_bytes b"

instance
  by standard (simp add: equal_endpoint_id_def endpoint_bytes_inject)

end

definition endpoint_filled :: "u8 \<Rightarrow> endpoint_id" where
  "endpoint_filled b = Abs_endpoint_id (replicate 32 b)"

lemma endpoint_filled_bytes [simp]: "endpoint_bytes (endpoint_filled b) = replicate 32 b"
  by (simp add: endpoint_filled_def Abs_endpoint_id_inverse)

lemma endpoint_filled_eq [simp]: "endpoint_filled a = endpoint_filled b \<longleftrightarrow> a = b"
  by (metis endpoint_filled_bytes replicate_eq_replicate zero_neq_numeral)

datatype relay_url = RelayUrl string

fun relay_display :: "relay_url \<Rightarrow> string" where
  "relay_display (RelayUrl s) = s"

record url =
  url_scheme :: string
  url_username :: string
  url_password :: "string option"
  url_host :: "string option"
  url_port :: "u16 option"
  url_path :: string
  url_query :: "string option"
  url_fragment :: "string option"

record crates =
  cr_ct_eq :: "bytes \<Rightarrow> bytes \<Rightarrow> bool"
  cr_public :: "secret_key \<Rightarrow> endpoint_id"
  cr_fmt_short :: "endpoint_id \<Rightarrow> string"
  cr_endpoint_from_bytes :: "bytes \<Rightarrow> endpoint_id option"
  cr_relay_parse :: "string \<Rightarrow> string + relay_url"
  cr_url_parse :: "string \<Rightarrow> string + url"
  cr_b64_encode :: "bytes \<Rightarrow> string"
  cr_b64_decode :: "string \<Rightarrow> bytes option"

text \<open>\<^verbatim>\<open>AccessToken::matches\<close>.\<close>

definition token_matches :: "crates \<Rightarrow> access_token \<Rightarrow> access_token \<Rightarrow> bool" where
  "token_matches X a b = cr_ct_eq X (token_bytes a) (token_bytes b)"

text \<open>The documented result of \<^verbatim>\<open>subtle::ConstantTimeEq\<close> on arrays.\<close>

definition ct_eq_law :: "crates \<Rightarrow> bool" where
  "ct_eq_law X \<longleftrightarrow> (\<forall>a b. cr_ct_eq X a b \<longleftrightarrow> a = b)"

lemma token_matches_iff: "ct_eq_law X \<Longrightarrow> token_matches X a b \<longleftrightarrow> a = b"
  by (auto simp: token_matches_def ct_eq_law_def token_bytes_inject)

end
