(* ===== verification/Sculk_Codec.thy ===== *)
theory Sculk_Codec
  imports Sculk_Prelude
begin

text \<open>
  The contract of a binary layout: what is encoded decodes to itself, and, for a canonical
  layout, nothing else decodes. The control request, the host state file and the little-endian
  integers of the code are instances.
\<close>

locale byte_codec =
  fixes encode :: "'a \<Rightarrow> bytes"
    and decode :: "bytes \<Rightarrow> 'e + 'a"
    and valid :: "'a \<Rightarrow> bool"
  assumes decode_encode: "valid x \<Longrightarrow> decode (encode x) = Inr x"
begin

lemma encode_inj: "valid x \<Longrightarrow> valid y \<Longrightarrow> encode x = encode y \<Longrightarrow> x = y"
  by (metis decode_encode sum.inject(2))

end

locale canonical_codec = byte_codec +
  assumes encode_decode: "decode b = Inr x \<Longrightarrow> valid x \<and> encode x = b"
begin

lemma decode_iff: "decode b = Inr x \<longleftrightarrow> valid x \<and> encode x = b"
  using decode_encode encode_decode by blast

lemma decode_inj: "decode b = Inr x \<Longrightarrow> decode c = Inr x \<Longrightarrow> b = c"
  using encode_decode by blast

lemma decode_rejects: "\<not> (\<exists>x. valid x \<and> encode x = b) \<Longrightarrow> \<exists>e. decode b = Inl e"
  by (cases "decode b") (auto simp: decode_iff)

end

locale fixed_codec = canonical_codec +
  fixes len :: nat
  assumes encode_length: "length (encode x) = len"
begin

lemma decode_length: "decode b = Inr x \<Longrightarrow> length b = len"
  using encode_decode encode_length by blast

lemma decode_wrong_length: "length b \<noteq> len \<Longrightarrow> \<exists>e. decode b = Inl e"
  using decode_length by (cases "decode b") blast+

end

section \<open>Little-endian integers\<close>

text \<open>\<^verbatim>\<open>u64::to_le_bytes\<close>, \<^verbatim>\<open>u32::to_le_bytes\<close> and the inverse readers, on \<open>n\<close> bytes.\<close>

fun to_le :: "nat \<Rightarrow> nat \<Rightarrow> bytes" where
  "to_le 0 v = []"
| "to_le (Suc n) v = of_nat (v mod 256) # to_le n (v div 256)"

fun from_le :: "bytes \<Rightarrow> nat" where
  "from_le [] = 0"
| "from_le (b # bs) = unat b + 256 * from_le bs"

lemma length_to_le [simp, codec_simps]: "length (to_le n v) = n"
  by (induction n arbitrary: v) auto

lemma from_le_to_le [simp, codec_simps]: "v < 256 ^ n \<Longrightarrow> from_le (to_le n v) = v"
proof (induction n arbitrary: v)
  case (Suc n)
  then have "v div 256 < 256 ^ n" by (simp add: less_mult_imp_div_less mult.commute)
  with Suc.IH show ?case by (simp add: unat_of_nat take_bit_eq_mod)
qed simp

lemma to_le_from_le [simp, codec_simps]: "to_le (length bs) (from_le bs) = bs"
  by (induction bs) (simp_all add: unat_of_nat)

lemma from_le_less: "from_le bs < 256 ^ length bs"
proof (induction bs)
  case (Cons b bs)
  have "unat b < 256" by simp
  moreover have "Suc (from_le bs) \<le> 256 ^ length bs" using Cons by simp
  ultimately have "unat b + 256 * from_le bs < 256 * 256 ^ length bs" by linarith
  then show ?case by simp
qed simp

text \<open>\<^verbatim>\<open>read_array::<N>\<close>: \<^verbatim>\<open>copy_from_slice\<close> panics on another length.\<close>

definition read_le :: "nat \<Rightarrow> bytes \<Rightarrow> unit + nat" where
  "read_le n bs = (if length bs = n then Inr (from_le bs) else Inl ())"

interpretation le64: fixed_codec "to_le 8" "read_le 8" "\<lambda>v. v < 256 ^ 8" 8
proof unfold_locales
  fix b x assume "read_le 8 b = Inr x"
  then have "length b = 8" "x = from_le b" by (auto simp: read_le_def split: if_splits)
  with from_le_less [of b] to_le_from_le [of b]
  show "x < 256 ^ 8 \<and> to_le 8 x = b" by (simp del: to_le_from_le)
qed (simp_all add: read_le_def)

interpretation le32: fixed_codec "to_le 4" "read_le 4" "\<lambda>v. v < 256 ^ 4" 4
proof unfold_locales
  fix b x assume "read_le 4 b = Inr x"
  then have "length b = 4" "x = from_le b" by (auto simp: read_le_def split: if_splits)
  with from_le_less [of b] to_le_from_le [of b]
  show "x < 256 ^ 4 \<and> to_le 4 x = b" by (simp del: to_le_from_le)
qed (simp_all add: read_le_def)

section \<open>Slices\<close>

text \<open>\<^verbatim>\<open>bytes[a..b]\<close> where the length has been checked before.\<close>

definition slice :: "nat \<Rightarrow> nat \<Rightarrow> 'a list \<Rightarrow> 'a list" where
  "slice a b xs = take (b - a) (drop a xs)"

lemma length_slice [simp, codec_simps]: "length (slice a b xs) = min (b - a) (length xs - a)"
  by (simp add: slice_def)

lemma slice_append_skip [codec_simps]:
  "length xs \<le> a \<Longrightarrow> slice a b (xs @ ys) = slice (a - length xs) (b - length xs) ys"
  by (simp add: slice_def)

lemma slice_append_take [codec_simps]:
  "b \<le> length xs \<Longrightarrow> slice a b (xs @ ys) = slice a b xs"
  by (simp add: slice_def)

lemma slice_Cons [codec_simps]: "0 < a \<Longrightarrow> slice a b (x # xs) = slice (a - 1) (b - 1) xs"
  by (cases a) (simp_all add: slice_def)

lemma slice_all [codec_simps]: "length xs \<le> b \<Longrightarrow> slice 0 b xs = xs"
  by (simp add: slice_def)

lemma slice_split: "a \<le> b \<Longrightarrow> drop a xs = slice a b xs @ drop b xs"
  by (simp add: slice_def) (metis add.commute append_take_drop_id drop_drop le_add_diff_inverse)

end
