(* ===== verification/Sculk_Utf8.thy ===== *)
theory Sculk_Utf8
  imports Sculk_Prelude
begin

text \<open>
  UTF-8 as \<^verbatim>\<open>std::str\<close> uses it: which byte strings \<^verbatim>\<open>from_utf8\<close> accepts, and the bytes
  of a list of Unicode scalar values. Searching is on bytes, as \<^verbatim>\<open>strip_prefix\<close> and
  \<^verbatim>\<open>find\<close> with an ASCII pattern do.
\<close>

definition is_cont :: "u8 \<Rightarrow> bool" where
  "is_cont b \<longleftrightarrow> 0x80 \<le> b \<and> b \<le> 0xBF"

text \<open>The well-formed byte sequences of the Unicode standard, table 3-7.\<close>

fun utf8_valid :: "bytes \<Rightarrow> bool" where
  "utf8_valid [] = True"
| "utf8_valid (a # bs) =
    (if a \<le> 0x7F then utf8_valid bs
     else if 0xC2 \<le> a \<and> a \<le> 0xDF then
       (case bs of b # r \<Rightarrow> is_cont b \<and> utf8_valid r | _ \<Rightarrow> False)
     else if 0xE0 \<le> a \<and> a \<le> 0xEF then
       (case bs of b # c # r \<Rightarrow>
          is_cont b \<and> is_cont c \<and> (a = 0xE0 \<longrightarrow> 0xA0 \<le> b) \<and> (a = 0xED \<longrightarrow> b \<le> 0x9F) \<and> utf8_valid r
        | _ \<Rightarrow> False)
     else if 0xF0 \<le> a \<and> a \<le> 0xF4 then
       (case bs of b # c # d # r \<Rightarrow>
          is_cont b \<and> is_cont c \<and> is_cont d \<and> (a = 0xF0 \<longrightarrow> 0x90 \<le> b) \<and> (a = 0xF4 \<longrightarrow> b \<le> 0x8F)
          \<and> utf8_valid r
        | _ \<Rightarrow> False)
     else False)"

section \<open>Encoding scalar values\<close>

text \<open>A Rust \<^verbatim>\<open>char\<close>: a code point that is not a surrogate.\<close>

definition is_scalar :: "nat \<Rightarrow> bool" where
  "is_scalar c \<longleftrightarrow> c < 0xD800 \<or> (0xE000 \<le> c \<and> c < 0x110000)"

definition encode_char :: "nat \<Rightarrow> bytes" where
  "encode_char c =
     (if c < 0x80 then [of_nat c]
      else if c < 0x800 then [of_nat (0xC0 + c div 64), of_nat (0x80 + c mod 64)]
      else if c < 0x10000 then
        [of_nat (0xE0 + c div 4096), of_nat (0x80 + c div 64 mod 64), of_nat (0x80 + c mod 64)]
      else
        [of_nat (0xF0 + c div 262144), of_nat (0x80 + c div 4096 mod 64),
         of_nat (0x80 + c div 64 mod 64), of_nat (0x80 + c mod 64)])"

definition utf8_encode :: "nat list \<Rightarrow> bytes" where
  "utf8_encode cs = concat (map encode_char cs)"

lemma utf8_encode_simps [simp]:
  "utf8_encode [] = []"
  "utf8_encode (c # cs) = encode_char c @ utf8_encode cs"
  "utf8_encode (xs @ ys) = utf8_encode xs @ utf8_encode ys"
  by (simp_all add: utf8_encode_def)

lemma le_of_nat_u8: "n < 256 \<Longrightarrow> (w :: u8) \<le> of_nat n \<longleftrightarrow> unat w \<le> n"
  by (simp add: word_le_nat_alt unat_of_nat take_bit_eq_mod)

lemma of_nat_le_u8: "n < 256 \<Longrightarrow> of_nat n \<le> (w :: u8) \<longleftrightarrow> n \<le> unat w"
  by (simp add: word_le_nat_alt unat_of_nat take_bit_eq_mod)

lemma of_nat_eq_u8: "n < 256 \<Longrightarrow> of_nat n = (w :: u8) \<longleftrightarrow> n = unat w"
  by (auto simp: unat_of_nat take_bit_eq_mod)

lemmas of_nat_u8 = le_of_nat_u8 of_nat_le_u8 of_nat_eq_u8

lemma is_cont_of_nat: "n < 64 \<Longrightarrow> is_cont (of_nat (0x80 + n))"
  by (simp add: is_cont_def word_le_nat_alt unat_of_nat take_bit_eq_mod del: of_nat_add)

lemma div_split64: "c div (64 * k) * 64 + c div k mod 64 = c div k" for c k :: nat
proof -
  have "c div (64 * k) = c div k div 64" by (metis div_mult2_eq mult.commute)
  then show ?thesis by simp
qed

lemma valid_encode_char1: "c < 0x80 \<Longrightarrow> utf8_valid (encode_char c @ bs) = utf8_valid bs"
  by (simp add: encode_char_def of_nat_u8)

lemma valid_encode_char2:
  assumes "0x80 \<le> c" "c < 0x800"
  shows "utf8_valid (encode_char c @ bs) = utf8_valid bs"
proof -
  have h: "2 \<le> c div 64" "c div 64 < 32" "0xC0 + c div 64 < 256" "c mod 64 < 64"
    using assms by auto
  then have "encode_char c = [of_nat (0xC0 + c div 64), of_nat (0x80 + c mod 64)]"
    using assms by (simp add: encode_char_def del: of_nat_add)
  with h show ?thesis
    by (simp add: of_nat_u8 is_cont_of_nat del: of_nat_add)
qed

lemma valid_encode_char3:
  assumes "0x800 \<le> c" "c < 0x10000" "is_scalar c"
  shows "utf8_valid (encode_char c @ bs) = utf8_valid bs"
proof -
  have h: "c div 4096 < 16" "c div 64 mod 64 < 64" "c mod 64 < 64" "0xE0 + c div 4096 < 256"
    "0x80 + c div 64 mod 64 < 256"
    using assms by auto
  have s: "c div 4096 * 64 + c div 64 mod 64 = c div 64" using div_split64 [of c 64] by simp
  have "32 \<le> c div 64" using assms(1) by simp
  with s have lo: "c div 4096 = 0 \<Longrightarrow> 32 \<le> c div 64 mod 64" by linarith
  have "c div 64 < 864 \<or> 896 \<le> c div 64" using assms(3) by (auto simp: is_scalar_def)
  with s h have hi: "c div 4096 = 13 \<Longrightarrow> c div 64 mod 64 \<le> 31" by linarith
  have "encode_char c =
      [of_nat (0xE0 + c div 4096), of_nat (0x80 + c div 64 mod 64), of_nat (0x80 + c mod 64)]"
    using assms by (simp add: encode_char_def del: of_nat_add)
  with h lo hi show ?thesis
    by (simp add: of_nat_u8 is_cont_of_nat del: of_nat_add)
qed

lemma valid_encode_char4:
  assumes "0x10000 \<le> c" "is_scalar c"
  shows "utf8_valid (encode_char c @ bs) = utf8_valid bs"
proof -
  have c: "c < 0x110000" using assms by (auto simp: is_scalar_def)
  have h: "c div 262144 < 5" "c div 4096 mod 64 < 64" "c div 64 mod 64 < 64" "c mod 64 < 64"
    "0xF0 + c div 262144 < 256" "0x80 + c div 4096 mod 64 < 256"
    using c by auto
  have s: "c div 262144 * 64 + c div 4096 mod 64 = c div 4096" using div_split64 [of c 4096] by simp
  have "16 \<le> c div 4096" using assms(1) by simp
  with s have lo: "c div 262144 = 0 \<Longrightarrow> 16 \<le> c div 4096 mod 64" by linarith
  have "c div 4096 < 272" using c by simp
  with s h have hi: "c div 262144 = 4 \<Longrightarrow> c div 4096 mod 64 \<le> 15" by linarith
  have "encode_char c =
      [of_nat (0xF0 + c div 262144), of_nat (0x80 + c div 4096 mod 64),
       of_nat (0x80 + c div 64 mod 64), of_nat (0x80 + c mod 64)]"
    using assms by (simp add: encode_char_def del: of_nat_add)
  with h lo hi show ?thesis
    by (simp add: of_nat_u8 is_cont_of_nat del: of_nat_add)
qed

lemma utf8_valid_encode_append:
  "list_all is_scalar cs \<Longrightarrow> utf8_valid (utf8_encode cs @ bs) = utf8_valid bs"
proof (induction cs)
  case (Cons c cs)
  have "utf8_valid (encode_char c @ (utf8_encode cs @ bs)) = utf8_valid (utf8_encode cs @ bs)"
    using Cons.prems valid_encode_char1 valid_encode_char2 valid_encode_char3 valid_encode_char4
    by (cases "c < 0x80"; cases "c < 0x800"; cases "c < 0x10000") auto
  with Cons show ?case by simp
qed simp

lemma utf8_valid_ascii_append: "\<forall>b \<in> set as. b \<le> 0x7F \<Longrightarrow> utf8_valid (as @ bs) = utf8_valid bs"
  by (induction as) auto

text \<open>Every byte of a non-ASCII character is at least 0x80.\<close>

lemma encode_char_bytes: "is_scalar c \<Longrightarrow> b \<in> set (encode_char c) \<Longrightarrow> (c < 0x80 \<and> b = of_nat c) \<or> 0x80 \<le> b"
  by (cases "c < 0x80"; cases "c < 0x800"; cases "c < 0x10000")
    (auto simp: encode_char_def is_scalar_def of_nat_le_u8 word_le_nat_alt unat_of_nat take_bit_eq_mod
      simp del: of_nat_add)

lemma ascii_notin_encode:
  assumes "list_all is_scalar cs" and "n < 0x80" and "n \<notin> set cs"
  shows "of_nat n \<notin> set (utf8_encode cs)"
proof
  assume "of_nat n \<in> set (utf8_encode cs)"
  then obtain c where c: "c \<in> set cs" "of_nat n \<in> set (encode_char c)"
    by (auto simp: utf8_encode_def)
  with assms(1) have "(c < 0x80 \<and> (of_nat n :: u8) = of_nat c) \<or> 0x80 \<le> (of_nat n :: u8)"
    by (intro encode_char_bytes) (auto simp: list_all_iff)
  with assms(2) have "c = n"
    by (auto simp: word_le_nat_alt unat_of_nat take_bit_eq_mod of_nat_eq_u8)
  with c assms(3) show False by simp
qed

section \<open>Prefixes and first occurrences\<close>

definition strip_prefix :: "'a list \<Rightarrow> 'a list \<Rightarrow> 'a list option" where
  "strip_prefix pat s = (if take (length pat) s = pat then Some (drop (length pat) s) else None)"

fun find_sub :: "'a list \<Rightarrow> 'a list \<Rightarrow> nat option" where
  "find_sub pat s =
     (if take (length pat) s = pat then Some 0
      else (case s of [] \<Rightarrow> None | _ # t \<Rightarrow> map_option Suc (find_sub pat t)))"

declare find_sub.simps [simp del]

lemma strip_prefix_append [simp]: "strip_prefix pat (pat @ s) = Some s"
  by (simp add: strip_prefix_def)

lemma strip_prefix_Some: "strip_prefix pat s = Some t \<longleftrightarrow> s = pat @ t"
  by (auto simp: strip_prefix_def) (metis append_take_drop_id)

lemma find_sub_append:
  "pat \<noteq> [] \<Longrightarrow> hd pat \<notin> set xs \<Longrightarrow> find_sub pat (xs @ pat @ ys) = Some (length xs)"
proof (induction xs)
  case Nil
  then show ?case by (simp add: find_sub.simps)
next
  case (Cons x xs)
  obtain p ps where pat: "pat = p # ps" using Cons.prems(1) by (cases pat) auto
  with Cons show ?case by (auto simp: find_sub.simps [of "p # ps" "x # xs @ p # ps @ ys"])
qed

lemma find_sub_Some: "find_sub pat s = Some n \<Longrightarrow> take (length pat) (drop n s) = pat \<and> n \<le> length s"
proof (induction s arbitrary: n)
  case Nil
  then show ?case by (simp add: find_sub.simps split: if_splits)
next
  case (Cons x s)
  from Cons.prems show ?case
    by (auto simp: find_sub.simps [of pat "x # s"] split: if_splits dest: Cons.IH)
qed

end
