(* ===== verification/Join_Uri.thy ===== *)
theory Join_Uri
  imports Sculk_Types Sculk_Codec Sculk_Utf8
begin

text \<open>
  \<^verbatim>\<open>core/src/tunnel/join_uri.rs\<close>: the share URI \<^verbatim>\<open>sculk://join/v1/<payload>\<close>. \<open>expose_secret_uri\<close>
  prints it, \<open>parse_join_uri\<close> is the \<^verbatim>\<open>FromStr\<close> implementation, \<open>parse_payload\<close> its binary part.
  \<open>payload_grammar\<close> is the layout the format promises; the decoder accepts exactly it.
\<close>

definition SCHEME :: string where "SCHEME = ''sculk''"
definition HOST :: string where "HOST = ''join''"
definition VERSION :: string where "VERSION = ''v1''"
definition FLAG_RELAY :: u8 where "FLAG_RELAY = 1"
definition FLAGS_KNOWN :: u8 where "FLAGS_KNOWN = FLAG_RELAY"
definition PAYLOAD_BASE_LEN :: nat where "PAYLOAD_BASE_LEN = 1 + 32 + 16 + 32"
definition URI_LEN_MAX :: nat where "URI_LEN_MAX = 512"
definition RELAY_LEN_MAX :: nat where "RELAY_LEN_MAX = 255"

lemmas join_uri_consts = SCHEME_def HOST_def VERSION_def FLAG_RELAY_def FLAGS_KNOWN_def
  PAYLOAD_BASE_LEN_def URI_LEN_MAX_def RELAY_LEN_MAX_def

record join_uri =
  ju_endpoint_id :: endpoint_id
  ju_service_id :: service_id
  ju_token :: access_token
  ju_relay_url :: "relay_url option"

definition join_uri_new ::
  "endpoint_id \<Rightarrow> service_id \<Rightarrow> access_token \<Rightarrow> relay_url option \<Rightarrow> join_uri" where
  "join_uri_new e s t r =
     \<lparr>ju_endpoint_id = e, ju_service_id = s, ju_token = t, ju_relay_url = r\<rparr>"

section \<open>Printing\<close>

definition join_payload :: "join_uri \<Rightarrow> join_uri_error + bytes" where
  "join_payload u =
     (let flags = (if ju_relay_url u \<noteq> None then 0 OR FLAG_RELAY else 0);
          base = [flags] @ endpoint_bytes (ju_endpoint_id u) @ service_bytes (ju_service_id u)
                 @ token_bytes (ju_token u)
      in case ju_relay_url u of
           None \<Rightarrow> Inr base
         | Some r \<Rightarrow>
             (let relay_bytes = bytes_of_str (relay_display r)
              in if length relay_bytes > RELAY_LEN_MAX then Inl PayloadTooLong
                 else Inr (base @ [of_nat (length relay_bytes)] @ relay_bytes)))"

definition uri_prefix :: string where
  "uri_prefix = SCHEME @ ''://'' @ HOST @ ''/'' @ VERSION @ ''/''"

definition expose_secret_uri :: "crates \<Rightarrow> join_uri \<Rightarrow> join_uri_error + string" where
  "expose_secret_uri X u =
     and_then (join_payload u) (\<lambda>payload.
       let uri = uri_prefix @ cr_b64_encode X payload
       in if length uri > URI_LEN_MAX then Inl PayloadTooLong else Inr uri)"

section \<open>Parsing\<close>

definition parse_relay :: "crates \<Rightarrow> u8 \<Rightarrow> bytes \<Rightarrow> join_uri_error + relay_url option" where
  "parse_relay X flags payload =
     (if flags AND FLAG_RELAY = 0 then
        if length payload \<noteq> PAYLOAD_BASE_LEN then Inl InvalidPayload else Inr None
      else if length payload \<le> PAYLOAD_BASE_LEN then Inl InvalidPayload
      else
        let relay_len = unat (payload ! PAYLOAD_BASE_LEN)
        in if relay_len = 0 \<or> relay_len > RELAY_LEN_MAX
              \<or> length payload \<noteq> PAYLOAD_BASE_LEN + 1 + relay_len then Inl InvalidPayload
           else
             let relay = drop (PAYLOAD_BASE_LEN + 1) payload
             in if \<not> utf8_valid relay then Inl InvalidPayload
                else case cr_relay_parse X (str_of_bytes relay) of
                       Inl e \<Rightarrow> Inl (JoinRelayUrlParse e)
                     | Inr r \<Rightarrow> Inr (Some r))"

definition parse_payload :: "crates \<Rightarrow> bytes \<Rightarrow> join_uri_error + join_uri" where
  "parse_payload X payload =
     (if length payload < PAYLOAD_BASE_LEN then Inl InvalidPayload
      else
        let flags = payload ! 0
        in if flags AND NOT FLAGS_KNOWN \<noteq> 0 then Inl UnsupportedFlags
           else
             and_then (ok_or InvalidPayload (cr_endpoint_from_bytes X (slice 1 33 payload))) (\<lambda>endpoint.
             and_then (ok_or InvalidPayload (service_of_slice (slice 33 49 payload))) (\<lambda>service.
             and_then (ok_or InvalidPayload (token_of_slice (slice 49 81 payload))) (\<lambda>token.
             and_then (parse_relay X flags payload) (\<lambda>relay.
               Inr (join_uri_new endpoint service token relay))))))"

definition url_is_join :: "url \<Rightarrow> bool" where
  "url_is_join u \<longleftrightarrow>
     \<not> (url_scheme u \<noteq> SCHEME \<or> url_host u \<noteq> Some HOST \<or> url_port u \<noteq> None \<or> url_username u \<noteq> []
        \<or> url_password u \<noteq> None \<or> url_query u \<noteq> None \<or> url_fragment u \<noteq> None)"

definition parse_join_uri :: "crates \<Rightarrow> string \<Rightarrow> join_uri_error + join_uri" where
  "parse_join_uri X s =
     (if length s > URI_LEN_MAX then Inl PayloadTooLong
      else case cr_url_parse X s of
        Inl e \<Rightarrow> Inl (UrlParse e)
      | Inr url \<Rightarrow>
          if \<not> url_is_join url then Inl InvalidStructure
          else case strip_prefix (''/'' @ VERSION @ ''/'') (url_path url) of
            None \<Rightarrow> Inl UnsupportedVersion
          | Some encoded \<Rightarrow>
              if encoded = [] \<or> CHR ''/'' \<in> set encoded then Inl InvalidStructure
              else case cr_b64_decode X encoded of
                None \<Rightarrow> Inl InvalidPayload
              | Some payload \<Rightarrow> parse_payload X payload)"

section \<open>What the crates promise\<close>

definition url_safe_char :: "char \<Rightarrow> bool" where
  "url_safe_char c \<longleftrightarrow>
     c \<in> set ''ABCDEFGHIJKLMNOPQRSTUVWXYZabcdefghijklmnopqrstuvwxyz0123456789-_''"

text \<open>The URL-safe alphabet without padding, and the size of its output.\<close>

definition base64_law :: "crates \<Rightarrow> bool" where
  "base64_law X \<longleftrightarrow>
     (\<forall>p. cr_b64_decode X (cr_b64_encode X p) = Some p
        \<and> list_all url_safe_char (cr_b64_encode X p)
        \<and> length (cr_b64_encode X p) = (4 * length p + 2) div 3)"

text \<open>The decoder refuses padding, foreign characters and non-zero trailing bits.\<close>

definition base64_canonical :: "crates \<Rightarrow> bool" where
  "base64_canonical X \<longleftrightarrow> (\<forall>s p. cr_b64_decode X s = Some p \<longrightarrow> cr_b64_encode X p = s)"

text \<open>A URL of the form the crate prints has the parts it was printed from.\<close>

definition url_law :: "crates \<Rightarrow> bool" where
  "url_law X \<longleftrightarrow>
     (\<forall>enc. list_all url_safe_char enc \<longrightarrow>
        cr_url_parse X (uri_prefix @ enc) =
          Inr \<lparr>url_scheme = SCHEME, url_username = [], url_password = None, url_host = Some HOST,
               url_port = None, url_path = ''/'' @ VERSION @ ''/'' @ enc, url_query = None,
               url_fragment = None\<rparr>)"

definition endpoint_law :: "crates \<Rightarrow> bool" where
  "endpoint_law X \<longleftrightarrow> (\<forall>b e. cr_endpoint_from_bytes X b = Some e \<longrightarrow> endpoint_bytes e = b)"

text \<open>
  A Join URI whose parts are values of their Rust types: the endpoint is a curve point, and
  the relay's text is UTF-8, not empty, and parses back.
\<close>

definition relay_wf :: "crates \<Rightarrow> relay_url \<Rightarrow> bool" where
  "relay_wf X r \<longleftrightarrow>
     relay_display r \<noteq> [] \<and> utf8_valid (bytes_of_str (relay_display r))
     \<and> cr_relay_parse X (relay_display r) = Inr r"

definition join_uri_wf :: "crates \<Rightarrow> join_uri \<Rightarrow> bool" where
  "join_uri_wf X u \<longleftrightarrow>
     cr_endpoint_from_bytes X (endpoint_bytes (ju_endpoint_id u)) = Some (ju_endpoint_id u)
     \<and> (case ju_relay_url u of None \<Rightarrow> True | Some r \<Rightarrow> relay_wf X r)"

section \<open>The grammar of a payload\<close>

fun relay_tail :: "crates \<Rightarrow> relay_url option \<Rightarrow> bytes \<Rightarrow> bool" where
  "relay_tail X None tail \<longleftrightarrow> tail = []"
| "relay_tail X (Some r) tail \<longleftrightarrow>
     (\<exists>text. tail = of_nat (length text) # text \<and> 0 < length text \<and> length text \<le> 255
       \<and> utf8_valid text \<and> cr_relay_parse X (str_of_bytes text) = Inr r)"

definition payload_grammar :: "crates \<Rightarrow> bytes \<Rightarrow> join_uri \<Rightarrow> bool" where
  "payload_grammar X p u \<longleftrightarrow>
     (\<exists>tail. p = (if ju_relay_url u = None then 0 else 1) # endpoint_bytes (ju_endpoint_id u)
                 @ service_bytes (ju_service_id u) @ token_bytes (ju_token u) @ tail
       \<and> cr_endpoint_from_bytes X (endpoint_bytes (ju_endpoint_id u)) = Some (ju_endpoint_id u)
       \<and> relay_tail X (ju_relay_url u) tail)"

lemma flags_known: "flags AND NOT 1 = 0 \<longleftrightarrow> flags = 0 \<or> flags = (1 :: u8)"
proof
  assume h: "flags AND NOT 1 = 0"
  have "bit flags n \<Longrightarrow> n = 0" for n
  proof (rule ccontr)
    assume "bit flags n" "n \<noteq> 0"
    moreover from this(1) have "n < 8" by (auto dest: bit_imp_le_length)
    ultimately have "bit (flags AND NOT 1) n" by (simp add: bit_simps)
    with h show False by simp
  qed
  then have "flags = (if bit flags 0 then 1 else 0)"
    by (intro bit_word_eqI) (auto simp: bit_simps)
  then show "flags = 0 \<or> flags = 1" by presburger
qed auto

text \<open>A long enough payload is a flag byte, three fixed fields and a tail.\<close>

lemma payload_split:
  assumes "81 \<le> length p"
  obtains f e s t tail where "p = f # e @ s @ t @ tail" "length e = 32" "length s = 16" "length t = 32"
proof
  from assms have "p = take 1 p @ drop 1 p" and "p \<noteq> []" by auto
  then have "p = hd p # drop 1 p" by (cases p) auto
  moreover have "drop 1 p = slice 1 33 p @ drop 33 p" by (rule slice_split) simp
  moreover have "drop 33 p = slice 33 49 p @ drop 49 p" by (rule slice_split) simp
  moreover have "drop 49 p = slice 49 81 p @ drop 81 p" by (rule slice_split) simp
  ultimately show "p = hd p # slice 1 33 p @ slice 33 49 p @ slice 49 81 p @ drop 81 p" by simp
qed (use assms in simp_all)

lemma parse_payload_fields:
  assumes "length e = 32" "length s = 16" "length t = 32"
  shows "parse_payload X (f # e @ s @ t @ tail) =
    (if f \<noteq> 0 \<and> f \<noteq> 1 then Inl UnsupportedFlags
     else and_then (ok_or InvalidPayload (cr_endpoint_from_bytes X e)) (\<lambda>endpoint.
          and_then (parse_relay X f (f # e @ s @ t @ tail)) (\<lambda>relay.
            Inr (join_uri_new endpoint (Abs_service_id s) (Abs_access_token t) relay))))"
  using assms flags_known [of f]
  by (simp add: parse_payload_def join_uri_consts codec_simps service_of_slice_def token_of_slice_def)

lemma parse_relay_tail:
  assumes len: "length q = 80" and f: "f = 0 \<or> f = 1"
  shows "parse_relay X f (f # q @ tail) = Inr r \<longleftrightarrow> (f = (if r = None then 0 else 1)) \<and> relay_tail X r tail"
proof (cases "f = 0")
  case True
  then show ?thesis using len by (cases r) (auto simp: parse_relay_def join_uri_consts)
next
  case False
  with f have f1: "f = 1" by simp
  show ?thesis
  proof (cases tail)
    case Nil
    with f1 len show ?thesis by (cases r) (auto simp: parse_relay_def join_uri_consts)
  next
    case (Cons n rt)
    have nth: "(q @ n # rt) ! 80 = n" using len by (simp add: nth_append)
    have drop: "drop 81 (q @ n # rt) = rt" using len by simp
    have n255: "unat n \<le> 255" using unat_le_max [of n] by simp
    have n: "length rt = unat n \<longleftrightarrow> n = of_nat (length rt) \<and> length rt \<le> 255"
      using n255 by (auto simp: unat_of_nat take_bit_eq_mod)
    show ?thesis
      using f1 len Cons nth drop n n255
      by (cases r) (auto simp: parse_relay_def join_uri_consts split: sum.splits)
  qed
qed

lemma parse_payload_Inr:
  assumes "endpoint_law X"
  shows "parse_payload X p = Inr u \<longleftrightarrow> payload_grammar X p u"
proof (cases "81 \<le> length p")
  case False
  then have "parse_payload X p = Inl InvalidPayload" by (simp add: parse_payload_def join_uri_consts)
  moreover have "\<not> payload_grammar X p u" using False by (auto simp: payload_grammar_def)
  ultimately show ?thesis by simp
next
  case True
  then obtain f e s t tail where p: "p = f # e @ s @ t @ tail"
    and len: "length e = 32" "length s = 16" "length t = 32" by (rule payload_split)
  have rel: "f = 0 \<or> f = 1 \<Longrightarrow> parse_relay X f p = Inr r \<longleftrightarrow> f = (if r = None then 0 else 1) \<and> relay_tail X r tail" for r
    using parse_relay_tail [of "e @ s @ t" f X tail r] len p by simp
  have "parse_payload X p = Inr u \<longleftrightarrow>
      (f = 0 \<or> f = 1) \<and> cr_endpoint_from_bytes X e = Some (ju_endpoint_id u)
      \<and> parse_relay X f p = Inr (ju_relay_url u) \<and> ju_service_id u = Abs_service_id s
      \<and> ju_token u = Abs_access_token t"
    using parse_payload_fields [OF len, of X f tail]
    by (cases u) (auto simp: p and_then_Inr join_uri_new_def)
  also have "\<dots> \<longleftrightarrow> f = (if ju_relay_url u = None then 0 else 1) \<and> relay_tail X (ju_relay_url u) tail
      \<and> cr_endpoint_from_bytes X e = Some (ju_endpoint_id u) \<and> e = endpoint_bytes (ju_endpoint_id u)
      \<and> s = service_bytes (ju_service_id u) \<and> t = token_bytes (ju_token u)"
  proof -
    have "ju_service_id u = Abs_service_id s \<longleftrightarrow> s = service_bytes (ju_service_id u)"
      using len by (auto simp: Abs_service_id_inverse service_bytes_inverse)
    moreover have "ju_token u = Abs_access_token t \<longleftrightarrow> t = token_bytes (ju_token u)"
      using len by (auto simp: Abs_access_token_inverse token_bytes_inverse)
    moreover have "cr_endpoint_from_bytes X e = Some (ju_endpoint_id u) \<Longrightarrow> e = endpoint_bytes (ju_endpoint_id u)"
      using assms by (auto simp: endpoint_law_def)
    moreover have "f = (if ju_relay_url u = None then 0 else 1) \<Longrightarrow> f = 0 \<or> f = 1" by simp
    ultimately show ?thesis using rel [of "ju_relay_url u"] by blast
  qed
  also have "\<dots> \<longleftrightarrow> payload_grammar X p u"
  proof -
    have "p = fl # endpoint_bytes ep @ service_bytes sv @ token_bytes tk @ tl \<longleftrightarrow>
        f = fl \<and> e = endpoint_bytes ep \<and> s = service_bytes sv \<and> t = token_bytes tk \<and> tail = tl"
      for fl ep sv tk tl using len by (simp add: p)
    then show ?thesis unfolding payload_grammar_def by blast
  qed
  finally show ?thesis .
qed

text \<open>
  C27. The decoder of the binary payload accepts exactly the v1 grammar: a payload parses to a
  Join URI value if and only if it is the flag byte, the endpoint key, the service id and the
  token of that value, followed by nothing or by a length-prefixed, non-empty, UTF-8 relay text
  that parses; every other byte string is an error.
\<close>

theorem parse_payload_grammar:
  assumes "endpoint_law X"
  shows "parse_payload X p = Inr u \<longleftrightarrow> payload_grammar X p u"
  using assms by (rule parse_payload_Inr)


section \<open>Round trip and bounds\<close>

lemma join_payload_Inr:
  "join_payload u = Inr p \<longleftrightarrow>
     (\<exists>tail. p = (if ju_relay_url u = None then 0 else 1) # endpoint_bytes (ju_endpoint_id u)
                @ service_bytes (ju_service_id u) @ token_bytes (ju_token u) @ tail
       \<and> (case ju_relay_url u of
            None \<Rightarrow> tail = []
          | Some r \<Rightarrow> length (relay_display r) \<le> 255 \<and>
              tail = of_nat (length (relay_display r)) # bytes_of_str (relay_display r)))"
  by (cases "ju_relay_url u") (auto simp: join_payload_def join_uri_consts Let_def)

lemma join_payload_grammar:
  assumes "join_uri_wf X u" and "join_payload u = Inr p"
  shows "payload_grammar X p u"
  using assms
  by (cases "ju_relay_url u")
    (auto simp: payload_grammar_def join_payload_Inr join_uri_wf_def relay_wf_def
      intro!: exI [of _ "bytes_of_str (relay_display r)" for r])

lemma join_payload_length: "join_payload u = Inr p \<Longrightarrow> length p \<le> 337"
  by (cases "ju_relay_url u") (auto simp: join_payload_Inr)

lemma join_payload_Inl:
  "join_payload u = Inl e \<longleftrightarrow>
     e = PayloadTooLong \<and> (\<exists>r. ju_relay_url u = Some r \<and> 255 < length (relay_display r))"
  by (cases "ju_relay_url u") (auto simp: join_payload_def join_uri_consts Let_def)

lemma length_uri_prefix [simp]: "length uri_prefix = 16"
  by (simp add: uri_prefix_def join_uri_consts)

lemma expose_via_payload:
  assumes "base64_law X"
  shows "expose_secret_uri X u = map_err id (and_then (join_payload u) (\<lambda>p. Inr (uri_prefix @ cr_b64_encode X p)))"
proof (cases "join_payload u")
  case (Inr p)
  with join_payload_length have "length p \<le> 337" by blast
  then have "length (uri_prefix @ cr_b64_encode X p) \<le> 466"
    using assms by (simp add: base64_law_def)
  with Inr show ?thesis by (simp add: expose_secret_uri_def Let_def join_uri_consts)
qed (simp add: expose_secret_uri_def)

lemma expose_Inr:
  assumes "base64_law X"
  shows "expose_secret_uri X u = Inr s \<longleftrightarrow> (\<exists>p. join_payload u = Inr p \<and> s = uri_prefix @ cr_b64_encode X p)"
  using assms by (auto simp: expose_via_payload and_then_Inr)

text \<open>
  Printing a Join URI fails in exactly one case, a relay whose text is longer than 255
  bytes, and every printed URI has at most 466 of the 512 bytes the parser admits: the length
  check after encoding never rejects anything.
\<close>

theorem expose_fails_iff_relay_too_long:
  assumes "base64_law X"
  shows "(expose_secret_uri X u = Inl e \<longleftrightarrow>
           e = PayloadTooLong \<and> (\<exists>r. ju_relay_url u = Some r \<and> RELAY_LEN_MAX < length (relay_display r)))
       \<and> (expose_secret_uri X u = Inr s \<longrightarrow> length s \<le> 466 \<and> length s \<le> URI_LEN_MAX)"
proof
  show "expose_secret_uri X u = Inl e \<longleftrightarrow>
      e = PayloadTooLong \<and> (\<exists>r. ju_relay_url u = Some r \<and> RELAY_LEN_MAX < length (relay_display r))"
  proof -
    have "expose_secret_uri X u = Inl e \<longleftrightarrow> join_payload u = Inl e"
      unfolding expose_via_payload [OF assms] by (cases "join_payload u") simp_all
    then show ?thesis by (simp add: join_payload_Inl RELAY_LEN_MAX_def)
  qed
next
  show "expose_secret_uri X u = Inr s \<longrightarrow> length s \<le> 466 \<and> length s \<le> URI_LEN_MAX"
  proof
    assume "expose_secret_uri X u = Inr s"
    then obtain p where p: "join_payload u = Inr p" "s = uri_prefix @ cr_b64_encode X p"
      using expose_Inr [OF assms] by blast
    moreover from join_payload_length [OF p(1)] have "(4 * length p + 2) div 3 \<le> 450" by linarith
    ultimately show "length s \<le> 466 \<and> length s \<le> URI_LEN_MAX"
      using assms by (simp add: base64_law_def URI_LEN_MAX_def)
  qed
qed

lemma slash_not_url_safe: "\<not> url_safe_char (CHR ''/'')"
  by (simp add: url_safe_char_def)

lemma url_safe_no_slash: "list_all url_safe_char s \<Longrightarrow> CHR ''/'' \<notin> set s"
  using slash_not_url_safe by (metis list_all_iff)

definition join_url :: "string \<Rightarrow> url" where
  "join_url enc = \<lparr>url_scheme = SCHEME, url_username = [], url_password = None, url_host = Some HOST,
     url_port = None, url_path = ''/'' @ VERSION @ ''/'' @ enc, url_query = None, url_fragment = None\<rparr>"

lemma url_is_join_url: "url_is_join (join_url enc)"
  by (simp add: url_is_join_def join_url_def)

lemma strip_join_url: "strip_prefix (''/'' @ VERSION @ ''/'') (url_path (join_url enc)) = Some enc"
  using strip_prefix_append [of "''/'' @ VERSION @ ''/''" enc] by (simp add: join_url_def)

lemma parse_join_uri_join:
  assumes "length s \<le> 512" "cr_url_parse X s = Inr (join_url enc)" "enc \<noteq> []" "CHR ''/'' \<notin> set enc"
    "cr_b64_decode X enc = Some p"
  shows "parse_join_uri X s = parse_payload X p"
  unfolding parse_join_uri_def
  using assms strip_join_url [of enc] url_is_join_url [of enc]
  by (simp add: URI_LEN_MAX_def del: append.simps)

lemma parse_encoded:
  assumes "base64_law X" "url_law X" "p \<noteq> []" "length p \<le> 337"
  shows "parse_join_uri X (uri_prefix @ cr_b64_encode X p) = parse_payload X p"
proof -
  define enc where "enc = cr_b64_encode X p"
  have enc: "list_all url_safe_char enc" "length enc = (4 * length p + 2) div 3"
    "cr_b64_decode X enc = Some p"
    using assms(1) by (simp_all add: base64_law_def enc_def)
  have "0 < length p" using assms(3) by simp
  then have "1 \<le> (4 * length p + 2) div 3" by linarith
  with enc(2) have "enc \<noteq> []" by (cases enc) simp_all
  moreover have "length (uri_prefix @ enc) \<le> 512" using enc(2) assms(4) by simp
  moreover have "cr_url_parse X (uri_prefix @ enc) = Inr (join_url enc)"
    using assms(2) enc(1) by (simp only: url_law_def join_url_def)
  ultimately have "parse_join_uri X (uri_prefix @ enc) = parse_payload X p"
    using parse_join_uri_join url_safe_no_slash [OF enc(1)] enc(3) by blast
  then show ?thesis by (simp only: enc_def)
qed

lemma parse_exposed:
  assumes "base64_law X" and "url_law X" and "endpoint_law X" and "join_uri_wf X u"
    and "expose_secret_uri X u = Inr s"
  shows "parse_join_uri X s = Inr u"
proof -
  obtain p where p: "join_payload u = Inr p" "s = uri_prefix @ cr_b64_encode X p"
    using assms(5) expose_Inr [OF assms(1)] by blast
  have "p \<noteq> []" using p(1) by (auto simp: join_payload_Inr)
  with p join_payload_length [OF p(1)] have "parse_join_uri X s = parse_payload X p"
    by (simp add: parse_encoded assms)
  also have "\<dots> = Inr u"
    using parse_payload_Inr [OF assms(3)] join_payload_grammar [OF assms(4) p(1)] by blast
  finally show ?thesis .
qed

text \<open>
  C20. Every Join URI that can be printed parses back to the same value: endpoint, service id,
  token and relay.
\<close>

theorem join_uri_roundtrip:
  assumes "base64_law X" and "url_law X" and "endpoint_law X" and "join_uri_wf X u"
    and "expose_secret_uri X u = Inr s"
  shows "parse_join_uri X s = Inr u"
  using assms by (rule parse_exposed)

text \<open>
  C28. A URI without a relay is canonical: whatever text was accepted, printing the parsed value
  gives the scheme and host followed by exactly the path that was parsed, so that two different
  payloads never denote the same room.
\<close>

theorem parsed_uri_is_canonical:
  assumes "base64_law X" and "base64_canonical X" and "endpoint_law X"
    and "parse_join_uri X s = Inr u" and "ju_relay_url u = None"
  shows "\<exists>url. cr_url_parse X s = Inr url
           \<and> expose_secret_uri X u = Inr (SCHEME @ ''://'' @ HOST @ url_path url)"
proof -
  from assms(4) obtain url enc p where url: "cr_url_parse X s = Inr url"
    and enc: "url_path url = (''/'' @ VERSION @ ''/'') @ enc"
    and p: "cr_b64_decode X enc = Some p" "parse_payload X p = Inr u"
    unfolding parse_join_uri_def
    by (auto simp: strip_prefix_Some split: if_splits sum.splits option.splits)
  have "payload_grammar X p u" using parse_payload_Inr [OF assms(3)] p(2) by blast
  then have "join_payload u = Inr p"
    using assms(5) by (auto simp: payload_grammar_def join_payload_Inr)
  moreover have "cr_b64_encode X p = enc" using assms(2) p(1) by (simp add: base64_canonical_def)
  ultimately have "expose_secret_uri X u = Inr (SCHEME @ ''://'' @ HOST @ url_path url)"
    using expose_Inr [OF assms(1)] by (auto simp: enc uri_prefix_def)
  with url show ?thesis by blast
qed

end
