(* ===== verification/Token_Policy.thy ===== *)
theory Token_Policy
  imports Sculk_Types
begin

text \<open>
  The pure part of \<^verbatim>\<open>core/src/tunnel/iroh/node.rs\<close>: refresh policies and token states, the errors
  of a Node, which token a service starts with (\<open>resolve_token_state\<close>), the check of its target
  address, and the timing of automatic rotations (\<open>rotation_schedule\<close>). \<open>fresh\<close> is the token a call
  draws with \<^verbatim>\<open>AccessToken::generate\<close>.
\<close>

section \<open>Policies, token states and errors\<close>

definition ROTATION_CLOCK_CHECK_MAX :: duration where "ROTATION_CLOCK_CHECK_MAX = from_secs 60"
definition ROTATION_RETRY_MIN :: duration where "ROTATION_RETRY_MIN = from_secs 1"
definition ROTATION_RETRY_MAX :: duration where "ROTATION_RETRY_MAX = from_secs 60"

lemmas rotation_consts = ROTATION_CLOCK_CHECK_MAX_def ROTATION_RETRY_MIN_def ROTATION_RETRY_MAX_def
  from_secs_def nanos_per_sec_def

datatype token_refresh_policy = PolicyAlways | PolicyNever | PolicyAfter duration

record token_state =
  ts_token :: access_token
  ts_created_at :: system_time

definition token_state_new :: "access_token \<Rightarrow> system_time \<Rightarrow> token_state" where
  "token_state_new t at = \<lparr>ts_token = t, ts_created_at = at\<rparr>"

definition token_state_generate :: "access_token \<Rightarrow> system_time \<Rightarrow> token_state" where
  "token_state_generate fresh now = token_state_new fresh now"

datatype sculk_node_error =
    TargetNotLoopback
  | InvalidTargetPort
  | DuplicateService
  | ServiceNotFound
  | RotationInProgress
  | InvalidRefreshPeriod
  | SessionGenerationExhausted
  | NodeJoinUri join_uri_error
  | BindEndpoint box_error

fun node_error_category :: "sculk_node_error \<Rightarrow> error_category" where
  "node_error_category TargetNotLoopback = CatInvalidConfiguration"
| "node_error_category InvalidTargetPort = CatInvalidConfiguration"
| "node_error_category InvalidRefreshPeriod = CatInvalidConfiguration"
| "node_error_category DuplicateService = CatOperationConflict"
| "node_error_category ServiceNotFound = CatOperationConflict"
| "node_error_category RotationInProgress = CatOperationConflict"
| "node_error_category SessionGenerationExhausted = CatResourceLimit"
| "node_error_category (NodeJoinUri e) = join_uri_category e"
| "node_error_category (BindEndpoint _) = CatInvalidEndpoint"

section \<open>Target addresses\<close>

datatype ip_addr = V4 u8 u8 u8 u8 | V6 "u16 list"

fun is_loopback :: "ip_addr \<Rightarrow> bool" where
  "is_loopback (V4 a b c d) \<longleftrightarrow> a = 127"
| "is_loopback (V6 segments) \<longleftrightarrow> segments = [0, 0, 0, 0, 0, 0, 0, 1]"

record socket_addr =
  sa_ip :: ip_addr
  sa_port :: u16

definition validate_target :: "socket_addr \<Rightarrow> sculk_node_error + unit" where
  "validate_target a =
     (if \<not> is_loopback (sa_ip a) then Inl TargetNotLoopback
      else if sa_port a = 0 then Inl InvalidTargetPort
      else Inr ())"

section \<open>The token a service starts with\<close>

record resolved_token_state =
  rt_state :: token_state
  rt_refresh :: "duration option"
  rt_deadline :: "system_time option"
  rt_deadline_monotonic :: "instant option"

definition rotation_deadline ::
  "system_time \<Rightarrow> duration option \<Rightarrow> sculk_node_error + system_time option" where
  "rotation_deadline now period =
     (case period of
        None \<Rightarrow> Inr None
      | Some p \<Rightarrow> case time_checked_add now p of
          None \<Rightarrow> Inl InvalidRefreshPeriod
        | Some t \<Rightarrow> Inr (Some t))"

definition resolve_token_state ::
  "token_refresh_policy \<Rightarrow> token_state option \<Rightarrow> access_token \<Rightarrow> system_time \<Rightarrow> instant
     \<Rightarrow> sculk_node_error + resolved_token_state" where
  "resolve_token_state policy saved fresh now now_monotonic =
     (case policy of
        PolicyAlways \<Rightarrow>
          Inr \<lparr>rt_state = token_state_generate fresh now, rt_refresh = None, rt_deadline = None,
               rt_deadline_monotonic = None\<rparr>
      | PolicyNever \<Rightarrow>
          Inr \<lparr>rt_state = (case saved of None \<Rightarrow> token_state_generate fresh now | Some s \<Rightarrow> s),
               rt_refresh = None, rt_deadline = None, rt_deadline_monotonic = None\<rparr>
      | PolicyAfter period \<Rightarrow>
          if period = 0 then Inl InvalidRefreshPeriod
          else
            let state = (case saved of
                  None \<Rightarrow> token_state_generate fresh now
                | Some s \<Rightarrow> if ts_created_at s \<le> now then s else token_state_generate fresh now)
            in and_then (ok_or InvalidRefreshPeriod (time_checked_add (ts_created_at state) period)) (\<lambda>deadline.
               and_then (if deadline \<le> now then
                           map_err id (and_then (ok_or InvalidRefreshPeriod (time_checked_add now period))
                             (\<lambda>d. Inr (token_state_generate fresh now, d)))
                         else Inr (state, deadline)) (\<lambda>(state, deadline).
               and_then (ok_or InvalidRefreshPeriod (duration_since deadline now)) (\<lambda>remaining.
               and_then (ok_or InvalidRefreshPeriod (time_checked_add now_monotonic remaining)) (\<lambda>mt.
               Inr \<lparr>rt_state = state, rt_refresh = Some period, rt_deadline = Some deadline,
                    rt_deadline_monotonic = Some mt\<rparr>)))))"

section \<open>When to rotate\<close>

record rotation_schedule =
  rs_period :: duration
  rs_deadline :: system_time
  rs_deadline_monotonic :: instant
  rs_failure_count :: u32

definition schedule_new :: "duration \<Rightarrow> system_time \<Rightarrow> instant \<Rightarrow> rotation_schedule" where
  "schedule_new p d m =
     \<lparr>rs_period = p, rs_deadline = d, rs_deadline_monotonic = m, rs_failure_count = 0\<rparr>"

definition retry_delay :: "rotation_schedule \<Rightarrow> duration" where
  "retry_delay s =
     (let exponent = min (unat (saturating_dec (rs_failure_count s))) 31
      in min (saturating_mul ROTATION_RETRY_MIN (saturating_pow2 exponent)) ROTATION_RETRY_MAX)"

definition schedule_delay :: "rotation_schedule \<Rightarrow> system_time \<Rightarrow> instant \<Rightarrow> duration" where
  "schedule_delay s now now_monotonic =
     (if rs_failure_count s > 0 then retry_delay s
      else
        let wall_delay = (case duration_since (rs_deadline s) now of None \<Rightarrow> 0 | Some d \<Rightarrow> d);
            monotonic_delay = saturating_duration_since (rs_deadline_monotonic s) now_monotonic
        in min (min wall_delay monotonic_delay) ROTATION_CLOCK_CHECK_MAX)"

definition should_rotate :: "rotation_schedule \<Rightarrow> system_time \<Rightarrow> instant \<Rightarrow> bool" where
  "should_rotate s now now_monotonic \<longleftrightarrow>
     rs_failure_count s > 0 \<or> now \<ge> rs_deadline s \<or> now_monotonic \<ge> rs_deadline_monotonic s"

text \<open>\<^verbatim>\<open>reset\<close> returns whether the new deadlines are representable, and the schedule.\<close>

definition schedule_reset ::
  "rotation_schedule \<Rightarrow> system_time \<Rightarrow> instant \<Rightarrow> bool \<times> rotation_schedule" where
  "schedule_reset s now now_monotonic =
     (case time_checked_add now (rs_period s) of
        None \<Rightarrow> (False, s)
      | Some d \<Rightarrow> case time_checked_add now_monotonic (rs_period s) of
          None \<Rightarrow> (False, s)
        | Some m \<Rightarrow>
            (True, s\<lparr>rs_deadline := d, rs_deadline_monotonic := m, rs_failure_count := 0\<rparr>))"

definition record_failure :: "rotation_schedule \<Rightarrow> rotation_schedule" where
  "record_failure s = s\<lparr>rs_failure_count := saturating_inc (rs_failure_count s)\<rparr>"

section \<open>Properties\<close>

lemma resolve_after:
  "resolve_token_state (PolicyAfter p) saved fresh now mt = Inr r \<longleftrightarrow>
     0 < p
     \<and> rt_state r = (case saved of
          None \<Rightarrow> token_state_new fresh now
        | Some s \<Rightarrow> if ts_created_at s \<le> now \<and> now < ts_created_at s + int p then s
                    else token_state_new fresh now)
     \<and> rt_refresh r = Some p
     \<and> rt_deadline r = Some (ts_created_at (rt_state r) + int p)
     \<and> ts_created_at (rt_state r) + int p \<le> time_max
     \<and> rt_deadline_monotonic r = Some (mt + (ts_created_at (rt_state r) + int p - now))
     \<and> mt + (ts_created_at (rt_state r) + int p - now) \<le> time_max"
  by (cases r; cases saved)
    (auto simp: resolve_token_state_def Let_def and_then_Inr time_checked_add_Some
      duration_since_Some token_state_generate_def token_state_new_def)


lemma retry_delay_closed:
  "retry_delay s = min (2 ^ min (unat (rs_failure_count s) - 1) 31) 60 * 1000000000"
proof -
  define e where "e = min (unat (saturating_dec (rs_failure_count s))) 31"
  have e: "e = min (unat (rs_failure_count s) - 1) 31"
    by (auto simp: e_def saturating_dec_def unat_minus_one)
  have "(2::nat) ^ e \<le> 2 ^ 31" by (rule power_increasing) (simp_all add: e_def)
  then have "1000000000 * 2 ^ e \<le> duration_max"
    by (simp add: duration_max_def nanos_per_sec_def)
  moreover have "e < 32" by (simp add: e_def)
  then have "saturating_pow2 e = 2 ^ e" by (simp add: saturating_pow2_def)
  ultimately have "retry_delay s = min (1000000000 * 2 ^ e) 60000000000"
    by (simp add: retry_delay_def e_def [symmetric] saturating_mul_def rotation_consts)
  moreover have "min (1000000000 * n) 60000000000 = min n 60 * 1000000000" for n :: nat
    by (simp add: min_def)
  ultimately show ?thesis by (simp only: e)
qed

text \<open>
  C34. After \<open>k\<close> consecutive failures a rotation is retried in \<open>2 ^ (k - 1)\<close> seconds, at least one
  and at most 60; no other wait of the rotation task exceeds 60 seconds either, so that a change
  of the wall clock is noticed within a minute, and a wait of zero means that rotating is due.
\<close>

theorem rotation_delay_bounds:
  "retry_delay s = min (2 ^ min (unat (rs_failure_count s) - 1) 31) 60 * 1000000000
   \<and> from_secs 1 \<le> retry_delay s \<and> retry_delay s \<le> from_secs 60
   \<and> schedule_delay s now mt \<le> from_secs 60
   \<and> (schedule_delay s now mt = 0 \<longleftrightarrow> rs_failure_count s = 0 \<and> should_rotate s now mt)"
proof (intro conjI)
  note closed = retry_delay_closed [of s]
  show "retry_delay s = min (2 ^ min (unat (rs_failure_count s) - 1) 31) 60 * 1000000000" by (rule closed)
  have "1 \<le> min ((2::nat) ^ min (unat (rs_failure_count s) - 1) 31) 60" by simp
  with closed show one: "from_secs 1 \<le> retry_delay s" by (simp add: rotation_consts)
  from closed show sixty: "retry_delay s \<le> from_secs 60" by (simp add: rotation_consts)
  with sixty show "schedule_delay s now mt \<le> from_secs 60"
    by (simp add: schedule_delay_def rotation_consts Let_def)
  have zero: "\<not> 0 < rs_failure_count s \<longleftrightarrow> rs_failure_count s = 0" by (simp add: word_gt_0)
  from one zero show "schedule_delay s now mt = 0 \<longleftrightarrow> rs_failure_count s = 0 \<and> should_rotate s now mt"
    by (auto simp: schedule_delay_def should_rotate_def rotation_consts Let_def duration_since_def
        saturating_duration_since_def min_def split: if_splits)
qed

text \<open>
  A wait that is shorter than the minute between clock checks ends when rotating is due: if
  the wall clock and the monotonic clock both advance by it, \<open>should_rotate\<close> holds afterwards; and
  before that, while both deadlines are ahead, it does not.
\<close>

theorem rotation_waits_exactly:
  assumes "rs_failure_count s = 0" and "schedule_delay s now mt < from_secs 60"
  shows "should_rotate s (now + int (schedule_delay s now mt)) (mt + int (schedule_delay s now mt))
    \<and> (\<forall>d. d < schedule_delay s now mt \<longrightarrow> \<not> should_rotate s (now + int d) (mt + int d))"
  using assms
  by (auto simp: schedule_delay_def should_rotate_def rotation_consts Let_def duration_since_def
      saturating_duration_since_def min_def split: if_splits)

theorem rotation_waits_exactly_witness:
  "should_rotate (schedule_new (from_secs 10) 10000000000 10000000000) 10000000000 10000000000"
  using rotation_waits_exactly [of "schedule_new (from_secs 10) 10000000000 10000000000" 0 0]
  by (simp add: schedule_new_def schedule_delay_def Let_def duration_since_def
      saturating_duration_since_def rotation_consts)

end
