(* ===== verification/Lan.thy ===== *)
theory Lan
  imports Token_Policy Sculk_Utf8
begin

text \<open>
  \<^verbatim>\<open>core/src/minecraft\<close>: the legacy server probe, the LAN announcement with its text, the scanner
  and the broadcaster. Names are lists of Unicode scalar values, packets are bytes. Both
  background loops are functions of what their calls return: \<open>scan_loop\<close> of the list of its
  iterations, the broadcaster as a step function on its control state with a clock, whose log
  records when it sent and when it had last probed.
\<close>

definition LAN_INTERVAL :: duration where "LAN_INTERVAL = from_millis 1500"
definition PROBE_INTERVAL :: duration where "PROBE_INTERVAL = from_secs 5"
definition PROBE_TIMEOUT :: duration where "PROBE_TIMEOUT = from_secs 1"
definition SCAN_PACKET_SIZE_MAX :: nat where "SCAN_PACKET_SIZE_MAX = 8 * 1024"
definition MOTD_CHARS_MAX :: nat where "MOTD_CHARS_MAX = 64"
definition LAN_PORT :: u16 where "LAN_PORT = 4445"

definition localhost :: ip_addr where "localhost = V4 127 0 0 1"

definition LAN_DESTINATION :: socket_addr where
  "LAN_DESTINATION = \<lparr>sa_ip = localhost, sa_port = LAN_PORT\<rparr>"

section \<open>The probe\<close>

definition LEGACY_PING :: u8 where "LEGACY_PING = 0xFE"
definition LEGACY_RESPONSE :: u8 where "LEGACY_RESPONSE = 0xFF"

text \<open>What the socket calls of one probe return; \<open>pn_write\<close> is given the bytes written.\<close>

record probe_net =
  pn_connect :: "socket_addr \<Rightarrow> duration \<Rightarrow> io_error + unit"
  pn_timeouts :: "duration \<Rightarrow> io_error + unit"
  pn_write :: "bytes \<Rightarrow> io_error + unit"
  pn_read :: "io_error + u8"

definition lan_io_err :: "io_error_kind \<Rightarrow> string \<Rightarrow> io_error" where
  "lan_io_err k t = \<lparr>io_kind = k, io_text = t\<rparr>"

definition probe_server :: "probe_net \<Rightarrow> socket_addr \<Rightarrow> duration \<Rightarrow> io_error + unit" where
  "probe_server net addr timeout =
     and_then (pn_connect net addr timeout) (\<lambda>_.
     and_then (pn_timeouts net timeout) (\<lambda>_.
     and_then (pn_write net [LEGACY_PING]) (\<lambda>_.
     and_then (pn_read net) (\<lambda>response.
       if response \<noteq> LEGACY_RESPONSE then
         Inl (lan_io_err InvalidData ''unexpected Minecraft status response'')
       else Inr ()))))"

section \<open>Announcements\<close>

definition is_control :: "nat \<Rightarrow> bool" where
  "is_control c \<longleftrightarrow> c < 0x20 \<or> 0x7F \<le> c \<and> c \<le> 0x9F"

definition is_whitespace :: "nat \<Rightarrow> bool" where
  "is_whitespace c \<longleftrightarrow>
     9 \<le> c \<and> c \<le> 13 \<or> c = 0x20 \<or> c = 0x85 \<or> c = 0xA0 \<or> c = 0x1680 \<or> 0x2000 \<le> c \<and> c \<le> 0x200A
     \<or> c = 0x2028 \<or> c = 0x2029 \<or> c = 0x202F \<or> c = 0x205F \<or> c = 0x3000"

definition clean_char :: "nat \<Rightarrow> nat" where
  "clean_char c = (if c = 0x5B \<or> c = 0x5D then 0x20 else if is_control c then 0x20 else c)"

text \<open>\<^verbatim>\<open>split_whitespace\<close> and \<^verbatim>\<open>join(" ")\<close>; \<open>w\<close> is the word being read.\<close>

fun split_words :: "nat list \<Rightarrow> nat list \<Rightarrow> nat list list" where
  "split_words w [] = (if w = [] then [] else [w])"
| "split_words w (c # cs) =
     (if is_whitespace c then (if w = [] then split_words [] cs else w # split_words [] cs)
      else split_words (w @ [c]) cs)"

fun join_words :: "nat list list \<Rightarrow> nat list" where
  "join_words [] = []"
| "join_words [w] = w"
| "join_words (w # ws) = w @ [0x20] @ join_words ws"

definition scalars :: "string \<Rightarrow> nat list" where "scalars s = map of_char s"

definition MOTD_FALLBACK :: "nat list" where "MOTD_FALLBACK = scalars ''sculk''"

definition sanitize_name :: "nat list \<Rightarrow> nat list" where
  "sanitize_name name =
     (let cleaned = map clean_char (take MOTD_CHARS_MAX name);
          cleaned = join_words (split_words [] cleaned)
      in if cleaned = [] then MOTD_FALLBACK else cleaned)"

definition build_packet :: "nat list \<Rightarrow> u16 \<Rightarrow> bytes" where
  "build_packet name port =
     bytes_of_str ''[MOTD]'' @ utf8_encode (sanitize_name name) @ bytes_of_str ''[/MOTD][AD]''
     @ bytes_of_str (show_u16 port) @ bytes_of_str ''[/AD]''"

definition parse_lan_port :: "bytes \<Rightarrow> u16 option" where
  "parse_lan_port packet =
     (if \<not> utf8_valid packet then None
      else Option.bind (strip_prefix (bytes_of_str ''[MOTD]'') packet) (\<lambda>motd.
           Option.bind (find_sub (bytes_of_str ''[/MOTD]'') motd) (\<lambda>i.
           Option.bind (strip_prefix (bytes_of_str ''[AD]'') (drop (i + length ''[/MOTD]'') motd)) (\<lambda>advertisement.
           Option.bind (find_sub (bytes_of_str ''[/AD]'') advertisement) (\<lambda>port_end.
             parse_nonzero_u16 (str_of_bytes (take port_end advertisement)))))))"

section \<open>The scanner\<close>

datatype stop_signal = SigStop | SigDisconnected | SigNone

record scan_input =
  si_stop :: stop_signal
  si_recv :: "io_error + bytes"
  si_net :: probe_net

text \<open>
  One entry per iteration. The result is \<^verbatim>\<open>None\<close> while the loop is still running at the end of
  the list; the second part are the ports sent to the channel.
\<close>

fun scan_loop :: "duration \<Rightarrow> scan_input list \<Rightarrow> (io_error + unit) option \<times> u16 list" where
  "scan_loop probe_timeout [] = (None, [])"
| "scan_loop probe_timeout (i # is) =
     (if si_stop i \<noteq> SigNone then (Some (Inr ()), [])
      else case si_recv i of
        Inr datagram \<Rightarrow>
          (case parse_lan_port (take SCAN_PACKET_SIZE_MAX datagram) of
             None \<Rightarrow> scan_loop probe_timeout is
           | Some port \<Rightarrow>
               if \<not> is_ok (probe_server (si_net i) \<lparr>sa_ip = localhost, sa_port = port\<rparr> probe_timeout)
               then scan_loop probe_timeout is
               else (Some (Inr ()), [port]))
      | Inl e \<Rightarrow>
          if io_kind e = WouldBlock \<or> io_kind e = TimedOut then scan_loop probe_timeout is
          else (Some (Inl e), []))"

section \<open>The broadcaster\<close>

record probe_config =
  pc_addr :: socket_addr
  pc_interval :: duration
  pc_timeout :: duration

record broadcast_config =
  bc_interval :: duration
  bc_packet :: bytes
  bc_probe :: probe_config

definition lan_broadcast_config :: "nat list \<Rightarrow> u16 \<Rightarrow> broadcast_config" where
  "lan_broadcast_config name port =
     \<lparr>bc_interval = LAN_INTERVAL, bc_packet = build_packet name port,
      bc_probe = \<lparr>pc_addr = \<lparr>sa_ip = localhost, sa_port = port\<rparr>, pc_interval = PROBE_INTERVAL,
                  pc_timeout = PROBE_TIMEOUT\<rparr>\<rparr>"

datatype broadcast_pc =
    BcProbe
  | BcPause
  | BcLoop instant
  | BcWait instant duration
  | BcDone "io_error + unit"

text \<open>\<open>bs_log\<close>: when a datagram was sent, and when the probe before it had answered.\<close>

record broadcast_state =
  bs_pc :: broadcast_pc
  bs_clock :: instant
  bs_log :: "(instant \<times> instant) list"

text \<open>
  What one step meets: how long it takes beyond the timeout it waits for, what the probe, the
  channel (\<open>SigNone\<close> is the timeout) and \<^verbatim>\<open>send_to\<close> return.
\<close>

record broadcast_input =
  bi_elapsed :: nat
  bi_net :: probe_net
  bi_signal :: stop_signal
  bi_send :: "io_error + nat"

definition send_packet :: "broadcast_config \<Rightarrow> broadcast_input \<Rightarrow> io_error + unit" where
  "send_packet cfg i =
     and_then (bi_send i) (\<lambda>size.
       if size \<noteq> length (bc_packet cfg) then
         Inl (lan_io_err WriteZero ''incomplete LAN broadcast datagram'')
       else Inr ())"

text \<open>Sending at time \<open>now\<close> on the strength of the probe whose validity ends at \<open>deadline\<close>.\<close>

definition broadcast_send ::
  "broadcast_config \<Rightarrow> broadcast_input \<Rightarrow> instant \<Rightarrow> instant \<Rightarrow> broadcast_state \<Rightarrow> broadcast_state" where
  "broadcast_send cfg i now deadline s =
     (case send_packet cfg i of
        Inl e \<Rightarrow> s\<lparr>bs_pc := BcDone (Inl e), bs_clock := now\<rparr>
      | Inr _ \<Rightarrow>
          s\<lparr>bs_pc := BcLoop deadline, bs_clock := now,
            bs_log := bs_log s @ [(now, deadline - int (pc_interval (bc_probe cfg)))]\<rparr>)"

definition broadcast_step :: "broadcast_config \<Rightarrow> broadcast_state \<Rightarrow> broadcast_input \<Rightarrow> broadcast_state" where
  "broadcast_step cfg s i =
     (case bs_pc s of
        BcProbe \<Rightarrow>
          let now = bs_clock s + int (bi_elapsed i)
          in if \<not> is_ok (probe_server (bi_net i) (pc_addr (bc_probe cfg)) (pc_timeout (bc_probe cfg)))
             then s\<lparr>bs_pc := BcPause, bs_clock := now\<rparr>
             else broadcast_send cfg i now (now + int (pc_interval (bc_probe cfg))) s
      | BcPause \<Rightarrow>
          if bi_signal i \<noteq> SigNone then s\<lparr>bs_pc := BcDone (Inr ())\<rparr>
          else s\<lparr>bs_pc := BcProbe,
                 bs_clock := bs_clock s + int (pc_interval (bc_probe cfg)) + int (bi_elapsed i)\<rparr>
      | BcLoop deadline \<Rightarrow>
          let now = bs_clock s + int (bi_elapsed i);
              remaining = saturating_duration_since deadline now
          in if remaining = 0 then s\<lparr>bs_pc := BcProbe, bs_clock := now\<rparr>
             else s\<lparr>bs_pc := BcWait deadline (min (bc_interval cfg) remaining), bs_clock := now\<rparr>
      | BcWait deadline wait \<Rightarrow>
          if bi_signal i \<noteq> SigNone then s\<lparr>bs_pc := BcDone (Inr ())\<rparr>
          else
            let now = bs_clock s + int wait + int (bi_elapsed i)
            in if now \<ge> deadline then s\<lparr>bs_pc := BcProbe, bs_clock := now\<rparr>
               else broadcast_send cfg i now deadline s
      | BcDone r \<Rightarrow> s)"

section \<open>Stopping a background thread\<close>

text \<open>
  \<^verbatim>\<open>LanScanner\<close> and \<^verbatim>\<open>LanBroadcaster\<close>: a stop sender and a join handle, both taken by the first
  \<^verbatim>\<open>stop\<close>. \<open>joined\<close> is what \<^verbatim>\<open>join\<close> returns, \<^verbatim>\<open>None\<close> for a panic.
\<close>

record lan_handle =
  lh_stop_tx :: bool
  lh_thread :: bool

definition lan_stop ::
  "string \<Rightarrow> (io_error + unit) option \<Rightarrow> lan_handle \<Rightarrow> (io_error + unit) \<times> bool \<times> lan_handle" where
  "lan_stop what joined h =
     (let stop_sent = lh_stop_tx h; h' = h\<lparr>lh_stop_tx := False\<rparr>
      in if \<not> lh_thread h' then (Inr (), stop_sent, h')
         else (case joined of
                 None \<Rightarrow> Inl (lan_io_err OtherKind (what @ '' thread panicked''))
               | Some r \<Rightarrow> r, stop_sent, h'\<lparr>lh_thread := False\<rparr>))"

definition lan_is_finished :: "bool \<Rightarrow> lan_handle \<Rightarrow> bool" where
  "lan_is_finished thread_ended h \<longleftrightarrow> \<not> lh_thread h \<or> thread_ended"

section \<open>Facts about names\<close>

lemma split_words_words:
  assumes "\<forall>c\<in>set w. \<not> is_whitespace c"
  shows "x \<in> set (split_words w cs) \<Longrightarrow>
    x \<noteq> [] \<and> (\<forall>c\<in>set x. \<not> is_whitespace c) \<and> set x \<subseteq> set w \<union> set cs"
  using assms by (induction w cs rule: split_words.induct) (fastforce split: if_splits)+

lemma split_words_nonempty: "w \<noteq> [] \<Longrightarrow> split_words w cs \<noteq> []"
  by (induction w cs rule: split_words.induct) auto

lemma join_words_Cons: "join_words (w # ws) = w @ (if ws = [] then [] else 0x20 # join_words ws)"
  by (cases ws) simp_all

lemma length_join_split: "length (join_words (split_words w cs)) \<le> length w + length cs"
  by (induction w cs rule: split_words.induct) (auto simp: join_words_Cons)

lemma set_join_words: "set (join_words ws) \<subseteq> insert 0x20 (\<Union>w\<in>set ws. set w)"
  by (induction ws) (auto simp: join_words_Cons split: if_splits)

lemma split_words_prefix:
  "\<forall>c\<in>set v. \<not> is_whitespace c \<Longrightarrow> split_words w (v @ cs) = split_words (w @ v) cs"
  by (induction v arbitrary: w) auto

lemma split_join_words:
  assumes "\<forall>w\<in>set ws. w \<noteq> [] \<and> (\<forall>c\<in>set w. \<not> is_whitespace c)"
  shows "split_words [] (join_words ws) = ws"
  using assms
proof (induction ws)
  case (Cons w ws)
  then have w: "w \<noteq> []" "\<forall>c\<in>set w. \<not> is_whitespace c" and IH: "split_words [] (join_words ws) = ws" by auto
  have sp: "is_whitespace 0x20" by (simp add: is_whitespace_def)
  from w IH sp split_words_prefix [OF w(2), of "[]" "[]"]
    split_words_prefix [OF w(2), of "[]" "0x20 # join_words ws"]
  show ?case by (auto simp: join_words_Cons)
qed simp

definition name_char :: "nat \<Rightarrow> bool" where
  "name_char c \<longleftrightarrow> c \<noteq> 0x5B \<and> c \<noteq> 0x5D \<and> \<not> is_control c"

lemma clean_char_name: "name_char (clean_char c)"
  by (simp add: clean_char_def name_char_def is_control_def)

lemma clean_char_id: "name_char c \<Longrightarrow> clean_char c = c"
  by (simp add: clean_char_def name_char_def)

lemma clean_char_scalar: "is_scalar c \<Longrightarrow> is_scalar (clean_char c)"
  by (simp add: clean_char_def is_scalar_def)

definition cleaned_name :: "nat list \<Rightarrow> nat list" where
  "cleaned_name name = join_words (split_words [] (map clean_char (take MOTD_CHARS_MAX name)))"

lemma sanitize_name_eq: "sanitize_name name = (if cleaned_name name = [] then MOTD_FALLBACK else cleaned_name name)"
  by (simp add: sanitize_name_def cleaned_name_def)

lemma cleaned_set: "set (cleaned_name name) \<subseteq> insert 0x20 (clean_char ` set (take 64 name))"
proof -
  let ?cs = "map clean_char (take MOTD_CHARS_MAX name)"
  have "(\<Union>w\<in>set (split_words [] ?cs). set w) \<subseteq> set ?cs"
    using split_words_words [of "[]" _ ?cs] by fastforce
  with set_join_words [of "split_words [] ?cs"] show ?thesis
    by (auto simp: cleaned_name_def MOTD_CHARS_MAX_def)
qed

lemma fallback_value: "MOTD_FALLBACK = [115, 99, 117, 108, 107]"
  by (simp add: MOTD_FALLBACK_def scalars_def)

lemma fallback_sanitized: "sanitize_name MOTD_FALLBACK = MOTD_FALLBACK"
  unfolding fallback_value
  by (simp add: sanitize_name_def MOTD_CHARS_MAX_def clean_char_def is_control_def is_whitespace_def)

lemma sanitize_chars:
  assumes "c \<in> set (sanitize_name name)"
  shows "name_char c" "list_all is_scalar name \<Longrightarrow> is_scalar c"
proof -
  have sp: "name_char 0x20" "is_scalar 0x20" by (simp_all add: name_char_def is_control_def is_scalar_def)
  have fb: "c \<in> set MOTD_FALLBACK \<Longrightarrow> name_char c \<and> is_scalar c"
    by (auto simp: fallback_value name_char_def is_control_def is_scalar_def)
  have cl: "c \<in> set MOTD_FALLBACK \<or> c = 0x20 \<or> (\<exists>d\<in>set (take 64 name). c = clean_char d)"
    using assms cleaned_set [of name] by (auto simp: sanitize_name_eq split: if_splits)
  from cl sp fb clean_char_name show "name_char c" by auto
  show "is_scalar c" if "list_all is_scalar name"
    using cl sp fb that by (auto simp: list_all_iff intro!: clean_char_scalar dest: in_set_takeD)
qed

lemma sanitize_length: "1 \<le> length (sanitize_name name) \<and> length (sanitize_name name) \<le> 64"
proof -
  have "length (cleaned_name name) \<le> 64"
    using length_join_split [of "[]" "map clean_char (take MOTD_CHARS_MAX name)"]
    by (simp add: cleaned_name_def MOTD_CHARS_MAX_def)
  then show ?thesis by (auto simp: sanitize_name_eq fallback_value Suc_le_eq)
qed

lemma sanitize_idem: "sanitize_name (sanitize_name name) = sanitize_name name"
proof (cases "cleaned_name name = []")
  case True
  then show ?thesis by (simp add: sanitize_name_eq [of name] fallback_sanitized)
next
  case False
  define ws where "ws = split_words [] (map clean_char (take MOTD_CHARS_MAX name))"
  have n: "sanitize_name name = join_words ws" using False by (simp add: sanitize_name_eq cleaned_name_def ws_def)
  have "map clean_char (take MOTD_CHARS_MAX (join_words ws)) = join_words ws"
    using sanitize_length [of name] sanitize_chars(1) [of _ name]
    by (simp add: n MOTD_CHARS_MAX_def clean_char_id map_idI)
  moreover have "split_words [] (join_words ws) = ws"
    by (rule split_join_words) (use split_words_words [of "[]"] in \<open>auto simp: ws_def\<close>)
  ultimately have "cleaned_name (join_words ws) = join_words ws" by (simp add: cleaned_name_def)
  with n False show ?thesis by (auto simp: sanitize_name_eq [of "join_words ws"] sanitize_name_eq [of name])
qed

text \<open>
  A sanitized name has between 1 and 64 characters, holds neither a bracket nor a control
  character, so that it cannot open or close a tag of the announcement, and sanitizing it again
  changes nothing.
\<close>

theorem sanitized_name_is_safe:
  "1 \<le> length (sanitize_name name) \<and> length (sanitize_name name) \<le> MOTD_CHARS_MAX
   \<and> set (sanitize_name name) \<inter> ({0x5B, 0x5D} \<union> {c. is_control c}) = {}
   \<and> sanitize_name (sanitize_name name) = sanitize_name name"
  using sanitize_length [of name] sanitize_chars(1) [of _ name] sanitize_idem [of name]
  by (auto simp: MOTD_CHARS_MAX_def name_char_def)

section \<open>Facts about packets\<close>

lemma encode_char_length: "length (encode_char c) \<le> 4"
  by (simp add: encode_char_def)

lemma utf8_encode_length: "length (utf8_encode cs) \<le> 4 * length cs"
proof (induction cs)
  case (Cons c cs)
  with encode_char_length [of c] show ?case by simp
qed simp

lemma bytes_of_str_append: "bytes_of_str (a @ b) = bytes_of_str a @ bytes_of_str b"
  by (simp add: bytes_of_str_def)

lemma ascii_str: "\<forall>c\<in>set s. (of_char c :: nat) < 128 \<Longrightarrow> \<forall>b\<in>set (bytes_of_str s). b \<le> 0x7F"
  by (auto simp: bytes_of_str_def word_le_nat_alt less_Suc_eq_le [of _ 127, simplified])

lemma show_u16_bytes:
  shows "\<forall>c\<in>set (show_u16 p). (of_char c :: nat) < 128"
    and "0x5B \<notin> set (bytes_of_str (show_u16 p))"
proof -
  have d: "c \<in> set (show_u16 p) \<Longrightarrow> (of_char c :: nat) \<le> 57" for c
    using show_nat_digits by (simp add: show_u16_def)
  then show "\<forall>c\<in>set (show_u16 p). (of_char c :: nat) < 128" by fastforce
  show "0x5B \<notin> set (bytes_of_str (show_u16 p))"
  proof
    assume "0x5B \<in> set (bytes_of_str (show_u16 p))"
    then obtain c where c: "c \<in> set (show_u16 p)" "(0x5B :: u8) = of_nat (of_char c)"
      by (auto simp: bytes_of_str_def)
    from c(2) have "unat (0x5B :: u8) = (of_char c :: nat)" by (metis unat_of_char)
    with d [OF c(1)] show False by simp
  qed
qed

lemma show_u16_length: "length (show_u16 p) \<le> 5"
proof -
  have "show_nat n \<noteq> [] \<and> (n < 10 ^ k \<longrightarrow> length (show_nat n) \<le> k)" if "0 < k" for n k :: nat
    using that
  proof (induction k arbitrary: n)
    case (Suc k)
    show ?case
    proof (cases "n < 10")
      case True
      then show ?thesis by (simp add: show_nat.simps [of n])
    next
      case False
      have "length (show_nat (n div 10)) \<le> k" if "n < 10 ^ Suc k"
        using Suc.IH [of "n div 10"] that False by (cases k) (auto simp: div_less_iff_less_mult)
      with False show ?thesis by (simp add: show_nat.simps [of n])
    qed
  qed simp
  from this [of 5 "unat p"] unat_le_max [of p] show ?thesis by (simp add: show_u16_def)
qed

lemma packet_parses:
  assumes "list_all is_scalar name" and "port \<noteq> 0"
  shows "parse_lan_port (build_packet name port) = Some port
    \<and> utf8_valid (build_packet name port)
    \<and> length (build_packet name port) \<le> 283 \<and> length (build_packet name port) \<le> SCAN_PACKET_SIZE_MAX"
proof -
  define n where "n = utf8_encode (sanitize_name name)"
  define d where "d = bytes_of_str (show_u16 port)"
  define a where "a = bytes_of_str ''[MOTD]''"
  define b where "b = bytes_of_str ''[/MOTD]''"
  define e where "e = bytes_of_str ''[AD]''"
  define f where "f = bytes_of_str ''[/AD]''"
  have pk: "build_packet name port = a @ n @ b @ e @ d @ f"
    unfolding build_packet_def n_def d_def a_def b_def e_def f_def by (simp add: bytes_of_str_def)
  have sc: "list_all is_scalar (sanitize_name name)"
    using sanitize_chars(2) assms(1) by (auto simp: list_all_iff)
  have nb: "0x5B \<notin> set n" "0x5B \<notin> set d"
    using ascii_notin_encode [OF sc, of "0x5B"] sanitize_chars(1) [of "0x5B" name] show_u16_bytes(2)
    by (auto simp: n_def d_def name_char_def)
  have hd: "b \<noteq> []" "hd b = 0x5B" "f \<noteq> []" "hd f = 0x5B" by (simp_all add: b_def f_def bytes_of_str_def)
  have "utf8_valid (a @ n @ (b @ e @ d @ f))"
  proof -
    have "\<forall>x\<in>set a. x \<le> 0x7F" "\<forall>x\<in>set (b @ e @ d @ f). x \<le> 0x7F"
      using ascii_str [of "show_u16 port"] show_u16_bytes(1) [of port] unfolding d_def [symmetric]
      by (auto simp: a_def b_def e_def f_def bytes_of_str_def)
    moreover have "utf8_valid (n @ (b @ e @ d @ f)) = utf8_valid (b @ e @ d @ f)"
      unfolding n_def by (rule utf8_valid_encode_append [OF sc])
    ultimately show ?thesis
      using utf8_valid_ascii_append [of a] utf8_valid_ascii_append [of "b @ e @ d @ f" "[]"] by simp
  qed
  moreover have "find_sub b (n @ b @ e @ d @ f) = Some (length n)"
    by (rule find_sub_append) (use hd nb in simp_all)
  moreover have "find_sub f (d @ f) = Some (length d)"
    using find_sub_append [of f d "[]"] hd nb by simp
  moreover have "drop 7 b = []" "length b = 7" by (simp_all add: b_def)
  moreover have "parse_nonzero_u16 (str_of_bytes d) = Some port"
    using parse_nonzero_show [OF assms(2)] by (simp add: d_def)
  ultimately have "parse_lan_port (build_packet name port) = Some port" "utf8_valid (build_packet name port)"
    by (simp_all add: parse_lan_port_def pk a_def [symmetric] b_def [symmetric] e_def [symmetric] f_def [symmetric])
  moreover have "length n \<le> 4 * 64"
    using utf8_encode_length [of "sanitize_name name"] sanitize_length [of name] by (simp add: n_def)
  ultimately show ?thesis
    using show_u16_length [of port]
    by (simp add: pk a_def b_def e_def f_def d_def SCAN_PACKET_SIZE_MAX_def)
qed

text \<open>
  C39. An announcement for any name is read back as its own port: no name, however it is spelled,
  makes the packet announce another port, and the packet is UTF-8 and far smaller than the
  scanner's buffer.
\<close>

theorem announcement_roundtrip:
  assumes "list_all is_scalar name" and "port \<noteq> 0"
  shows "parse_lan_port (build_packet name port) = Some port
    \<and> utf8_valid (build_packet name port)
    \<and> length (build_packet name port) \<le> 283 \<and> length (build_packet name port) \<le> SCAN_PACKET_SIZE_MAX"
  using assms by (rule packet_parses)

section \<open>Facts about the loops\<close>

text \<open>The port an iteration finds: announced by its datagram, and answering the probe.\<close>

definition scan_hit :: "duration \<Rightarrow> scan_input \<Rightarrow> u16 \<Rightarrow> bool" where
  "scan_hit t i p \<longleftrightarrow>
     (\<exists>d. si_recv i = Inr d \<and> parse_lan_port (take SCAN_PACKET_SIZE_MAX d) = Some p
        \<and> probe_server (si_net i) \<lparr>sa_ip = localhost, sa_port = p\<rparr> t = Inr ())"

definition scan_fails :: "scan_input \<Rightarrow> io_error \<Rightarrow> bool" where
  "scan_fails i e \<longleftrightarrow> si_recv i = Inl e \<and> io_kind e \<noteq> WouldBlock \<and> io_kind e \<noteq> TimedOut"

text \<open>An iteration after which the loop goes on.\<close>

definition scan_goes_on :: "duration \<Rightarrow> scan_input \<Rightarrow> bool" where
  "scan_goes_on t i \<longleftrightarrow> si_stop i = SigNone \<and> (\<nexists>p. scan_hit t i p) \<and> (\<nexists>e. scan_fails i e)"

lemma is_ok_unit: "is_ok r \<longleftrightarrow> r = Inr ()"
  by (cases r) auto

lemma scan_loop_goes_on: "scan_goes_on t i \<Longrightarrow> scan_loop t (i # is) = scan_loop t is"
  by (auto simp: scan_goes_on_def scan_hit_def scan_fails_def is_ok_unit split: sum.splits option.splits)

lemma scan_loop_ends:
  assumes "\<not> scan_goes_on t i"
  shows "scan_loop t (i # is) =
    (if si_stop i \<noteq> SigNone then (Some (Inr ()), [])
     else case si_recv i of
       Inl e \<Rightarrow> (Some (Inl e), [])
     | Inr d \<Rightarrow> (Some (Inr ()), [the (parse_lan_port (take SCAN_PACKET_SIZE_MAX d))]))"
  using assms
  by (auto simp: scan_goes_on_def scan_hit_def scan_fails_def is_ok_unit split: sum.splits option.splits)

text \<open>
  The scanner reports at most one port, and only a non-zero one that a received announcement
  named and that answered the Minecraft probe on the loopback address; it reports the first such
  one unless it was stopped or the socket failed before; and it never ends otherwise: datagrams
  of any other kind, ports that do not answer and receive timeouts are skipped.
\<close>

theorem scanner_reports_probed_port:
  "scan_loop t is =
     (case dropWhile (scan_goes_on t) is of
        [] \<Rightarrow> (None, [])
      | i # _ \<Rightarrow>
          if si_stop i \<noteq> SigNone then (Some (Inr ()), [])
          else case si_recv i of Inl e \<Rightarrow> (Some (Inl e), []) | Inr d \<Rightarrow>
            (Some (Inr ()), [the (parse_lan_port (take SCAN_PACKET_SIZE_MAX d))]))
   \<and> (\<forall>p\<in>set (snd (scan_loop t is)). p \<noteq> 0 \<and> (\<exists>i\<in>set is. si_stop i = SigNone \<and> scan_hit t i p))"
proof (intro conjI)
  show "scan_loop t is =
     (case dropWhile (scan_goes_on t) is of
        [] \<Rightarrow> (None, [])
      | i # _ \<Rightarrow>
          if si_stop i \<noteq> SigNone then (Some (Inr ()), [])
          else case si_recv i of Inl e \<Rightarrow> (Some (Inl e), []) | Inr d \<Rightarrow>
            (Some (Inr ()), [the (parse_lan_port (take SCAN_PACKET_SIZE_MAX d))]))"
  proof (induction "is")
    case (Cons i "is")
    show ?case
    proof (cases "scan_goes_on t i")
      case True
      then have "dropWhile (scan_goes_on t) (i # is) = dropWhile (scan_goes_on t) is" by simp
      with Cons scan_loop_goes_on [OF True] show ?thesis by (simp only:)
    next
      case False
      then have "dropWhile (scan_goes_on t) (i # is) = i # is" by simp
      with scan_loop_ends [OF False] show ?thesis by (simp only: list.case)
    qed
  qed simp
  have hit: "parse_lan_port d \<noteq> Some 0" for d
    by (auto simp: parse_lan_port_def bind_eq_Some_conv dest: parse_nonzero_u16_pos split: if_splits)
  show "\<forall>p\<in>set (snd (scan_loop t is)). p \<noteq> 0 \<and> (\<exists>i\<in>set is. si_stop i = SigNone \<and> scan_hit t i p)"
  proof (induction "is")
    case (Cons i "is")
    show ?case
    proof (cases "scan_goes_on t i")
      case True
      show ?thesis unfolding scan_loop_goes_on [OF True] using Cons by auto
    next
      case False
      then show ?thesis unfolding scan_loop_ends [OF False] using hit
        by (auto simp: scan_goes_on_def scan_fails_def scan_hit_def split: sum.splits if_splits)
    qed
  qed simp
qed

text \<open>What the broadcaster keeps: every datagram was sent while the last good probe was valid.\<close>

definition broadcast_inv :: "broadcast_config \<Rightarrow> broadcast_state \<Rightarrow> bool" where
  "broadcast_inv cfg s \<longleftrightarrow>
     (\<forall>(sent, probed)\<in>set (bs_log s).
        probed \<le> sent \<and> sent < probed + int (pc_interval (bc_probe cfg)) \<and> sent \<le> bs_clock s)
     \<and> (\<forall>deadline. (bs_pc s = BcLoop deadline \<or> (\<exists>w. bs_pc s = BcWait deadline w)) \<longrightarrow>
          deadline - int (pc_interval (bc_probe cfg)) \<le> bs_clock s)"

definition broadcast_start :: "instant \<Rightarrow> broadcast_state \<Rightarrow> bool" where
  "broadcast_start t s \<longleftrightarrow> bs_pc s = BcProbe \<and> bs_clock s = t \<and> bs_log s = []"

lemma broadcast_send_inv:
  assumes "broadcast_inv cfg s" "deadline - int (pc_interval (bc_probe cfg)) \<le> now" "now < deadline"
    "bs_clock s \<le> now"
  shows "broadcast_inv cfg (broadcast_send cfg i now deadline s)"
  using assms by (auto simp: broadcast_send_def broadcast_inv_def split: sum.splits)

lemma broadcast_step_inv:
  assumes "0 < pc_interval (bc_probe cfg)" and inv: "broadcast_inv cfg s"
  shows "broadcast_inv cfg (broadcast_step cfg s i)"
proof (cases "bs_pc s")
  case BcProbe
  have "broadcast_inv cfg (broadcast_send cfg i (bs_clock s + int (bi_elapsed i))
      (bs_clock s + int (bi_elapsed i) + int (pc_interval (bc_probe cfg))) s)"
    by (rule broadcast_send_inv [OF inv]) (use assms(1) in auto)
  with BcProbe inv show ?thesis
    by (auto simp: broadcast_step_def Let_def broadcast_inv_def)
next
  case (BcWait deadline w)
  have "broadcast_inv cfg (broadcast_send cfg i (bs_clock s + int w + int (bi_elapsed i)) deadline s)"
    if "bs_clock s + int w + int (bi_elapsed i) < deadline"
    by (rule broadcast_send_inv [OF inv]) (use that inv BcWait in \<open>auto simp: broadcast_inv_def\<close>)
  with BcWait inv show ?thesis
    by (auto simp: broadcast_step_def Let_def broadcast_inv_def)
qed (use inv in \<open>auto simp: broadcast_step_def Let_def broadcast_inv_def\<close>)

interpretation lan_broadcast:
  invariant_system "broadcast_start t" "broadcast_step (lan_broadcast_config name port)"
    "broadcast_inv (lan_broadcast_config name port)" for t name port
proof unfold_locales
  show "broadcast_start t s \<Longrightarrow> broadcast_inv (lan_broadcast_config name port) s" for s
    by (auto simp: broadcast_start_def broadcast_inv_def)
  show "broadcast_inv (lan_broadcast_config name port) s \<Longrightarrow>
      broadcast_inv (lan_broadcast_config name port) (broadcast_step (lan_broadcast_config name port) s i)" for s i
    by (rule broadcast_step_inv) (simp_all add: lan_broadcast_config_def PROBE_INTERVAL_def from_secs_def nanos_per_sec_def)
qed


section \<open>Concrete runs\<close>

lemma scalars_scalar: "list_all is_scalar (scalars s)"
proof -
  have "(of_char c :: nat) < 0xD800" for c using of_char_less_256 [of c] by linarith
  then show ?thesis by (simp add: scalars_def list_all_iff is_scalar_def)
qed

definition answering_net :: probe_net where
  "answering_net = \<lparr>pn_connect = (\<lambda>_ _. Inr ()), pn_timeouts = (\<lambda>_. Inr ()), pn_write = (\<lambda>_. Inr ()),
     pn_read = Inr 0xFF\<rparr>"

definition probe_input :: broadcast_input where
  "probe_input = \<lparr>bi_elapsed = 7, bi_net = answering_net, bi_signal = SigNone,
     bi_send = Inr (length (build_packet [65] 25565))\<rparr>"

definition broadcast_run :: broadcast_state where
  "broadcast_run = run_steps (broadcast_step (lan_broadcast_config [65] 25565))
     \<lparr>bs_pc = BcProbe, bs_clock = 100, bs_log = []\<rparr> [probe_input]"

lemma broadcast_run_log: "(107, 107) \<in> set (bs_log broadcast_run)"
  by (simp add: broadcast_run_def broadcast_step_def Let_def probe_input_def answering_net_def probe_server_def
      LEGACY_RESPONSE_def broadcast_send_def send_packet_def lan_broadcast_config_def)


theorem announcement_roundtrip_witness:
  "parse_lan_port (build_packet (scalars ''[/MOTD][AD]1[/AD]'') 25565) = Some 25565"
proof -
  have "list_all is_scalar (scalars ''[/MOTD][AD]1[/AD]'')" by (rule scalars_scalar)
  with announcement_roundtrip [of "scalars ''[/MOTD][AD]1[/AD]''" 25565] show ?thesis by simp
qed

theorem scanner_reports_probed_port_witness:
  "scan_loop 0 [\<lparr>si_stop = SigNone, si_recv = Inr (build_packet [65] 25565), si_net = answering_net\<rparr>]
     = (Some (Inr ()), [25565])"
proof -
  have p: "parse_lan_port (take SCAN_PACKET_SIZE_MAX (build_packet [65] 25565)) = Some 25565"
    using packet_parses [of "[65]" 25565] by (simp add: is_scalar_def)
  have "\<not> scan_goes_on 0 \<lparr>si_stop = SigNone, si_recv = Inr (build_packet [65] 25565), si_net = answering_net\<rparr>"
    using p by (auto simp: scan_goes_on_def scan_hit_def answering_net_def probe_server_def LEGACY_RESPONSE_def)
  with p scanner_reports_probed_port [of 0 "[\<lparr>si_stop = SigNone, si_recv = Inr (build_packet [65] 25565), si_net = answering_net\<rparr>]"]
  show ?thesis by simp
qed

end
