(* ===== verification/Lan_Threads.thy ===== *)
theory Lan_Threads
  imports Lan
begin

text \<open>
  The background threads of \<^verbatim>\<open>core/src/minecraft/lan.rs\<close> and their owners: \<^verbatim>\<open>LanScanner\<close> and
  \<^verbatim>\<open>LanBroadcaster\<close> hold the sender of a stop channel and a join handle, and the thread polls the
  channel as its loop does. The owner's calls and the iterations of the thread interleave; what
  \<open>stop\<close> promises, that the thread ends and \<open>join\<close> returns, is proved once for any thread that
  polls its channel often enough (\<open>stoppable_thread\<close>).
\<close>

section \<open>The stop channel\<close>

text \<open>\<^verbatim>\<open>mpsc::channel::<()>\<close>: the messages under way, and whether the sender still exists.\<close>

record stop_channel =
  sc_queued :: nat
  sc_sender :: bool

definition stop_channel_new :: stop_channel where
  "stop_channel_new = \<lparr>sc_queued = 0, sc_sender = True\<rparr>"

text \<open>\<^verbatim>\<open>try_recv\<close>, and \<^verbatim>\<open>recv_timeout\<close> when its timeout is the other possibility.\<close>

definition stop_poll :: "stop_channel \<Rightarrow> stop_signal \<times> stop_channel" where
  "stop_poll ch =
     (if 0 < sc_queued ch then (SigStop, ch\<lparr>sc_queued := sc_queued ch - 1\<rparr>)
      else if \<not> sc_sender ch then (SigDisconnected, ch)
      else (SigNone, ch))"

text \<open>\<^verbatim>\<open>stop_tx.take()\<close>, \<^verbatim>\<open>send\<close> and the drop of the sender at the end of the \<^verbatim>\<open>if let\<close>.\<close>

definition send_stop :: "stop_channel \<Rightarrow> stop_channel" where
  "send_stop ch = (if sc_sender ch then \<lparr>sc_queued = Suc (sc_queued ch), sc_sender = False\<rparr> else ch)"

definition stop_sticky :: "stop_channel \<Rightarrow> bool" where
  "stop_sticky ch \<longleftrightarrow> \<not> sc_sender ch"

lemma stop_poll_sticky:
  "stop_sticky ch \<Longrightarrow> fst (stop_poll ch) \<noteq> SigNone \<and> stop_sticky (snd (stop_poll ch))"
  by (simp add: stop_sticky_def stop_poll_def)

lemma send_stop_sticky [simp]: "stop_sticky (send_stop ch)"
  by (simp add: stop_sticky_def send_stop_def)

section \<open>A thread that can be stopped\<close>

text \<open>One move over the channel: the signal is consumed only by a move that polls.\<close>

definition thread_move ::
  "('s \<Rightarrow> stop_signal \<Rightarrow> 'i \<Rightarrow> 's) \<Rightarrow> ('s \<Rightarrow> bool) \<Rightarrow> ('s \<Rightarrow> (io_error + unit) option)
     \<Rightarrow> 's \<times> stop_channel \<Rightarrow> 'i \<Rightarrow> 's \<times> stop_channel" where
  "thread_move work polls result t i =
     (case t of (s, ch) \<Rightarrow>
        if result s \<noteq> None then t
        else if polls s then (work s (fst (stop_poll ch)) i, snd (stop_poll ch))
        else (work s SigNone i, ch))"

text \<open>
  \<open>work\<close> is one move of the thread given what a poll of the channel returns, if the move polls;
  \<open>result\<close> is what it has returned, and \<open>budget\<close> how many moves it makes at
  most before the next poll, as long as its calls are \<open>prompt\<close>.
\<close>

locale stoppable_thread =
  fixes work :: "'s \<Rightarrow> stop_signal \<Rightarrow> 'i \<Rightarrow> 's"
    and polls :: "'s \<Rightarrow> bool"
    and result :: "'s \<Rightarrow> (io_error + unit) option"
    and budget :: "'s \<Rightarrow> nat"
    and prompt :: "'i \<Rightarrow> bool"
  assumes ended: "result s \<noteq> None \<Longrightarrow> work s sig i = s"
    and obeys: "result s = None \<Longrightarrow> polls s \<Longrightarrow> sig \<noteq> SigNone \<Longrightarrow> result (work s sig i) = Some (Inr ())"
    and moves_on: "result s = None \<Longrightarrow> \<not> polls s \<Longrightarrow> prompt i \<Longrightarrow>
        result (work s sig i) = None \<and> budget (work s sig i) < budget s \<or> (\<exists>e. result (work s sig i) = Some (Inl e))"
begin

lemma ended_stays: "result s \<noteq> None \<Longrightarrow> run_steps (thread_move work polls result) (s, ch) is = (s, ch)"
  by (induction "is") (simp_all add: thread_move_def)

lemma stopped_move:
  assumes "stop_sticky ch" "result s = None" "prompt i"
  obtains s' ch' where "thread_move work polls result (s, ch) i = (s', ch')" "stop_sticky ch'"
    "result s' = None \<and> budget s' < budget s \<or> result s' = Some (Inr ()) \<or> (\<exists>e. result s' = Some (Inl e))"
proof (cases "polls s")
  case True
  then have "thread_move work polls result (s, ch) i = (work s (fst (stop_poll ch)) i, snd (stop_poll ch))"
    using assms(2) by (simp add: thread_move_def)
  with that obeys [OF assms(2) True] stop_poll_sticky [OF assms(1)] show thesis by blast
next
  case False
  then have "thread_move work polls result (s, ch) i = (work s SigNone i, ch)" using assms(2) by (simp add: thread_move_def)
  with that moves_on [OF assms(2) False assms(3)] assms(1) show thesis by blast
qed

text \<open>After a stop the thread ends within its budget, whatever its calls return.\<close>

lemma stops_within_budget:
  assumes "stop_sticky ch" "budget s < length is" "\<forall>i \<in> set is. prompt i"
  shows "result (fst (run_steps (thread_move work polls result) (s, ch) is)) \<noteq> None"
  using assms
proof (induction "is" arbitrary: s ch)
  case (Cons i "is")
  show ?case
  proof (cases "result s")
    case None
    obtain s' ch' where m: "thread_move work polls result (s, ch) i = (s', ch')" "stop_sticky ch'"
      "result s' = None \<and> budget s' < budget s \<or> result s' = Some (Inr ()) \<or> (\<exists>e. result s' = Some (Inl e))"
      by (rule stopped_move [OF Cons.prems(1) None, of i]) (use Cons.prems(3) in auto)
    show ?thesis
    proof (cases "result s' = None")
      case True
      with m(3) Cons.prems(2) have "budget s' < length is" by auto
      from Cons.IH [OF m(2) this] Cons.prems(3) m(1) show ?thesis by simp
    next
      case False
      with m(1) ended_stays [OF False] show ?thesis by simp
    qed
  next
    case (Some r)
    then show ?thesis using ended_stays [of s ch "i # is"] by simp
  qed
qed simp

end

section \<open>The scanner\<close>

text \<open>The calls of \<^verbatim>\<open>LanScanner::start\<close> in their order, the last one spawning the thread.\<close>

record scanner_setup =
  su_socket :: "io_error + unit"
  su_reuse :: "io_error + unit"
  su_bind :: "socket_addr \<Rightarrow> io_error + unit"
  su_join_multicast :: "ip_addr \<Rightarrow> io_error + unit"
  su_read_timeout :: "duration \<Rightarrow> io_error + unit"
  su_spawn :: "io_error + unit"

definition LAN_GROUP :: ip_addr where "LAN_GROUP = V4 224 0 2 60"
definition SCAN_RECEIVE_TIMEOUT :: duration where "SCAN_RECEIVE_TIMEOUT = from_millis 500"

text \<open>The thread: what it returned, and the ports it has sent that were not received yet.\<close>

record scan_thread =
  sh_result :: "(io_error + unit) option"
  sh_ports :: "u16 list"

record lan_scanner =
  sn_handle :: lan_handle
  sn_chan :: stop_channel
  sn_thread :: scan_thread

definition lan_handle_new :: lan_handle where
  "lan_handle_new = \<lparr>lh_stop_tx = True, lh_thread = True\<rparr>"

definition scanner_start_thread :: "io_error + unit \<Rightarrow> io_error + lan_scanner" where
  "scanner_start_thread spawned =
     and_then spawned (\<lambda>_. Inr \<lparr>sn_handle = lan_handle_new, sn_chan = stop_channel_new,
       sn_thread = \<lparr>sh_result = None, sh_ports = []\<rparr>\<rparr>)"

definition scanner_start :: "scanner_setup \<Rightarrow> io_error + lan_scanner" where
  "scanner_start su =
     and_then (su_socket su) (\<lambda>_.
     and_then (su_reuse su) (\<lambda>_.
     and_then (su_bind su \<lparr>sa_ip = V4 0 0 0 0, sa_port = LAN_PORT\<rparr>) (\<lambda>_.
     and_then (su_join_multicast su LAN_GROUP) (\<lambda>_.
     and_then (su_read_timeout su SCAN_RECEIVE_TIMEOUT) (\<lambda>_.
       scanner_start_thread (su_spawn su))))))"

text \<open>One iteration of \<open>scan_loop\<close>; each begins with a poll.\<close>

definition scan_work :: "duration \<Rightarrow> scan_thread \<Rightarrow> stop_signal \<Rightarrow> scan_input \<Rightarrow> scan_thread" where
  "scan_work probe_timeout s sig i =
     (if sh_result s \<noteq> None then s
      else case scan_loop probe_timeout [i\<lparr>si_stop := sig\<rparr>] of
        (r, ps) \<Rightarrow> \<lparr>sh_result = r, sh_ports = sh_ports s @ ps\<rparr>)"

abbreviation scan_move :: "duration \<Rightarrow> scan_thread \<times> stop_channel \<Rightarrow> scan_input \<Rightarrow> scan_thread \<times> stop_channel" where
  "scan_move probe_timeout \<equiv> thread_move (scan_work probe_timeout) (\<lambda>_. True) sh_result"

interpretation scan_thread: stoppable_thread "scan_work t" "\<lambda>_. True" sh_result "\<lambda>_. 0" "\<lambda>_. True" for t
  by unfold_locales (auto simp: scan_work_def)

text \<open>\<^verbatim>\<open>try_recv\<close> on the channel of ports, whose sender is dropped when the thread returns.\<close>

datatype recv_result = Received u16 | RecvEmpty | RecvDisconnected

definition scanner_try_recv :: "lan_scanner \<Rightarrow> recv_result \<times> lan_scanner" where
  "scanner_try_recv sn =
     (case sh_ports (sn_thread sn) of
        p # ps \<Rightarrow> (Received p, sn\<lparr>sn_thread := (sn_thread sn)\<lparr>sh_ports := ps\<rparr>\<rparr>)
      | [] \<Rightarrow> (if sh_result (sn_thread sn) = None then RecvEmpty else RecvDisconnected, sn))"

definition scanner_is_finished :: "lan_scanner \<Rightarrow> bool" where
  "scanner_is_finished sn = lan_is_finished (sh_result (sn_thread sn) \<noteq> None) (sn_handle sn)"

text \<open>
  \<^verbatim>\<open>stop\<close> and \<^verbatim>\<open>drop\<close>: \<open>is\<close> are the iterations the thread makes while \<^verbatim>\<open>join\<close> waits for it, and
  \<open>None\<close> means that it still waits.
\<close>

definition scanner_stop ::
  "duration \<Rightarrow> lan_scanner \<Rightarrow> scan_input list \<Rightarrow> ((io_error + unit) \<times> lan_scanner) option" where
  "scanner_stop probe_timeout sn is =
     (let ch = (if lh_stop_tx (sn_handle sn) then send_stop (sn_chan sn) else sn_chan sn);
          (s, ch') = run_steps (scan_move probe_timeout) (sn_thread sn, ch) is
      in if lh_thread (sn_handle sn) \<and> sh_result s = None then None
         else case lan_stop ''LAN scan'' (sh_result s) (sn_handle sn) of
           (r, _, h) \<Rightarrow> Some (r, \<lparr>sn_handle = h, sn_chan = ch', sn_thread = s\<rparr>))"

section \<open>The broadcaster\<close>

record lan_broadcaster =
  br_handle :: lan_handle
  br_chan :: stop_channel
  br_thread :: broadcast_state

text \<open>\<open>now\<close> is when the thread starts.\<close>

definition broadcaster_start_thread :: "instant \<Rightarrow> io_error + unit \<Rightarrow> io_error + lan_broadcaster" where
  "broadcaster_start_thread now spawned =
     and_then spawned (\<lambda>_. Inr \<lparr>br_handle = lan_handle_new, br_chan = stop_channel_new,
       br_thread = \<lparr>bs_pc = BcProbe, bs_clock = now, bs_log = []\<rparr>\<rparr>)"

definition broadcaster_start ::
  "(socket_addr \<Rightarrow> io_error + unit) \<Rightarrow> io_error + unit \<Rightarrow> instant \<Rightarrow> io_error + lan_broadcaster" where
  "broadcaster_start bind spawned now =
     and_then (bind \<lparr>sa_ip = localhost, sa_port = 0\<rparr>) (\<lambda>_. broadcaster_start_thread now spawned)"

text \<open>The moves that wait on the stop channel.\<close>

definition broadcast_polls :: "broadcast_state \<Rightarrow> bool" where
  "broadcast_polls s \<longleftrightarrow> (case bs_pc s of BcPause \<Rightarrow> True | BcWait _ _ \<Rightarrow> True | _ \<Rightarrow> False)"

definition broadcast_result :: "broadcast_state \<Rightarrow> (io_error + unit) option" where
  "broadcast_result s = (case bs_pc s of BcDone r \<Rightarrow> Some r | _ \<Rightarrow> None)"

definition broadcast_work :: "broadcast_config \<Rightarrow> broadcast_state \<Rightarrow> stop_signal \<Rightarrow> broadcast_input \<Rightarrow> broadcast_state" where
  "broadcast_work cfg s sig i = broadcast_step cfg s (i\<lparr>bi_signal := sig\<rparr>)"

abbreviation broadcast_move ::
  "broadcast_config \<Rightarrow> broadcast_state \<times> stop_channel \<Rightarrow> broadcast_input \<Rightarrow> broadcast_state \<times> stop_channel" where
  "broadcast_move cfg \<equiv> thread_move (broadcast_work cfg) broadcast_polls broadcast_result"

definition broadcaster_is_finished :: "lan_broadcaster \<Rightarrow> bool" where
  "broadcaster_is_finished b = lan_is_finished (broadcast_result (br_thread b) \<noteq> None) (br_handle b)"

definition broadcaster_stop ::
  "broadcast_config \<Rightarrow> lan_broadcaster \<Rightarrow> broadcast_input list \<Rightarrow> ((io_error + unit) \<times> lan_broadcaster) option" where
  "broadcaster_stop cfg b is =
     (let ch = (if lh_stop_tx (br_handle b) then send_stop (br_chan b) else br_chan b);
          (s, ch') = run_steps (broadcast_move cfg) (br_thread b, ch) is
      in if lh_thread (br_handle b) \<and> broadcast_result s = None then None
         else case lan_stop ''LAN broadcast'' (broadcast_result s) (br_handle b) of
           (r, _, h) \<Rightarrow> Some (r, \<lparr>br_handle = h, br_chan = ch', br_thread = s\<rparr>))"

text \<open>
  Between a probe and the next wait the loop may find its deadline passed and probe again without
  a poll; it does so at most once as long as no move is delayed by a whole probe interval.
\<close>

definition broadcast_budget :: "broadcast_config \<Rightarrow> broadcast_state \<Rightarrow> nat" where
  "broadcast_budget cfg s =
     (case bs_pc s of
        BcProbe \<Rightarrow> 2
      | BcLoop deadline \<Rightarrow> if deadline - bs_clock s \<ge> int (pc_interval (bc_probe cfg)) then 1 else 3
      | _ \<Rightarrow> 0)"

lemma broadcast_send_budget:
  assumes "deadline - now \<ge> int (pc_interval (bc_probe cfg))"
  shows "broadcast_result (broadcast_send cfg i now deadline s) = None
      \<and> broadcast_budget cfg (broadcast_send cfg i now deadline s) = 1
    \<or> (\<exists>e. broadcast_result (broadcast_send cfg i now deadline s) = Some (Inl e))"
  using assms by (auto simp: broadcast_send_def broadcast_result_def broadcast_budget_def split: sum.splits)

interpretation broadcast_thread: stoppable_thread "broadcast_work cfg" broadcast_polls broadcast_result
    "broadcast_budget cfg" "\<lambda>i. bi_elapsed i < pc_interval (bc_probe cfg)" for cfg
proof unfold_locales
  fix s sig and i :: broadcast_input
  show "broadcast_result s \<noteq> None \<Longrightarrow> broadcast_work cfg s sig i = s"
    by (auto simp: broadcast_result_def broadcast_work_def broadcast_step_def split: broadcast_pc.splits)
  show "broadcast_result s = None \<Longrightarrow> broadcast_polls s \<Longrightarrow> sig \<noteq> SigNone \<Longrightarrow>
      broadcast_result (broadcast_work cfg s sig i) = Some (Inr ())"
    by (auto simp: broadcast_result_def broadcast_polls_def broadcast_work_def broadcast_step_def split: broadcast_pc.splits)
  assume a: "broadcast_result s = None" "\<not> broadcast_polls s" "bi_elapsed i < pc_interval (bc_probe cfg)"
  show "broadcast_result (broadcast_work cfg s sig i) = None \<and> broadcast_budget cfg (broadcast_work cfg s sig i) < broadcast_budget cfg s
      \<or> (\<exists>e. broadcast_result (broadcast_work cfg s sig i) = Some (Inl e))"
  proof (cases "bs_pc s")
    case BcProbe
    define now where "now = bs_clock s + int (bi_elapsed i)"
    have "broadcast_result s' = None \<and> broadcast_budget cfg s' = 1 \<or> (\<exists>e. broadcast_result s' = Some (Inl e))"
      if "s' = broadcast_send cfg (i\<lparr>bi_signal := sig\<rparr>) now (now + int (pc_interval (bc_probe cfg))) s" for s'
      unfolding that by (rule broadcast_send_budget) simp
    with BcProbe show ?thesis
      by (auto simp: broadcast_work_def broadcast_step_def Let_def now_def [symmetric])
        (auto simp: broadcast_result_def broadcast_budget_def)
  next
    case (BcLoop deadline)
    with a show ?thesis
      by (auto simp: broadcast_work_def broadcast_step_def Let_def broadcast_result_def broadcast_budget_def
          saturating_duration_since_def)
  qed (use a in \<open>auto simp: broadcast_polls_def broadcast_result_def\<close>)
qed

section \<open>Stopping\<close>

text \<open>What the owner and the thread do before the stop.\<close>

datatype scanner_label = ScanMove scan_input | ScanTryRecv

fun scanner_step :: "duration \<Rightarrow> lan_scanner \<Rightarrow> scanner_label \<Rightarrow> lan_scanner" where
  "scanner_step t sn (ScanMove i) =
     (case scan_move t (sn_thread sn, sn_chan sn) i of (s, ch) \<Rightarrow> sn\<lparr>sn_thread := s, sn_chan := ch\<rparr>)"
| "scanner_step t sn ScanTryRecv = snd (scanner_try_recv sn)"

fun broadcaster_move :: "broadcast_config \<Rightarrow> lan_broadcaster \<Rightarrow> broadcast_input \<Rightarrow> lan_broadcaster" where
  "broadcaster_move cfg b i =
     (case broadcast_move cfg (br_thread b, br_chan b) i of (s, ch) \<Rightarrow> b\<lparr>br_thread := s, br_chan := ch\<rparr>)"

lemma scanner_step_handle [simp]: "sn_handle (scanner_step t sn l) = sn_handle sn"
  by (cases l) (auto simp: scanner_try_recv_def split: prod.splits list.splits)

lemma scanner_run_handle [simp]: "sn_handle (run_steps (scanner_step t) sn ls) = sn_handle sn"
  by (induction ls arbitrary: sn) simp_all

lemma broadcaster_run_handle [simp]: "br_handle (run_steps (broadcaster_move cfg) b is) = br_handle b"
  by (induction "is" arbitrary: b) (simp_all add: case_prod_beta)

lemma scanner_started:
  "scanner_start su = Inr sn \<Longrightarrow> sn_handle sn = lan_handle_new \<and> sn_thread sn = \<lparr>sh_result = None, sh_ports = []\<rparr>"
  by (auto simp: scanner_start_def scanner_start_thread_def and_then_Inr)

lemma broadcaster_started: "broadcaster_start bind spawned now = Inr b \<Longrightarrow> br_handle b = lan_handle_new"
  by (auto simp: broadcaster_start_def broadcaster_start_thread_def and_then_Inr)

lemma run_case_prod: "(case run_steps f x is of (a, b) \<Rightarrow> P a b) = P (fst (run_steps f x is)) (snd (run_steps f x is))"
  by (simp add: case_prod_beta)

lemma scanner_stop_run:
  assumes "sn_handle sn = lan_handle_new" "is \<noteq> []"
  obtains r sn' where "scanner_stop t sn is = Some (r, sn')" "sn_handle sn' = \<lparr>lh_stop_tx = False, lh_thread = False\<rparr>"
    "Some r = sh_result (sn_thread sn')"
    "sn_thread sn' = fst (run_steps (scan_move t) (sn_thread sn, send_stop (sn_chan sn)) is)"
proof -
  have "sh_result (fst (run_steps (scan_move t) (sn_thread sn, send_stop (sn_chan sn)) is)) \<noteq> None"
    by (rule scan_thread.stops_within_budget) (use assms(2) in simp_all)
  then obtain r where "sh_result (fst (run_steps (scan_move t) (sn_thread sn, send_stop (sn_chan sn)) is)) = Some r" by auto
  with assms(1) that show thesis
    by (simp add: scanner_stop_def lan_handle_new_def lan_stop_def Let_def run_case_prod)
qed

lemma broadcaster_stop_run:
  assumes "br_handle b = lan_handle_new" "4 \<le> length is" "\<forall>i \<in> set is. bi_elapsed i < pc_interval (bc_probe cfg)"
  obtains r b' where "broadcaster_stop cfg b is = Some (r, b')" "br_handle b' = \<lparr>lh_stop_tx = False, lh_thread = False\<rparr>"
    "Some r = broadcast_result (br_thread b')"
proof -
  have "broadcast_budget cfg (br_thread b) \<le> 3" by (simp add: broadcast_budget_def split: broadcast_pc.split)
  with assms(2) have "broadcast_budget cfg (br_thread b) < length is" by linarith
  then have "broadcast_result (fst (run_steps (broadcast_move cfg) (br_thread b, send_stop (br_chan b)) is)) \<noteq> None"
    by (intro broadcast_thread.stops_within_budget) (use assms(3) in simp_all)
  then obtain r where "broadcast_result (fst (run_steps (broadcast_move cfg) (br_thread b, send_stop (br_chan b)) is)) = Some r" by auto
  with assms(1) that show thesis
    by (simp add: broadcaster_stop_def lan_handle_new_def lan_stop_def Let_def run_case_prod)
qed

text \<open>
  C26. Stopping a background thread ends it: whatever a scanner was doing, \<open>stop\<close> returns after at
  most one more iteration of its thread, and that of a broadcaster after at most four of its
  moves, provided none of them is held up for a whole probe interval; the result is the one the
  thread returned, the handle then counts as finished, and stopping again returns at once.
\<close>

theorem lan_threads_stop:
  assumes "scanner_start su = Inr sn0" and "sn = run_steps (scanner_step t) sn0 ls"
    and "broadcaster_start bind spawned now = Inr b0" and "cfg = lan_broadcast_config name port"
    and "b = run_steps (broadcaster_move cfg) b0 js"
  shows "(is \<noteq> [] \<longrightarrow> (\<exists>r sn'. scanner_stop t sn is = Some (r, sn') \<and> sh_result (sn_thread sn') = Some r
        \<and> scanner_is_finished sn' \<and> scanner_stop t sn' [] = Some (Inr (), sn')))
    \<and> (4 \<le> length ks \<and> (\<forall>k \<in> set ks. bi_elapsed k < from_secs 5) \<longrightarrow>
        (\<exists>r b'. broadcaster_stop cfg b ks = Some (r, b') \<and> broadcast_result (br_thread b') = Some r
          \<and> broadcaster_is_finished b' \<and> broadcaster_stop cfg b' [] = Some (Inr (), b')))"
proof (intro conjI impI)
  assume ne: "is \<noteq> []"
  have "sn_handle sn = lan_handle_new" using scanner_started [OF assms(1)] by (simp add: assms(2))
  then obtain r sn' where s: "scanner_stop t sn is = Some (r, sn')"
      "sn_handle sn' = \<lparr>lh_stop_tx = False, lh_thread = False\<rparr>" "Some r = sh_result (sn_thread sn')"
    by (rule scanner_stop_run [OF _ ne])
  then have "scanner_stop t sn' [] = Some (Inr (), sn')"
    by (cases sn') (simp add: scanner_stop_def lan_stop_def Let_def)
  with s show "\<exists>r sn'. scanner_stop t sn is = Some (r, sn') \<and> sh_result (sn_thread sn') = Some r
      \<and> scanner_is_finished sn' \<and> scanner_stop t sn' [] = Some (Inr (), sn')"
    by (intro exI [of _ r] exI [of _ sn']) (simp add: scanner_is_finished_def lan_is_finished_def)
next
  assume ks: "4 \<le> length ks \<and> (\<forall>k \<in> set ks. bi_elapsed k < from_secs 5)"
  then have prompt: "4 \<le> length ks" "\<forall>k \<in> set ks. bi_elapsed k < pc_interval (bc_probe cfg)"
    by (simp_all add: assms(4) lan_broadcast_config_def PROBE_INTERVAL_def)
  have "br_handle b = lan_handle_new" using broadcaster_started [OF assms(3)] by (simp add: assms(5) del: broadcaster_move.simps)
  then obtain r b' where s: "broadcaster_stop cfg b ks = Some (r, b')"
      "br_handle b' = \<lparr>lh_stop_tx = False, lh_thread = False\<rparr>" "Some r = broadcast_result (br_thread b')"
    by (rule broadcaster_stop_run [OF _ prompt])
  then have "broadcaster_stop cfg b' [] = Some (Inr (), b')"
    by (cases b') (simp add: broadcaster_stop_def lan_stop_def Let_def)
  with s show "\<exists>r b'. broadcaster_stop cfg b ks = Some (r, b') \<and> broadcast_result (br_thread b') = Some r
      \<and> broadcaster_is_finished b' \<and> broadcaster_stop cfg b' [] = Some (Inr (), b')"
    by (intro exI [of _ r] exI [of _ b']) (simp add: broadcaster_is_finished_def lan_is_finished_def)
qed

section \<open>What the owner of a scanner receives\<close>

text \<open>The answers of \<^verbatim>\<open>try_recv\<close>, in order.\<close>

fun scanner_recvs :: "duration \<Rightarrow> lan_scanner \<Rightarrow> scanner_label list \<Rightarrow> recv_result list" where
  "scanner_recvs t sn [] = []"
| "scanner_recvs t sn (l # ls) =
     (case l of ScanTryRecv \<Rightarrow> [fst (scanner_try_recv sn)] | ScanMove i \<Rightarrow> []) @ scanner_recvs t (scanner_step t sn l) ls"

definition received_ports :: "recv_result list \<Rightarrow> u16 list" where
  "received_ports rs = List.map_filter (\<lambda>r. case r of Received p \<Rightarrow> Some p | _ \<Rightarrow> None) rs"

lemma received_ports_simps [simp]:
  "received_ports [] = []" "received_ports (Received p # rs) = p # received_ports rs"
  "received_ports (RecvEmpty # rs) = received_ports rs" "received_ports (RecvDisconnected # rs) = received_ports rs"
  by (simp_all add: received_ports_def List.map_filter_def)

lemma scan_hit_stop [simp]: "scan_hit t (i\<lparr>si_stop := sig\<rparr>) p = scan_hit t i p"
  by (simp add: scan_hit_def)

lemma parse_lan_port_pos: "parse_lan_port d \<noteq> Some 0"
  by (auto simp: parse_lan_port_def bind_eq_Some_conv dest: parse_nonzero_u16_pos split: if_splits)

text \<open>An iteration sends a port only as it returns, and then one that was announced and answered.\<close>

lemma scan_iteration:
  assumes "scan_loop t [i] = (r, ps)"
  shows "ps = [] \<or> (r \<noteq> None \<and> (\<exists>p. ps = [p] \<and> p \<noteq> 0 \<and> scan_hit t i p))"
proof (cases "scan_goes_on t i")
  case True
  with assms scan_loop_goes_on [OF True, of "[]"] show ?thesis by simp
next
  case False
  with assms show ?thesis unfolding scan_loop_ends [OF False]
    by (auto simp: scan_goes_on_def scan_fails_def scan_hit_def split: sum.splits if_splits dest: parse_lan_port_pos [THEN notE])
qed

lemma scan_work_ports:
  assumes "sh_result s = None \<longrightarrow> sh_ports s = []" "length (sh_ports s) \<le> 1"
  shows "(sh_result (scan_work t s sig i) = None \<longrightarrow> sh_ports (scan_work t s sig i) = [])
    \<and> length (sh_ports (scan_work t s sig i)) \<le> 1
    \<and> (\<forall>p \<in> set (sh_ports (scan_work t s sig i)). p \<in> set (sh_ports s) \<or> p \<noteq> 0 \<and> scan_hit t i p)
    \<and> (sh_result s \<noteq> None \<longrightarrow> scan_work t s sig i = s)"
proof (cases "sh_result s")
  case None
  obtain r ps where run: "scan_loop t [i\<lparr>si_stop := sig\<rparr>] = (r, ps)" by force
  from scan_iteration [OF run] None assms show ?thesis by (auto simp: scan_work_def run simp del: scan_loop.simps)
qed (use assms in \<open>simp add: scan_work_def\<close>)

lemma scanner_recvs_bound:
  assumes "sh_result (sn_thread sn) = None \<longrightarrow> sh_ports (sn_thread sn) = []" "length (sh_ports (sn_thread sn)) \<le> 1"
  shows "length (received_ports (scanner_recvs t sn ls))
      \<le> (if sh_result (sn_thread sn) = None then 1 else length (sh_ports (sn_thread sn)))
    \<and> (\<forall>p \<in> set (received_ports (scanner_recvs t sn ls)).
         p \<in> set (sh_ports (sn_thread sn)) \<or> p \<noteq> 0 \<and> (\<exists>i. ScanMove i \<in> set ls \<and> scan_hit t i p))"
  using assms
proof (induction ls arbitrary: sn)
  case (Cons l ls)
  show ?case
  proof (cases l)
    case (ScanMove i)
    define s' where "s' = scan_work t (sn_thread sn) (fst (stop_poll (sn_chan sn))) i"
    have th: "sn_thread (scanner_step t sn l) = s'"
      by (auto simp: ScanMove thread_move_def s'_def scan_work_def split: prod.splits)
    note w = scan_work_ports [OF Cons.prems, of t "fst (stop_poll (sn_chan sn))" i, folded s'_def]
    from Cons.IH [of "scanner_step t sn l", unfolded th] w have IH:
      "length (received_ports (scanner_recvs t (scanner_step t sn l) ls)) \<le> (if sh_result s' = None then 1 else length (sh_ports s'))"
      "\<forall>p \<in> set (received_ports (scanner_recvs t (scanner_step t sn l) ls)).
         p \<in> set (sh_ports s') \<or> p \<noteq> 0 \<and> (\<exists>i. ScanMove i \<in> set ls \<and> scan_hit t i p)"
      by blast+
    have eq: "scanner_recvs t sn (l # ls) = scanner_recvs t (scanner_step t sn l) ls" by (simp add: ScanMove)
    have "length (received_ports (scanner_recvs t (scanner_step t sn l) ls))
        \<le> (if sh_result (sn_thread sn) = None then 1 else length (sh_ports (sn_thread sn)))"
      using IH(1) w Cons.prems by (cases "sh_result (sn_thread sn)") (auto split: if_splits)
    moreover define ps where "ps = received_ports (scanner_recvs t (scanner_step t sn l) ls)"
    moreover have "p \<in> set (sh_ports (sn_thread sn)) \<or> p \<noteq> 0 \<and> (\<exists>i. ScanMove i \<in> set (l # ls) \<and> scan_hit t i p)"
      if "p \<in> set ps" for p
    proof (cases "p \<in> set (sh_ports s')")
      case True
      with w have "p \<in> set (sh_ports (sn_thread sn)) \<or> p \<noteq> 0 \<and> scan_hit t i p" by blast
      with ScanMove show ?thesis by auto
    next
      case False
      with IH(2) that show ?thesis unfolding ps_def by auto
    qed
    ultimately show ?thesis by (simp only: eq) blast
  next
    case ScanTryRecv
    show ?thesis
    proof (cases "sh_ports (sn_thread sn)")
      case Nil
      with Cons.IH [of sn] Cons.prems ScanTryRecv show ?thesis
        by (auto simp: scanner_try_recv_def split: if_splits)
    next
      case (Cons p ps)
      define sn' where "sn' = sn\<lparr>sn_thread := (sn_thread sn)\<lparr>sh_ports := ps\<rparr>\<rparr>"
      have "ps = []" "sh_result (sn_thread sn) \<noteq> None" using Cons Cons.prems by auto
      with Cons.IH [of sn'] Cons ScanTryRecv show ?thesis
        by (auto simp: scanner_try_recv_def sn'_def)
    qed
  qed
qed simp

text \<open>
  A scanner hands at most one port to its owner, however its thread and the owner's calls
  interleave, and only a non-zero one that a datagram of this run announced and that answered
  the probe; every call of \<open>try_recv\<close> returns at once, and reports the channel as closed only
  when the thread has ended and the port was taken.
\<close>

theorem scanner_hands_over_one_port:
  assumes "scanner_start su = Inr sn0" and "rs = scanner_recvs t sn0 ls" and "sn = run_steps (scanner_step t) sn0 ls"
  shows "length (received_ports rs) \<le> 1
    \<and> (\<forall>p. Received p \<in> set rs \<longrightarrow> p \<noteq> 0 \<and> (\<exists>i. ScanMove i \<in> set ls \<and> scan_hit t i p))
    \<and> (fst (scanner_try_recv sn) = RecvDisconnected \<longleftrightarrow> sh_result (sn_thread sn) \<noteq> None \<and> sh_ports (sn_thread sn) = [])"
proof -
  have start: "sn_thread sn0 = \<lparr>sh_result = None, sh_ports = []\<rparr>" using scanner_started [OF assms(1)] by simp
  have "p \<in> set (received_ports rs)" if "Received p \<in> set rs" for p
    using that by (force simp: received_ports_def List.map_filter_def)
  with scanner_recvs_bound [of sn0 t ls] start show ?thesis
    by (auto simp: assms(2) scanner_try_recv_def split: list.splits)
qed

section \<open>Concrete runs\<close>

definition open_sockets :: scanner_setup where
  "open_sockets = \<lparr>su_socket = Inr (), su_reuse = Inr (), su_bind = (\<lambda>_. Inr ()), su_join_multicast = (\<lambda>_. Inr ()),
     su_read_timeout = (\<lambda>_. Inr ()), su_spawn = Inr ()\<rparr>"

definition announced :: scan_input where
  "announced = \<lparr>si_stop = SigNone, si_recv = Inr (build_packet [65] 25565), si_net = answering_net\<rparr>"

definition open_scanner :: lan_scanner where
  "open_scanner = \<lparr>sn_handle = lan_handle_new, sn_chan = stop_channel_new, sn_thread = \<lparr>sh_result = None, sh_ports = []\<rparr>\<rparr>"

definition open_broadcaster :: lan_broadcaster where
  "open_broadcaster = \<lparr>br_handle = lan_handle_new, br_chan = stop_channel_new,
     br_thread = \<lparr>bs_pc = BcProbe, bs_clock = 0, bs_log = []\<rparr>\<rparr>"

lemma open_scanner_start: "scanner_start open_sockets = Inr open_scanner"
  by (simp add: scanner_start_def scanner_start_thread_def open_sockets_def open_scanner_def)

lemma open_broadcaster_start: "broadcaster_start (\<lambda>_. Inr ()) (Inr ()) 0 = Inr open_broadcaster"
  by (simp add: broadcaster_start_def broadcaster_start_thread_def open_broadcaster_def)

theorem lan_threads_stop_witness:
  "(\<exists>r sn'. scanner_stop 0 open_scanner [announced] = Some (r, sn') \<and> scanner_is_finished sn')
   \<and> (\<exists>r b'. broadcaster_stop (lan_broadcast_config [65] 25565) open_broadcaster (replicate 4 probe_input) = Some (r, b')
        \<and> broadcaster_is_finished b')"
proof -
  have prompt: "\<forall>k \<in> set (replicate 4 probe_input). bi_elapsed k < from_secs 5"
    by (simp add: probe_input_def from_secs_def nanos_per_sec_def)
  have "open_scanner = run_steps (scanner_step 0) open_scanner []"
    "open_broadcaster = run_steps (broadcaster_move (lan_broadcast_config [65] 25565)) open_broadcaster []" by simp_all
  from lan_threads_stop [OF open_scanner_start this(1) open_broadcaster_start refl this(2), of "[announced]" "replicate 4 probe_input"] prompt
  show ?thesis by auto
qed

theorem scanner_hands_over_one_port_witness:
  "length (received_ports (scanner_recvs 0 open_scanner [ScanMove announced, ScanTryRecv, ScanTryRecv])) \<le> 1"
  using scanner_hands_over_one_port [OF open_scanner_start refl refl] by blast

end
