(* ===== verification/Sculk_Events.thy ===== *)
theory Sculk_Events
  imports Sculk_Types
begin

text \<open>
  \<^verbatim>\<open>core/src/tunnel/event.rs\<close> and the shared parts of \<^verbatim>\<open>core/src/tunnel/iroh/mod.rs\<close>: peers,
  configurations with their defaults, runtime events, the bounded event channel with its
  best-effort \<open>emit_event\<close>, close codes, and the snapshots of connections. A QUIC connection is a
  number; what it is doing is a \<open>conn_view\<close>, the answers its methods give at one moment.
\<close>

section \<open>Configuration\<close>

datatype peer_id = PeerId string

definition peer_of :: "crates \<Rightarrow> endpoint_id \<Rightarrow> peer_id" where
  "peer_of X e = PeerId (cr_fmt_short X e)"

record host_config =
  hc_event_delay :: duration
  hc_max_players :: "u32 option"

definition host_config_default :: host_config where
  "host_config_default = \<lparr>hc_event_delay = 0, hc_max_players = None\<rparr>"

record join_config =
  jc_event_delay :: duration
  jc_reconnect_timeout :: "duration option"
  jc_initial_retries :: u32
  jc_base_backoff :: duration
  jc_max_backoff :: duration
  jc_local_sessions_max :: nat

definition DEFAULT_LOCAL_SESSIONS_MAX :: nat where "DEFAULT_LOCAL_SESSIONS_MAX = 64"

definition join_config_default :: join_config where
  "join_config_default =
     \<lparr>jc_event_delay = 0, jc_reconnect_timeout = None, jc_initial_retries = 3,
      jc_base_backoff = from_millis 500, jc_max_backoff = from_secs 30,
      jc_local_sessions_max = DEFAULT_LOCAL_SESSIONS_MAX\<rparr>"

section \<open>Events\<close>

datatype tunnel_event =
    PlayerJoined peer_id
  | PlayerLeft peer_id string
  | Connected
  | Disconnected string
  | PathChanged peer_id bool u64
  | Reconnecting u32
  | Reconnected
  | TokenRotated
  | TokenRotationFailed duration
  | AuthFailed peer_id
  | PlayerRejected peer_id string
  | EventError error_category string

definition EVENT_CHANNEL_SIZE :: nat where "EVENT_CHANNEL_SIZE = 64"

text \<open>A bounded queue with one consumer; \<open>ch_open\<close> is whether the receiver still exists.\<close>

record event_channel =
  ch_queue :: "tunnel_event list"
  ch_capacity :: nat
  ch_open :: bool

definition channel_new :: "nat \<Rightarrow> event_channel" where
  "channel_new n = \<lparr>ch_queue = [], ch_capacity = n, ch_open = True\<rparr>"

definition emit_event :: "event_channel \<Rightarrow> tunnel_event \<Rightarrow> event_channel" where
  "emit_event ch ev =
     (if \<not> ch_open ch then ch
      else if length (ch_queue ch) \<ge> ch_capacity ch then ch
      else ch\<lparr>ch_queue := ch_queue ch @ [ev]\<rparr>)"

definition channel_recv :: "event_channel \<Rightarrow> tunnel_event option \<times> event_channel" where
  "channel_recv ch =
     (case ch_queue ch of [] \<Rightarrow> (None, ch) | ev # q \<Rightarrow> (Some ev, ch\<lparr>ch_queue := q\<rparr>))"

lemma emit_event_meta [simp]:
  "ch_capacity (emit_event ch ev) = ch_capacity ch" "ch_open (emit_event ch ev) = ch_open ch"
  by (simp_all add: emit_event_def)

lemma emit_event_queue:
  "ch_queue (emit_event ch ev) =
     ch_queue ch @ (if ch_open ch \<and> length (ch_queue ch) < ch_capacity ch then [ev] else [])"
  by (simp add: emit_event_def)

lemma emit_event_bounded:
  "length (ch_queue ch) \<le> ch_capacity ch \<Longrightarrow> length (ch_queue (emit_event ch ev)) \<le> ch_capacity ch"
  by (simp add: emit_event_queue)

text \<open>Events already queued are never lost or reordered by a later one.\<close>

lemma emit_events_prefix:
  "\<exists>rest. ch_queue (fold (\<lambda>ev c. emit_event c ev) evs ch) = ch_queue ch @ rest"
proof (induction evs arbitrary: ch)
  case (Cons ev evs)
  from Cons [of "emit_event ch ev"] show ?case by (auto simp: emit_event_queue [of ch])
qed simp

section \<open>Shutdown\<close>

text \<open>
  \<^verbatim>\<open>wait_for_shutdown\<close> on a watch channel: it returns when the value is true, after any change,
  or when the sender is gone.
\<close>

record shutdown_watch =
  sw_value :: bool
  sw_changed :: bool
  sw_sender_alive :: bool

definition wait_for_shutdown_ready :: "shutdown_watch \<Rightarrow> bool" where
  "wait_for_shutdown_ready w \<longleftrightarrow> sw_value w \<or> sw_changed w \<or> \<not> sw_sender_alive w"

section \<open>Close codes\<close>

definition ALPN :: string where "ALPN = ''/sculk/node/1''"
definition CLOSE_AUTH_FAILED :: nat where "CLOSE_AUTH_FAILED = 1"
definition CLOSE_SERVER_FULL :: nat where "CLOSE_SERVER_FULL = 2"
definition CLOSE_REPLACED_BY_RECONNECT :: nat where "CLOSE_REPLACED_BY_RECONNECT = 3"
definition CLOSE_HOST_STOPPED :: nat where "CLOSE_HOST_STOPPED = 4"
definition CLOSE_AUTH_FAILED_REASON :: string where "CLOSE_AUTH_FAILED_REASON = ''auth failed''"
definition FULL_RECHECK_DELAY :: duration where "FULL_RECHECK_DELAY = from_millis 1500"
definition AUTH_TIMEOUT :: duration where "AUTH_TIMEOUT = from_secs 10"
definition REJECT_DRAIN_TIMEOUT :: duration where "REJECT_DRAIN_TIMEOUT = from_secs 3"

datatype close_reason = ApplicationClosed nat string | ConnectionLost string

fun is_auth_failure_close :: "close_reason \<Rightarrow> bool" where
  "is_auth_failure_close (ApplicationClosed code reason) \<longleftrightarrow>
     code = CLOSE_AUTH_FAILED \<and> reason = CLOSE_AUTH_FAILED_REASON"
| "is_auth_failure_close (ConnectionLost _) \<longleftrightarrow> False"

section \<open>Tracked connections\<close>

type_synonym conn_id = nat

record conn_path =
  cp_selected :: bool
  cp_relay :: bool
  cp_rtt :: duration
  cp_tx_bytes :: u64
  cp_rx_bytes :: u64

record conn_view =
  cv_close_reason :: "close_reason option"
  cv_paths :: "conn_path list"

record tracked_connection =
  tc_remote_id :: endpoint_id
  tc_handle :: conn_id

text \<open>\<open>net c\<close> is what \<^verbatim>\<open>upgrade()\<close> of the weak handle of \<open>c\<close> returns.\<close>

type_synonym net_view = "conn_id \<Rightarrow> conn_view option"

record connection_snapshot =
  cs_remote_id :: peer_id
  cs_is_relay :: bool
  cs_rtt_ms :: u64
  cs_tx_bytes :: u64
  cs_rx_bytes :: u64
  cs_alive :: bool
  cs_elapsed :: duration

definition tracked_is_alive :: "net_view \<Rightarrow> tracked_connection \<Rightarrow> bool" where
  "tracked_is_alive net t =
     (case net (tc_handle t) of None \<Rightarrow> False | Some c \<Rightarrow> cv_close_reason c = None)"

definition rtt_ms :: "duration \<Rightarrow> u64" where "rtt_ms d = of_nat (as_millis d)"

definition tracked_snapshot ::
  "crates \<Rightarrow> net_view \<Rightarrow> duration \<Rightarrow> tracked_connection \<Rightarrow> connection_snapshot" where
  "tracked_snapshot X net elapsed t =
     (let remote = peer_of X (tc_remote_id t)
      in case net (tc_handle t) of
           None \<Rightarrow> \<lparr>cs_remote_id = remote, cs_is_relay = False, cs_rtt_ms = 0, cs_tx_bytes = 0,
                     cs_rx_bytes = 0, cs_alive = False, cs_elapsed = elapsed\<rparr>
         | Some c \<Rightarrow>
             (case List.find cp_selected (cv_paths c) of
                Some p \<Rightarrow> \<lparr>cs_remote_id = remote, cs_is_relay = cp_relay p, cs_rtt_ms = rtt_ms (cp_rtt p),
                           cs_tx_bytes = cp_tx_bytes p, cs_rx_bytes = cp_rx_bytes p,
                           cs_alive = (cv_close_reason c = None), cs_elapsed = elapsed\<rparr>
              | None \<Rightarrow> \<lparr>cs_remote_id = remote, cs_is_relay = False, cs_rtt_ms = 0, cs_tx_bytes = 0,
                         cs_rx_bytes = 0, cs_alive = (cv_close_reason c = None), cs_elapsed = elapsed\<rparr>))"

text \<open>\<^verbatim>\<open>lock_mutex\<close>: a poisoned mutex is an error that names it.\<close>

definition lock_mutex :: "bool \<Rightarrow> string \<Rightarrow> 'a \<Rightarrow> sculk_error + 'a" where
  "lock_mutex poisoned name content =
     (if poisoned then Inl (TunnelErr (mutex_poisoned name)) else Inr content)"

text \<open>\<^verbatim>\<open>IrohTunnel::connections\<close> drops the dead entries and returns a snapshot of the others.\<close>

definition tunnel_connections ::
  "crates \<Rightarrow> bool \<Rightarrow> net_view \<Rightarrow> duration \<Rightarrow> tracked_connection list
     \<Rightarrow> (sculk_error + connection_snapshot list) \<times> tracked_connection list" where
  "tunnel_connections X poisoned net elapsed conns =
     (case lock_mutex poisoned ''tunnel connections'' conns of
        Inl e \<Rightarrow> (Inl e, conns)
      | Inr guard \<Rightarrow>
          let kept = filter (tracked_is_alive net) guard
          in (Inr (map (tracked_snapshot X net elapsed) kept), kept))"

lemma snapshot_alive: "cs_alive (tracked_snapshot X net elapsed t) \<longleftrightarrow> tracked_is_alive net t"
  by (auto simp: tracked_is_alive_def tracked_snapshot_def Let_def split: option.splits)

lemma tunnel_connections_alive:
  "tunnel_connections X False net elapsed conns = (Inr snaps, kept) \<Longrightarrow>
     kept = filter (tracked_is_alive net) conns \<and> list_all cs_alive snaps
     \<and> tunnel_connections X False net elapsed kept = (Inr snaps, kept)"
  by (auto simp: tunnel_connections_def lock_mutex_def list_all_iff snapshot_alive Let_def)

end
