(* ===== verification/Path_Monitor.thy ===== *)
theory Path_Monitor
  imports Sculk_Events
begin

text \<open>
  \<^verbatim>\<open>core/src/tunnel/iroh/monitor.rs\<close>: the task that reports path changes of one connection. Its
  inputs are what its \<^verbatim>\<open>select!\<close> wakes up for: the next path list of the watcher (\<^verbatim>\<open>None\<close> ends the
  task) or a tick of the timer with the paths of the connection at that moment. A step returns
  the event it sends.
\<close>

record path_monitor =
  pm_last_is_relay :: "bool option"
  pm_last_rtt_ms :: "u64 option"
  pm_running :: bool

datatype monitor_input = NextPaths "conn_path list option" | TimerTick "conn_path list"

definition extract_selected_path :: "conn_path list \<Rightarrow> (bool \<times> u64) option" where
  "extract_selected_path paths =
     map_option (\<lambda>p. (cp_relay p, rtt_ms (cp_rtt p))) (List.find cp_selected paths)"

definition should_emit_on_update ::
  "duration \<Rightarrow> bool option \<Rightarrow> u64 option \<Rightarrow> bool \<Rightarrow> u64 \<Rightarrow> bool" where
  "should_emit_on_update delay last_relay last_rtt is_relay rtt \<longleftrightarrow>
     last_relay \<noteq> Some is_relay \<or> (delay = 0 \<and> last_rtt \<noteq> Some rtt)"

definition monitor_start :: "conn_path list option \<Rightarrow> path_monitor \<times> (bool \<times> u64) list" where
  "monitor_start first =
     (case Option.bind first extract_selected_path of
        Some (r, t) \<Rightarrow>
          (\<lparr>pm_last_is_relay = Some r, pm_last_rtt_ms = Some t, pm_running = True\<rparr>, [(r, t)])
      | None \<Rightarrow> (\<lparr>pm_last_is_relay = None, pm_last_rtt_ms = None, pm_running = True\<rparr>, []))"

definition monitor_sent :: "bool \<Rightarrow> u64 \<Rightarrow> path_monitor \<Rightarrow> path_monitor" where
  "monitor_sent r t m = m\<lparr>pm_last_is_relay := Some r, pm_last_rtt_ms := Some t\<rparr>"

text \<open>Without a delay there is no timer; with one, an update that is not sent is still remembered.\<close>

fun monitor_step :: "duration \<Rightarrow> path_monitor \<Rightarrow> monitor_input \<Rightarrow> path_monitor \<times> (bool \<times> u64) list" where
  "monitor_step delay m (NextPaths None) = (m\<lparr>pm_running := False\<rparr>, [])"
| "monitor_step delay m (NextPaths (Some paths)) =
     (if \<not> pm_running m then (m, [])
      else case extract_selected_path paths of
        None \<Rightarrow> (m, [])
      | Some (r, t) \<Rightarrow>
          if should_emit_on_update delay (pm_last_is_relay m) (pm_last_rtt_ms m) r t
          then (monitor_sent r t m, [(r, t)])
          else (if delay = 0 then m else m\<lparr>pm_last_rtt_ms := Some t\<rparr>, []))"
| "monitor_step delay m (TimerTick paths) =
     (if \<not> pm_running m \<or> delay = 0 then (m, [])
      else case extract_selected_path paths of
        None \<Rightarrow> (m, [])
      | Some (r, t) \<Rightarrow> (monitor_sent r t m, [(r, t)]))"

fun monitor_run :: "duration \<Rightarrow> path_monitor \<Rightarrow> monitor_input list \<Rightarrow> (bool \<times> u64) list" where
  "monitor_run delay m [] = []"
| "monitor_run delay m (i # is) =
     (case monitor_step delay m i of (m', out) \<Rightarrow> out @ monitor_run delay m' is)"

definition path_event :: "peer_id \<Rightarrow> bool \<times> u64 \<Rightarrow> tunnel_event" where
  "path_event remote s = PathChanged remote (fst s) (snd s)"

text \<open>Everything the task sends over its life.\<close>

definition spawn_path_monitor ::
  "peer_id \<Rightarrow> duration \<Rightarrow> conn_path list option \<Rightarrow> monitor_input list \<Rightarrow> tunnel_event list" where
  "spawn_path_monitor remote delay first is =
     (case monitor_start first of (m, out) \<Rightarrow> map (path_event remote) (out @ monitor_run delay m is))"

section \<open>Properties\<close>

definition selected_paths :: "conn_path list list \<Rightarrow> (bool \<times> u64) list" where
  "selected_paths ps = List.map_filter extract_selected_path ps"

definition monitor_last :: "path_monitor \<Rightarrow> (bool \<times> u64) option \<Rightarrow> bool" where
  "monitor_last m l \<longleftrightarrow> pm_running m \<and> pm_last_is_relay m = map_option fst l \<and> pm_last_rtt_ms m = map_option snd l"

lemma map_filter_Cons: "List.map_filter f (x # xs) = (case f x of None \<Rightarrow> [] | Some y \<Rightarrow> [y]) @ List.map_filter f xs"
  by (simp add: List.map_filter_def split: option.splits)

text \<open>What is left of a list once the leading copies of the last value sent are removed.\<close>

lemma run_without_delay:
  assumes "monitor_last m l"
  shows "(case l of None \<Rightarrow> [] | Some x \<Rightarrow> [x]) @ monitor_run 0 m (map (NextPaths \<circ> Some) ps)
       = remdups_adj ((case l of None \<Rightarrow> [] | Some x \<Rightarrow> [x]) @ selected_paths ps)"
  using assms
proof (induction ps arbitrary: m l)
  case Nil
  then show ?case by (simp add: selected_paths_def List.map_filter_def split: option.splits)
next
  case (Cons p ps)
  show ?case
  proof (cases "extract_selected_path p")
    case None
    with Cons show ?thesis
      by (simp add: selected_paths_def map_filter_Cons monitor_last_def)
  next
    case (Some x)
    obtain r t where x: "x = (r, t)" by (cases x)
    show ?thesis
    proof (cases "l = Some x")
      case True
      have "monitor_step 0 m (NextPaths (Some p)) = (m, [])"
        using Some x True Cons.prems by (auto simp: monitor_last_def should_emit_on_update_def)
      with Cons.IH [OF Cons.prems] True Some show ?thesis
        by (simp add: selected_paths_def map_filter_Cons)
    next
      case False
      have run: "monitor_step 0 m (NextPaths (Some p)) = (monitor_sent r t m, [x])"
        using Some x False Cons.prems
        by (cases l) (auto simp: monitor_last_def should_emit_on_update_def)
      have "monitor_last (monitor_sent r t m) (Some x)"
        using Cons.prems x by (simp add: monitor_last_def monitor_sent_def)
      from Cons.IH [OF this] run Some False show ?thesis
        by (cases l) (simp_all add: selected_paths_def map_filter_Cons)
    qed
  qed
qed

text \<open>
  Without a delay the monitor reports exactly the changes: the events it sends are the
  selected path's relay flag and round-trip time over all path lists, with adjacent repetitions
  removed, so nothing is sent twice in a row and no change is missed. With a delay an update is
  sent at once exactly when the path switched between relay and direct.
\<close>

theorem monitor_reports_changes:
  "spawn_path_monitor remote 0 (Some p) (map (NextPaths \<circ> Some) ps)
     = map (path_event remote) (remdups_adj (selected_paths (p # ps)))
   \<and> (\<forall>m paths r t. delay \<noteq> 0 \<and> pm_running m \<and> extract_selected_path paths = Some (r, t) \<longrightarrow>
        (snd (monitor_step delay m (NextPaths (Some paths))) = [(r, t)] \<longleftrightarrow> pm_last_is_relay m \<noteq> Some r))"
proof (intro conjI allI impI)
  obtain m out where s: "monitor_start (Some p) = (m, out)" by (cases "monitor_start (Some p)")
  define l where "l = extract_selected_path p"
  have m: "monitor_last m l" "out = (case l of None \<Rightarrow> [] | Some x \<Rightarrow> [x])"
    using s by (auto simp: monitor_start_def monitor_last_def l_def split: option.splits)
  have "selected_paths (p # ps) = out @ selected_paths ps"
    by (simp add: selected_paths_def map_filter_Cons m(2) l_def split: option.split)
  with run_without_delay [OF m(1), of ps] m(2)
  show "spawn_path_monitor remote 0 (Some p) (map (NextPaths \<circ> Some) ps)
     = map (path_event remote) (remdups_adj (selected_paths (p # ps)))"
    by (simp add: spawn_path_monitor_def s del: map_append)
qed (auto simp: should_emit_on_update_def)

definition direct_path :: "nat \<Rightarrow> conn_path" where
  "direct_path ms = \<lparr>cp_selected = True, cp_relay = False, cp_rtt = from_millis ms, cp_tx_bytes = 0, cp_rx_bytes = 0\<rparr>"

theorem monitor_reports_changes_witness:
  "\<forall>remote. spawn_path_monitor remote 0 (Some [direct_path 20]) (map (NextPaths \<circ> Some) [[direct_path 20], [direct_path 21]])
     = [PathChanged remote False 20, PathChanged remote False 21]"
proof
  fix remote
  have s: "selected_paths [[direct_path 20], [direct_path 20], [direct_path 21]] = [(False, 20), (False, 20), (False, 21)]"
    by (simp add: selected_paths_def map_filter_Cons extract_selected_path_def direct_path_def rtt_ms_def
        as_millis_def from_millis_def List.map_filter_def)
  from monitor_reports_changes [of remote "[direct_path 20]" "[[direct_path 20], [direct_path 21]]" 1]
  show "spawn_path_monitor remote 0 (Some [direct_path 20]) (map (NextPaths \<circ> Some) [[direct_path 20], [direct_path 21]])
     = [PathChanged remote False 20, PathChanged remote False 21]"
    by (simp only: s) (simp add: path_event_def)
qed

end
