(* ===== verification/Sessions.thy ===== *)
theory Sessions
  imports Sculk_Events "HOL-Library.AList"
begin

text \<open>
  \<^verbatim>\<open>core/src/tunnel/iroh/session.rs\<close> and the admission of \<^verbatim>\<open>host.rs\<close>
  (\<open>register_session_with_grace\<close>): which players are connected, one entry per endpoint, with the
  generation that tells the connection of an entry from the ones it replaced. A \<^verbatim>\<open>HashMap\<close> is an
  association list with distinct keys. The locale \<open>session_index\<close> is the contract the admission
  relies on.
\<close>

record session_entry =
  se_generation :: u64
  se_conn :: "conn_id option"

record host_sessions =
  by_id :: "(endpoint_id \<times> session_entry) list"

definition sessions_default :: host_sessions where
  "sessions_default = \<lparr>by_id = []\<rparr>"

definition session_of :: "host_sessions \<Rightarrow> endpoint_id \<Rightarrow> session_entry option" where
  "session_of s e = map_of (by_id s) e"

definition active_players :: "host_sessions \<Rightarrow> nat" where
  "active_players s = length (by_id s)"

text \<open>\<^verbatim>\<open>u32::try_from(len).unwrap_or(u32::MAX)\<close>.\<close>

definition players_u32 :: "nat \<Rightarrow> u32" where
  "players_u32 n = (if n < 2 ^ 32 then of_nat n else - 1)"

definition has_capacity_for :: "host_sessions \<Rightarrow> endpoint_id \<Rightarrow> u32 option \<Rightarrow> bool" where
  "has_capacity_for s e max_players \<longleftrightarrow>
     session_of s e \<noteq> None
     \<or> (case max_players of None \<Rightarrow> True | Some m \<Rightarrow> players_u32 (active_players s) < m)"

text \<open>\<^verbatim>\<open>upsert\<close> returns the generation, whether it is a reconnect, and the replaced connection.\<close>

definition upsert ::
  "endpoint_id \<Rightarrow> conn_id \<Rightarrow> host_sessions \<Rightarrow> (u64 \<times> bool \<times> conn_id option) \<times> host_sessions" where
  "upsert e conn s =
     (case session_of s e of
        Some entry \<Rightarrow>
          let generation = saturating_inc (se_generation entry)
          in ((generation, True, se_conn entry),
              s\<lparr>by_id := AList.update e \<lparr>se_generation = generation, se_conn = Some conn\<rparr> (by_id s)\<rparr>)
      | None \<Rightarrow>
          ((1, False, None),
           s\<lparr>by_id := AList.update e \<lparr>se_generation = 1, se_conn = Some conn\<rparr> (by_id s)\<rparr>))"

definition remove_if_current :: "endpoint_id \<Rightarrow> u64 \<Rightarrow> host_sessions \<Rightarrow> bool \<times> host_sessions" where
  "remove_if_current e generation s =
     (let is_current = (case session_of s e of None \<Rightarrow> False | Some entry \<Rightarrow> se_generation entry = generation)
      in if is_current then (True, s\<lparr>by_id := AList.delete e (by_id s)\<rparr>) else (False, s))"

definition sessions_wf :: "host_sessions \<Rightarrow> bool" where
  "sessions_wf s \<longleftrightarrow> distinct (map fst (by_id s))"

section \<open>Admission\<close>

text \<open>One look at the index under its lock: generation, reconnect, replaced connection, players.\<close>

definition register_attempt ::
  "endpoint_id \<Rightarrow> conn_id \<Rightarrow> u32 option \<Rightarrow> host_sessions
     \<Rightarrow> (u64 \<times> bool \<times> conn_id option \<times> nat) option \<times> host_sessions" where
  "register_attempt e conn max_players s =
     (if has_capacity_for s e max_players then
        (case upsert e conn s of
           ((generation, is_reconnect, old), s') \<Rightarrow>
             (Some (generation, is_reconnect, old, active_players s'), s'))
      else (None, s))"

text \<open>
  A full Host is looked at once more after \<open>FULL_RECHECK_DELAY\<close>: \<open>later\<close> is what other tasks have
  made of the index by then, and the two flags whether its mutex is poisoned at each look.
\<close>

definition register_session_with_grace ::
  "bool \<Rightarrow> bool \<Rightarrow> (host_sessions \<Rightarrow> host_sessions) \<Rightarrow> endpoint_id \<Rightarrow> conn_id \<Rightarrow> u32 option \<Rightarrow> host_sessions
     \<Rightarrow> (sculk_error + (u64 \<times> bool \<times> conn_id option \<times> nat) option) \<times> host_sessions" where
  "register_session_with_grace poisoned poisoned_later later e conn max_players s =
     (case lock_mutex poisoned ''host sessions'' s of
        Inl err \<Rightarrow> (Inl err, s)
      | Inr guard \<Rightarrow>
          (case register_attempt e conn max_players guard of
             (Some r, s') \<Rightarrow> (Inr (Some r), s')
           | (None, s') \<Rightarrow>
               (case lock_mutex poisoned_later ''host sessions'' (later s') of
                  Inl err \<Rightarrow> (Inl err, later s')
                | Inr guard' \<Rightarrow>
                    (case register_attempt e conn max_players guard' of (r, s'') \<Rightarrow> (Inr r, s'')))))"

section \<open>What the operations do\<close>

lemma length_update:
  "length (AList.update k v al) = (if map_of al k = None then Suc (length al) else length al)"
  by (induction al) auto

lemma length_delete:
  assumes "distinct (map fst al)" "map_of al k \<noteq> None"
  shows "length (AList.delete k al) = length al - 1"
proof -
  have "length (AList.delete k al) = length (remove1 k (map fst al))"
    using delete_keys [of k al] assms(1) by (metis distinct_remove1_removeAll length_map)
  moreover have "k \<in> set (map fst al)" using assms(2) by (simp add: map_of_eq_None_iff)
  ultimately show ?thesis by (simp add: length_remove1)
qed

lemma upsert_session_of:
  "session_of (snd (upsert e c s)) e' =
     (if e' = e then Some \<lparr>se_generation = fst (fst (upsert e c s)), se_conn = Some c\<rparr> else session_of s e')"
  by (auto simp: upsert_def session_of_def Let_def update_conv' split: option.splits)

lemma upsert_active:
  "active_players (snd (upsert e c s)) =
     (if session_of s e = None then Suc (active_players s) else active_players s)"
  by (auto simp: upsert_def session_of_def active_players_def Let_def length_update split: option.splits)

lemma upsert_wf: "sessions_wf s \<Longrightarrow> sessions_wf (snd (upsert e c s))"
  by (auto simp: sessions_wf_def upsert_def Let_def distinct_update split: option.splits)

lemma remove_session_of:
  "session_of (snd (remove_if_current e g s)) e' =
     (if fst (remove_if_current e g s) \<and> e' = e then None else session_of s e')"
  by (auto simp: remove_if_current_def session_of_def Let_def delete_conv' split: option.splits)

lemma remove_fst: "fst (remove_if_current e g s) \<longleftrightarrow> (\<exists>c. session_of s e = Some \<lparr>se_generation = g, se_conn = c\<rparr>)"
  by (auto simp: remove_if_current_def Let_def split: option.splits) (metis session_entry.surjective old.unit.exhaust)

lemma remove_wf: "sessions_wf s \<Longrightarrow> sessions_wf (snd (remove_if_current e g s))"
  by (auto simp: sessions_wf_def remove_if_current_def Let_def distinct_delete split: option.splits)

lemma remove_active:
  "sessions_wf s \<Longrightarrow> active_players (snd (remove_if_current e g s)) =
     (if fst (remove_if_current e g s) then active_players s - 1 else active_players s)"
  by (auto simp: sessions_wf_def remove_if_current_def active_players_def session_of_def Let_def length_delete
      split: option.splits)

lemma capacity_bound:
  "has_capacity_for s e (Some m) \<Longrightarrow> session_of s e \<noteq> None \<or> active_players s < unat m"
  using unat_le_max [of m]
  by (auto simp: has_capacity_for_def players_u32_def word_less_nat_alt unat_of_nat take_bit_eq_mod split: if_splits)

section \<open>The contract of a session index\<close>

text \<open>
  What an admission relies on: at most one entry per key, looking up after putting and dropping,
  and a count that grows only when a new key is put. Bounded admission follows from it.
\<close>

locale session_index =
  fixes find :: "'s \<Rightarrow> 'k \<Rightarrow> 'v option"
    and count :: "'s \<Rightarrow> nat"
    and wf :: "'s \<Rightarrow> bool"
    and insert_entry :: "'k \<Rightarrow> 'c \<Rightarrow> 's \<Rightarrow> 's"
    and drop_entry :: "'k \<Rightarrow> 'g \<Rightarrow> 's \<Rightarrow> 's"
  assumes insert_wf: "wf s \<Longrightarrow> wf (insert_entry k c s)"
    and drop_wf: "wf s \<Longrightarrow> wf (drop_entry k g s)"
    and find_insert: "find (insert_entry k c s) k \<noteq> None"
    and find_insert_other: "k' \<noteq> k \<Longrightarrow> find (insert_entry k c s) k' = find s k'"
    and find_drop_other: "k' \<noteq> k \<Longrightarrow> find (drop_entry k g s) k' = find s k'"
    and count_insert: "count (insert_entry k c s) = (if find s k = None then Suc (count s) else count s)"
    and count_drop: "wf s \<Longrightarrow> count (drop_entry k g s) \<le> count s"
begin

definition bounded :: "nat \<Rightarrow> 's \<Rightarrow> bool" where
  "bounded m s \<longleftrightarrow> wf s \<and> count s \<le> m"

lemma bounded_insert:
  "bounded m s \<Longrightarrow> find s k \<noteq> None \<or> count s < m \<Longrightarrow> bounded m (insert_entry k c s)"
  by (auto simp: bounded_def insert_wf count_insert)

lemma bounded_drop: "bounded m s \<Longrightarrow> bounded m (drop_entry k g s)"
  using count_drop drop_wf by (auto simp: bounded_def intro: order_trans)

lemma insert_again: "count (insert_entry k c' (insert_entry k c s)) = count (insert_entry k c s)"
  using find_insert by (simp add: count_insert)

end

interpretation sessions: session_index session_of active_players sessions_wf
    "\<lambda>e c s. snd (upsert e c s)" "\<lambda>e g s. snd (remove_if_current e g s)"
  by unfold_locales
    (auto simp: upsert_wf remove_wf upsert_session_of remove_session_of upsert_active remove_active)

section \<open>Properties\<close>

text \<open>
  The operations of one Host's index in any order: a task looks for capacity and registers, or a
  connection that was given generation \<open>g\<close> closes.
\<close>

datatype session_op = SessionRegister endpoint_id conn_id | SessionClosed endpoint_id u64

fun session_step :: "u32 option \<Rightarrow> host_sessions \<Rightarrow> session_op \<Rightarrow> host_sessions" where
  "session_step max_players s (SessionRegister e c) = snd (register_attempt e c max_players s)"
| "session_step max_players s (SessionClosed e g) = snd (remove_if_current e g s)"

lemma register_attempt_bounded:
  "sessions.bounded (unat m) s \<Longrightarrow> sessions.bounded (unat m) (snd (register_attempt e c (Some m) s))"
  using sessions.bounded_insert [of "unat m" s e c] capacity_bound [of s e m]
  by (auto simp: register_attempt_def split: prod.splits)

interpretation session_bound: invariant_system "\<lambda>s. s = sessions_default" "session_step (Some m)"
    "sessions.bounded (unat m)" for m
proof unfold_locales
  show "s = sessions_default \<Longrightarrow> sessions.bounded (unat m) s" for s
    by (simp add: sessions.bounded_def sessions_default_def sessions_wf_def active_players_def)
  show "sessions.bounded (unat m) s \<Longrightarrow> sessions.bounded (unat m) (session_step (Some m) s l)" for s l
    by (cases l) (auto intro: register_attempt_bounded sessions.bounded_drop)
qed

text \<open>
  C8. A Host never has more players than its limit: whatever sequence of registrations and closed
  connections happens, concurrent ones included since each is one look under the lock, the
  players of distinct endpoints are at most \<^verbatim>\<open>max_players\<close>, and a player who is already there is
  always admitted again.
\<close>

theorem players_never_exceed_limit:
  "active_players (run_steps (session_step (Some m)) sessions_default ops) \<le> unat m
   \<and> (session_of s e \<noteq> None \<longrightarrow> fst (register_attempt e c (Some m) s) \<noteq> None)
   \<and> fst (register_attempt e c None s) \<noteq> None"
proof (intro conjI impI)
  have "sessions.bounded (unat m) (run_steps (session_step (Some m)) sessions_default ops)"
    by (rule session_bound.inv_reachable) (rule refl)
  then show "active_players (run_steps (session_step (Some m)) sessions_default ops) \<le> unat m"
    by (simp add: sessions.bounded_def)
qed (auto simp: register_attempt_def has_capacity_for_def split: prod.splits)

text \<open>
  C36. A reconnect replaces the session instead of adding a player: the entry gets a new
  generation and the new connection, the old one is handed back to be closed, and of all close
  notifications only the one of the registration just made removes the entry; the notification of
  the replaced connection, whose generation is smaller, is ignored.
\<close>

theorem reconnect_replaces_session:
  assumes "session_of s e = Some entry" and "se_generation entry \<noteq> - 1"
    and "upsert e c s = ((g, r, old), s')"
  shows "r \<and> old = se_conn entry \<and> se_generation entry < g
    \<and> active_players s' = active_players s
    \<and> remove_if_current e (se_generation entry) s' = (False, s')
    \<and> (\<forall>g'. fst (remove_if_current e g' s') \<longleftrightarrow> g' = g)"
proof -
  have g: "g = saturating_inc (se_generation entry)" "r" "old = se_conn entry"
    using assms by (auto simp: upsert_def Let_def)
  have cur: "session_of s' e = Some \<lparr>se_generation = g, se_conn = Some c\<rparr>"
    using upsert_session_of [of e c s e] assms(3) by simp
  have "unat g = Suc (unat (se_generation entry))"
    using assms(2) unat_le_max [of "se_generation entry"] unat_max_iff [of "se_generation entry"]
    by (simp add: g unat_saturating_inc)
  then have less: "se_generation entry < g" by (simp add: word_less_nat_alt)
  then have "remove_if_current e (se_generation entry) s' = (False, s')"
    using cur by (auto simp: remove_if_current_def)
  moreover have "active_players s' = active_players s"
    using upsert_active [of e c s] assms(1,3) by simp
  ultimately show ?thesis using g less cur by (auto simp: remove_fst)
qed

theorem players_never_exceed_limit_witness:
  "active_players (run_steps (session_step (Some 1)) sessions_default
     [SessionRegister (endpoint_filled 1) 10, SessionRegister (endpoint_filled 2) 11]) \<le> 1"
  using players_never_exceed_limit [of 1 "[SessionRegister (endpoint_filled 1) 10, SessionRegister (endpoint_filled 2) 11]"]
  by (simp del: run_steps.simps)

theorem reconnect_replaces_session_witness:
  "remove_if_current (endpoint_filled 1) 1 (snd (upsert (endpoint_filled 1) 11 (snd (upsert (endpoint_filled 1) 10 sessions_default))))
   = (False, snd (upsert (endpoint_filled 1) 11 (snd (upsert (endpoint_filled 1) 10 sessions_default))))"
proof -
  define s where "s = snd (upsert (endpoint_filled 1) 10 sessions_default)"
  have "session_of s (endpoint_filled 1) = Some \<lparr>se_generation = 1, se_conn = Some 10\<rparr>"
    by (simp add: s_def upsert_session_of) (simp add: upsert_def sessions_default_def session_of_def)
  moreover obtain g r old s' where u: "upsert (endpoint_filled 1) 11 s = ((g, r, old), s')"
    by (metis prod.exhaust)
  ultimately show ?thesis
    using reconnect_replaces_session [of s "endpoint_filled 1" _ 11 g r old s'] by (simp add: s_def [symmetric])
qed

text \<open>
  After a removal the generations start again at 1. A notification that was still pending for a
  removed first connection would therefore match a later first connection of the same endpoint.
\<close>

lemma generation_restarts:
  assumes "session_of s e = None"
  shows "fst (fst (upsert e c s)) = 1"
    and "fst (remove_if_current e 1 (snd (upsert e c s)))"
  using assms by (simp_all add: upsert_def remove_fst upsert_session_of)
    (simp add: upsert_def session_of_def update_conv')

end
