(* ===== verification/Hosted_Status.thy ===== *)
theory Hosted_Status
  imports Token_Policy Sculk_Events
begin

text \<open>
  The status of a published service (\<^verbatim>\<open>core/src/tunnel/iroh/node.rs\<close>, \<^verbatim>\<open>HostedStatus\<close>): a value
  behind a mutex and the watch channel it is published on, changed together by \<open>status_update\<close>;
  the guard that counts bridges; and the subscription. A \<^verbatim>\<open>usize\<close> is 64 bits.
\<close>

datatype hosted_service_phase = Active | Stopping | Stopped

text \<open>The phases in the order of a service's life.\<close>

fun phase_rank :: "hosted_service_phase \<Rightarrow> nat" where
  "phase_rank Active = 0"
| "phase_rank Stopping = 1"
| "phase_rank Stopped = 2"

lemma phase_rank_inj: "phase_rank a = phase_rank b \<Longrightarrow> a = b"
  by (cases a; cases b) simp_all

instantiation hosted_service_phase :: linorder
begin

definition less_eq_hosted_service_phase :: "hosted_service_phase \<Rightarrow> hosted_service_phase \<Rightarrow> bool" where
  "less_eq_hosted_service_phase a b \<longleftrightarrow> phase_rank a \<le> phase_rank b"

definition less_hosted_service_phase :: "hosted_service_phase \<Rightarrow> hosted_service_phase \<Rightarrow> bool" where
  "less_hosted_service_phase a b \<longleftrightarrow> phase_rank a < phase_rank b"

instance
proof
  fix x y z :: hosted_service_phase
  show "x < y \<longleftrightarrow> x \<le> y \<and> \<not> y \<le> x"
    by (auto simp: less_eq_hosted_service_phase_def less_hosted_service_phase_def)
  show "x \<le> x" by (simp add: less_eq_hosted_service_phase_def)
  show "x \<le> y \<Longrightarrow> y \<le> z \<Longrightarrow> x \<le> z" by (simp add: less_eq_hosted_service_phase_def)
  show "x \<le> y \<Longrightarrow> y \<le> x \<Longrightarrow> x = y" by (simp add: less_eq_hosted_service_phase_def phase_rank_inj)
  show "x \<le> y \<or> y \<le> x" by (auto simp: less_eq_hosted_service_phase_def)
qed

end

lemma phase_le_simps [simp]:
  "Active \<le> p" "p \<le> Stopped" "Stopping \<le> p \<longleftrightarrow> p \<noteq> Active" "p \<le> Active \<longleftrightarrow> p = Active"
  by (cases p; simp add: less_eq_hosted_service_phase_def)+

record hosted_service_status =
  st_service_id :: service_id
  st_phase :: hosted_service_phase
  st_uri_generation :: u64
  st_token_created_at :: system_time
  st_next_rotation_at :: "system_time option"
  st_connection_count :: u64
  st_bridge_count :: u64
  st_last_error :: "error_category option"

text \<open>\<open>hs_version\<close> counts the changes the watch channel has published.\<close>

record hosted_status =
  hx_current :: hosted_service_status
  hx_published :: hosted_service_status
  hx_version :: nat

definition hosted_status_new ::
  "service_id \<Rightarrow> system_time \<Rightarrow> system_time option \<Rightarrow> hosted_status" where
  "hosted_status_new sid created next_at =
     (let initial = \<lparr>st_service_id = sid, st_phase = Active, st_uri_generation = 1,
                     st_token_created_at = created, st_next_rotation_at = next_at,
                     st_connection_count = 0, st_bridge_count = 0, st_last_error = None\<rparr>
      in \<lparr>hx_current = initial, hx_published = initial, hx_version = 0\<rparr>)"

definition status_update ::
  "(hosted_service_status \<Rightarrow> hosted_service_status) \<Rightarrow> hosted_status \<Rightarrow> hosted_status" where
  "status_update change h =
     (let status = change (hx_current h)
      in h\<lparr>hx_current := status, hx_published := status, hx_version := Suc (hx_version h)\<rparr>)"

definition status_snapshot :: "hosted_status \<Rightarrow> hosted_service_status" where
  "status_snapshot h = hx_current h"

definition set_phase :: "hosted_service_phase \<Rightarrow> hosted_status \<Rightarrow> hosted_status" where
  "set_phase p = status_update (\<lambda>s. s\<lparr>st_phase := p\<rparr>)"

definition set_connection_count :: "u64 \<Rightarrow> hosted_status \<Rightarrow> hosted_status" where
  "set_connection_count n = status_update (\<lambda>s. s\<lparr>st_connection_count := n\<rparr>)"

definition bridge_started :: "hosted_status \<Rightarrow> hosted_status" where
  "bridge_started = status_update (\<lambda>s. s\<lparr>st_bridge_count := saturating_inc (st_bridge_count s)\<rparr>)"

definition bridge_dropped :: "hosted_status \<Rightarrow> hosted_status" where
  "bridge_dropped = status_update (\<lambda>s. s\<lparr>st_bridge_count := saturating_dec (st_bridge_count s)\<rparr>)"

definition set_error :: "error_category \<Rightarrow> hosted_status \<Rightarrow> hosted_status" where
  "set_error c = status_update (\<lambda>s. s\<lparr>st_last_error := Some c\<rparr>)"

definition rotate_uri :: "system_time \<Rightarrow> system_time option \<Rightarrow> hosted_status \<Rightarrow> hosted_status" where
  "rotate_uri created next_at = status_update (\<lambda>s.
     s\<lparr>st_uri_generation := saturating_inc (st_uri_generation s),
       st_token_created_at := created, st_next_rotation_at := next_at\<rparr>)"

lemmas status_ops = set_phase_def set_connection_count_def bridge_started_def bridge_dropped_def
  set_error_def rotate_uri_def

text \<open>The published value is never older than the current one.\<close>

definition status_synced :: "hosted_status \<Rightarrow> bool" where
  "status_synced h \<longleftrightarrow> hx_published h = hx_current h"

lemma status_synced_new: "status_synced (hosted_status_new sid created next_at)"
  by (simp add: status_synced_def hosted_status_new_def Let_def)

lemma status_synced_update: "status_synced (status_update f h)"
  by (simp add: status_synced_def status_update_def Let_def)

lemma status_current_simps [simp]:
  "hx_current (set_phase p h) = (hx_current h)\<lparr>st_phase := p\<rparr>"
  "hx_current (set_connection_count n h) = (hx_current h)\<lparr>st_connection_count := n\<rparr>"
  "hx_current (bridge_started h) =
     (hx_current h)\<lparr>st_bridge_count := saturating_inc (st_bridge_count (hx_current h))\<rparr>"
  "hx_current (bridge_dropped h) =
     (hx_current h)\<lparr>st_bridge_count := saturating_dec (st_bridge_count (hx_current h))\<rparr>"
  "hx_current (set_error c h) = (hx_current h)\<lparr>st_last_error := Some c\<rparr>"
  "hx_current (rotate_uri t d h) = (hx_current h)
     \<lparr>st_uri_generation := saturating_inc (st_uri_generation (hx_current h)),
      st_token_created_at := t, st_next_rotation_at := d\<rparr>"
  by (simp_all add: status_ops status_update_def Let_def)

section \<open>Bridges\<close>

text \<open>
  A bridge counts while its guard lives: started and dropped guards, in the order they happen,
  every guard dropped at most once. Below the largest \<^verbatim>\<open>usize\<close> the count is the number alive.
\<close>

datatype bridge_op = BridgeStart | BridgeEnd

fun bridge_apply :: "hosted_status \<Rightarrow> bridge_op \<Rightarrow> hosted_status" where
  "bridge_apply h BridgeStart = bridge_started h"
| "bridge_apply h BridgeEnd = bridge_dropped h"

fun bridges_alive :: "nat \<Rightarrow> bridge_op list \<Rightarrow> nat option" where
  "bridges_alive n [] = Some n"
| "bridges_alive n (BridgeStart # ops) = (if n < 2 ^ 64 - 1 then bridges_alive (Suc n) ops else None)"
| "bridges_alive n (BridgeEnd # ops) = (if 0 < n then bridges_alive (n - 1) ops else None)"

lemma bridge_count_exact:
  "bridges_alive (unat (st_bridge_count (hx_current h))) ops = Some n \<Longrightarrow>
     unat (st_bridge_count (hx_current (run_steps bridge_apply h ops))) = n"
proof (induction ops arbitrary: h)
  case (Cons op ops)
  show ?case
  proof (cases op)
    case BridgeStart
    with Cons.prems have lt: "unat (st_bridge_count (hx_current h)) < 2 ^ 64 - 1"
      and rest: "bridges_alive (Suc (unat (st_bridge_count (hx_current h)))) ops = Some n"
      by (auto split: if_splits)
    from lt have "unat (st_bridge_count (hx_current (bridge_started h))) = Suc (unat (st_bridge_count (hx_current h)))"
      by (simp add: unat_saturating_inc)
    with Cons.IH [of "bridge_started h"] rest BridgeStart show ?thesis by simp
  next
    case BridgeEnd
    with Cons.prems have pos: "0 < unat (st_bridge_count (hx_current h))"
      and rest: "bridges_alive (unat (st_bridge_count (hx_current h)) - 1) ops = Some n"
      by (auto split: if_splits)
    from pos have "unat (st_bridge_count (hx_current (bridge_dropped h))) = unat (st_bridge_count (hx_current h)) - 1"
      by (auto simp: saturating_dec_def unat_minus_one)
    with Cons.IH [of "bridge_dropped h"] rest BridgeEnd show ?thesis by simp
  qed
qed simp

section \<open>Subscriptions\<close>

text \<open>
  \<^verbatim>\<open>HostedServiceStatusSubscription::recv\<close>: the current status first, then one per change seen.
  \<open>None\<close> in the outer option is waiting, in the inner one the end of the stream.
\<close>

record status_subscription =
  ss_seen :: nat
  ss_initial_pending :: bool

definition status_subscribe :: "hosted_status \<Rightarrow> status_subscription" where
  "status_subscribe h = \<lparr>ss_seen = hx_version h, ss_initial_pending = True\<rparr>"

definition status_recv ::
  "hosted_status \<Rightarrow> bool \<Rightarrow> status_subscription
     \<Rightarrow> hosted_service_status option option \<times> status_subscription" where
  "status_recv h sender_alive s =
     (if ss_initial_pending s then (Some (Some (hx_published h)), s\<lparr>ss_initial_pending := False\<rparr>)
      else if ss_seen s \<noteq> hx_version h then
        (Some (Some (hx_published h)), s\<lparr>ss_seen := hx_version h\<rparr>)
      else if \<not> sender_alive then (Some None, s)
      else (None, s))"

end
