(* ===== verification/Control_Auth.thy ===== *)
theory Control_Auth
  imports Sculk_Events Sculk_Codec
begin

text \<open>
  \<^verbatim>\<open>core/src/tunnel/iroh/auth.rs\<close>: the control stream on which a Join names a service and a
  token and the Host answers with one byte. What the calls on the QUIC streams return are the
  records \<open>join_stream\<close> and \<open>host_stream\<close>; an operation returns its result and the bytes it
  wrote. The 49-byte request is a canonical codec.
\<close>

definition CONTROL_VERSION :: u8 where "CONTROL_VERSION = 0x01"
definition CONTROL_REQUEST_LEN :: nat where "CONTROL_REQUEST_LEN = 1 + 16 + 32"
definition CONTROL_OK :: u8 where "CONTROL_OK = 0x00"
definition CONTROL_REJECTED :: u8 where "CONTROL_REJECTED = 0x01"

record control_request =
  cq_service_id :: service_id
  cq_token :: access_token

section \<open>The request\<close>

definition encode_request :: "control_request \<Rightarrow> bytes" where
  "encode_request r = CONTROL_VERSION # service_bytes (cq_service_id r) @ token_bytes (cq_token r)"

text \<open>The checks of \<open>auth_accept\<close> on the data it read; every failure is the same rejection.\<close>

definition decode_request :: "bytes \<Rightarrow> tunnel_error + control_request" where
  "decode_request d =
     (if length d \<noteq> CONTROL_REQUEST_LEN \<or> d ! 0 \<noteq> CONTROL_VERSION then Inl AuthRejectedByHost
      else and_then (ok_or AuthRejectedByHost (service_of_slice (slice 1 17 d))) (\<lambda>s.
           and_then (ok_or AuthRejectedByHost (token_of_slice (slice 17 49 d))) (\<lambda>t.
             Inr \<lparr>cq_service_id = s, cq_token = t\<rparr>)))"

lemma decode_encode_request: "decode_request (encode_request r) = Inr r"
  by (simp add: decode_request_def encode_request_def CONTROL_REQUEST_LEN_def CONTROL_VERSION_def codec_simps)

lemma encode_decode_request: "decode_request d = Inr r \<Longrightarrow> encode_request r = d"
proof -
  assume h: "decode_request d = Inr r"
  then have len: "length d = 49" and v: "d ! 0 = 1"
    by (auto simp: decode_request_def CONTROL_REQUEST_LEN_def CONTROL_VERSION_def split: if_splits)
  then have "d = hd d # drop 1 d" by (cases d) auto
  moreover have "drop 1 d = slice 1 17 d @ drop 17 d" by (rule slice_split) simp
  moreover have "drop 17 d = slice 17 49 d @ drop 49 d" by (rule slice_split) simp
  ultimately have d: "d = hd d # slice 1 17 d @ slice 17 49 d" using len by simp
  have "hd d = 1" using v len by (cases d) auto
  moreover have "slice 1 17 d = service_bytes (cq_service_id r)" "slice 17 49 d = token_bytes (cq_token r)"
    using h by (auto simp: decode_request_def and_then_Inr codec_simps split: if_splits)
  ultimately show ?thesis using d by (simp add: encode_request_def CONTROL_VERSION_def)
qed

lemma encode_request_length: "length (encode_request r) = CONTROL_REQUEST_LEN"
  by (simp add: encode_request_def CONTROL_REQUEST_LEN_def)

interpretation request_codec: fixed_codec encode_request decode_request "\<lambda>_. True" CONTROL_REQUEST_LEN
  by unfold_locales
    (simp_all add: decode_encode_request encode_decode_request encode_request_length)

section \<open>The Join side\<close>

text \<open>\<^verbatim>\<open>read_to_end(limit)\<close>: more bytes than the limit are an error.\<close>

definition read_to_end :: "nat \<Rightarrow> box_error + bytes \<Rightarrow> box_error + bytes" where
  "read_to_end limit r =
     and_then r (\<lambda>d. if length d > limit then Inl (BoxOther ''stream too long'') else Inr d)"

lemma read_to_end_Inr: "read_to_end n r = Inr d \<longleftrightarrow> r = Inr d \<and> length d \<le> n"
  by (cases r) (auto simp: read_to_end_def)

record join_stream =
  js_open :: "box_error + unit"
  js_write :: "box_error + unit"
  js_finish :: "box_error + unit"
  js_read :: "box_error + bytes"
  js_close_reason :: "close_reason option"

definition auth_send_inner ::
  "join_stream \<Rightarrow> service_id \<Rightarrow> access_token \<Rightarrow> (sculk_error + unit) \<times> bytes" where
  "auth_send_inner io service token =
     (let request = encode_request \<lparr>cq_service_id = service, cq_token = token\<rparr>
      in case js_open io of
        Inl e \<Rightarrow> (Inl (TunnelErr (OpenAuthStream e)), [])
      | Inr _ \<Rightarrow> case js_write io of
          Inl e \<Rightarrow> (Inl (TunnelErr (WriteAuthPayload e)), [])
        | Inr _ \<Rightarrow> case js_finish io of
            Inl e \<Rightarrow> (Inl (TunnelErr (FinishAuthStream e)), request)
          | Inr _ \<Rightarrow> case read_to_end 1 (js_read io) of
              Inl e \<Rightarrow>
                (case js_close_reason io of
                   Some r \<Rightarrow>
                     if is_auth_failure_close r then (Inl (TunnelErr AuthRejectedByHost), request)
                     else (Inl (TunnelErr (ReadAuthResult e)), request)
                 | None \<Rightarrow> (Inl (TunnelErr (ReadAuthResult e)), request))
            | Inr result \<Rightarrow>
                if result = [CONTROL_OK] then (Inr (), request)
                else (Inl (TunnelErr AuthRejectedByHost), request))"

text \<open>\<open>timed_out\<close> is what had been written when \<^verbatim>\<open>AUTH_TIMEOUT\<close> elapsed, if it did.\<close>

definition auth_send ::
  "bytes option \<Rightarrow> join_stream \<Rightarrow> service_id \<Rightarrow> access_token \<Rightarrow> (sculk_error + unit) \<times> bytes" where
  "auth_send timed_out io service token =
     (case timed_out of
        Some written \<Rightarrow> (Inl (TunnelErr AuthTimedOut), written)
      | None \<Rightarrow> auth_send_inner io service token)"

section \<open>The Host side\<close>

text \<open>
  \<open>as_accept\<close> is the index of the first stream, \<open>as_extra\<close> what a second \<^verbatim>\<open>accept_bi\<close> returns if
  it is ready before the request has been read (the select is biased towards it).
\<close>

record host_stream =
  as_accept :: "box_error + nat"
  as_extra :: "(box_error + unit) option"
  as_read :: "box_error + bytes"
  as_write :: "box_error + unit"
  as_finish :: "box_error + unit"

definition auth_respond :: "host_stream \<Rightarrow> bool \<Rightarrow> (sculk_error + unit) \<times> bytes" where
  "auth_respond io valid =
     (case as_write io of
        Inl e \<Rightarrow> (Inl (TunnelErr (WriteAuthDecision e)), [])
      | Inr _ \<Rightarrow>
          (case as_finish io of
             Inl e \<Rightarrow> Inl (TunnelErr (FinishAuthStream e))
           | Inr _ \<Rightarrow> Inr (),
           [if valid then CONTROL_OK else CONTROL_REJECTED]))"

text \<open>A rejection while accepting: respond, and report the rejection if that worked.\<close>

definition auth_refuse :: "host_stream \<Rightarrow> (sculk_error + 'a) \<times> bytes" where
  "auth_refuse io =
     (case auth_respond io False of
        (Inl e, w) \<Rightarrow> (Inl e, w)
      | (Inr _, w) \<Rightarrow> (Inl (TunnelErr AuthRejectedByHost), w))"

definition auth_accept :: "host_stream \<Rightarrow> (sculk_error + control_request) \<times> bytes" where
  "auth_accept io =
     (case as_accept io of
        Inl e \<Rightarrow> (Inl (TunnelErr (AcceptAuthStream e)), [])
      | Inr idx \<Rightarrow>
          if idx \<noteq> 0 then auth_refuse io
          else case as_extra io of
            Some (Inl e) \<Rightarrow> (Inl (TunnelErr (AcceptAuthStream e)), [])
          | Some (Inr _) \<Rightarrow> auth_refuse io
          | None \<Rightarrow>
              (case read_to_end CONTROL_REQUEST_LEN (as_read io) of
                 Inl e \<Rightarrow> (Inl (TunnelErr (ReadAuthPayload e)), [])
               | Inr d \<Rightarrow>
                   (case decode_request d of
                      Inl _ \<Rightarrow> auth_refuse io
                    | Inr r \<Rightarrow> (Inr r, []))))"

definition auth_verify_inner ::
  "crates \<Rightarrow> host_stream \<Rightarrow> service_id \<Rightarrow> access_token \<Rightarrow> (sculk_error + bool) \<times> bytes" where
  "auth_verify_inner X io service token =
     (case auth_accept io of
        (Inl e, w) \<Rightarrow> (Inl e, w)
      | (Inr r, _) \<Rightarrow>
          let valid = (cq_service_id r = service \<and> token_matches X (cq_token r) token)
          in case auth_respond io valid of
               (Inl e, w) \<Rightarrow> (Inl e, w)
             | (Inr _, w) \<Rightarrow> (Inr valid, w))"

definition auth_verify ::
  "crates \<Rightarrow> bytes option \<Rightarrow> host_stream \<Rightarrow> service_id \<Rightarrow> access_token \<Rightarrow> (sculk_error + bool) \<times> bytes" where
  "auth_verify X timed_out io service token =
     (case timed_out of
        Some written \<Rightarrow> (Inl (TunnelErr AuthTimedOut), written)
      | None \<Rightarrow> auth_verify_inner X io service token)"

section \<open>Properties\<close>

text \<open>A stream that delivers the request \<open>d\<close> and accepts the answer.\<close>

definition request_stream :: "bytes \<Rightarrow> host_stream" where
  "request_stream d = \<lparr>as_accept = Inr 0, as_extra = None, as_read = Inr d, as_write = Inr (), as_finish = Inr ()\<rparr>"

definition answer_stream :: "bytes \<Rightarrow> join_stream" where
  "answer_stream w = \<lparr>js_open = Inr (), js_write = Inr (), js_finish = Inr (), js_read = Inr w, js_close_reason = None\<rparr>"

lemma auth_respond_ok: "auth_respond (request_stream d) valid = (Inr (), [if valid then 0 else 1])"
  by (simp add: auth_respond_def request_stream_def CONTROL_OK_def CONTROL_REJECTED_def)

lemma auth_accept_request: "auth_accept (request_stream (encode_request r)) = (Inr r, [])"
  by (simp add: auth_accept_def request_stream_def read_to_end_def request_codec.encode_length
      decode_encode_request)

lemma auth_verify_request:
  "auth_verify_inner X (request_stream (encode_request r)) service token =
     (let valid = (cq_service_id r = service \<and> token_matches X (cq_token r) token)
      in (Inr valid, [if valid then 0 else 1]))"
  by (simp add: auth_verify_inner_def auth_accept_request auth_respond_ok Let_def)

text \<open>
  C9. The handshake authenticates: when both sides' streams deliver what is written, the Join's
  call succeeds exactly when the Host verified it, which is exactly when the Join named the
  Host's service and holds the Host's token; otherwise the Join is told it was rejected.
\<close>

theorem handshake_authenticates:
  assumes "ct_eq_law X"
    and "auth_send None (answer_stream answer) service token = (outcome, request)"
    and "auth_verify X None (request_stream request) host_service host_token = (verdict, answer)"
  shows "verdict = Inr (service = host_service \<and> token = host_token)
    \<and> outcome = (if service = host_service \<and> token = host_token then Inr ()
                 else Inl (TunnelErr AuthRejectedByHost))"
proof -
  define r where "r = \<lparr>cq_service_id = service, cq_token = token\<rparr>"
  have send: "auth_send_inner (answer_stream answer) service token
      = (if length answer > 1 then Inl (TunnelErr (ReadAuthResult (BoxOther ''stream too long'')))
         else if answer = [CONTROL_OK] then Inr () else Inl (TunnelErr AuthRejectedByHost), encode_request r)"
    by (simp add: auth_send_inner_def answer_stream_def read_to_end_def r_def)
  with assms(2) have "request = encode_request r" by (simp add: auth_send_def)
  with assms(3) have v: "verdict = Inr (service = host_service \<and> token = host_token)"
    "answer = [if service = host_service \<and> token = host_token then 0 else 1]"
    by (auto simp: auth_verify_def auth_verify_request r_def Let_def token_matches_iff [OF assms(1)])
  with send assms(2) show ?thesis by (auto simp: auth_send_def CONTROL_OK_def)
qed

text \<open>
  The control request is parsed strictly: the Host reads a request from the control stream
  exactly when it is the first stream, no second stream was opened, and the data is the 49-byte
  encoding of that request; and it never answers anything but one decision byte, which says
  accepted only for a matching service and token.
\<close>

theorem host_accepts_only_valid_requests:
  "(fst (auth_accept io) = Inr r \<longleftrightarrow>
      as_accept io = Inr 0 \<and> as_extra io = None \<and> as_read io = Inr (encode_request r))
   \<and> snd (auth_verify_inner X io service token) \<in> {[], [CONTROL_OK], [CONTROL_REJECTED]}
   \<and> (snd (auth_verify_inner X io service token) = [CONTROL_OK] \<longrightarrow>
        (\<exists>r. fst (auth_accept io) = Inr r \<and> cq_service_id r = service \<and> token_matches X (cq_token r) token))"
proof (intro conjI)
  have refuse: "fst (auth_refuse io :: (sculk_error + control_request) \<times> bytes) \<noteq> Inr r"
    "snd (auth_refuse io :: (sculk_error + control_request) \<times> bytes) \<in> {[], [CONTROL_REJECTED]}" for r
    by (auto simp: auth_refuse_def auth_respond_def split: sum.splits prod.splits)
  have dec: "read_to_end CONTROL_REQUEST_LEN (as_read io) = Inr d \<and> decode_request d = Inr r \<longleftrightarrow>
      as_read io = Inr d \<and> d = encode_request r" for d r
    using encode_decode_request [of d r] decode_encode_request [of r] request_codec.encode_length [of r]
    by (auto simp: read_to_end_Inr)
  show "fst (auth_accept io) = Inr r \<longleftrightarrow>
      as_accept io = Inr 0 \<and> as_extra io = None \<and> as_read io = Inr (encode_request r)"
  proof -
    have "fst (auth_accept io) = Inr r \<longleftrightarrow> as_accept io = Inr 0 \<and> as_extra io = None
        \<and> (\<exists>d. read_to_end CONTROL_REQUEST_LEN (as_read io) = Inr d \<and> decode_request d = Inr r)"
      using refuse(1) unfolding auth_accept_def by (auto split: sum.splits option.splits)
    then show ?thesis unfolding dec by simp
  qed
  have acc: "snd (auth_accept io) \<in> {[], [CONTROL_REJECTED]}"
    using refuse(2) unfolding auth_accept_def by (auto split: sum.splits option.splits)
  have ne: "CONTROL_OK \<noteq> CONTROL_REJECTED" by (simp add: CONTROL_OK_def CONTROL_REJECTED_def)
  show "snd (auth_verify_inner X io service token) \<in> {[], [CONTROL_OK], [CONTROL_REJECTED]}"
    using acc unfolding auth_verify_inner_def auth_respond_def Let_def
    by (auto split: sum.splits prod.splits)
  show "snd (auth_verify_inner X io service token) = [CONTROL_OK] \<longrightarrow>
      (\<exists>r. fst (auth_accept io) = Inr r \<and> cq_service_id r = service \<and> token_matches X (cq_token r) token)"
    using acc ne unfolding auth_verify_inner_def auth_respond_def Let_def
    by (auto split: sum.splits prod.splits if_splits)
qed

text \<open>Crates whose comparison is equality; nothing else is used here.\<close>

definition auth_ref_crates :: crates where
  "auth_ref_crates =
     \<lparr>cr_ct_eq = (\<lambda>a b. a = b), cr_public = (\<lambda>k. Abs_endpoint_id (secret_bytes k)), cr_fmt_short = (\<lambda>_. []),
      cr_endpoint_from_bytes = (\<lambda>_. None), cr_relay_parse = (\<lambda>s. Inr (RelayUrl s)), cr_url_parse = (\<lambda>s. Inl s),
      cr_b64_encode = str_of_bytes, cr_b64_decode = (\<lambda>_. None)\<rparr>"

lemma auth_ref_ct_eq: "ct_eq_law auth_ref_crates"
  by (simp add: ct_eq_law_def auth_ref_crates_def)

theorem handshake_authenticates_witness:
  "\<exists>answer outcome request verdict.
     auth_send None (answer_stream answer) (service_filled 1) (token_filled 2) = (outcome, request)
     \<and> auth_verify auth_ref_crates None (request_stream request) (service_filled 1) (token_filled 3) = (verdict, answer)
     \<and> outcome = Inl (TunnelErr AuthRejectedByHost) \<and> verdict = Inr False"
proof -
  define r where "r = \<lparr>cq_service_id = service_filled 1, cq_token = token_filled 2\<rparr>"
  have send: "auth_send None (answer_stream [1]) (service_filled 1) (token_filled 2)
      = (Inl (TunnelErr AuthRejectedByHost), encode_request r)"
    by (simp add: auth_send_def auth_send_inner_def answer_stream_def read_to_end_def r_def CONTROL_OK_def Let_def)
  have verify: "auth_verify auth_ref_crates None (request_stream (encode_request r)) (service_filled 1) (token_filled 3)
      = (Inr False, [1])"
    by (simp add: auth_verify_def auth_verify_request Let_def token_matches_iff [OF auth_ref_ct_eq] r_def)
  from handshake_authenticates [OF auth_ref_ct_eq send verify] send verify show ?thesis by blast
qed

theorem host_accepts_only_valid_requests_witness:
  "snd (auth_verify_inner auth_ref_crates (request_stream []) (service_filled 1) (token_filled 3)) \<noteq> [CONTROL_OK]"
proof -
  have "as_read (request_stream []) \<noteq> Inr (encode_request r)" for r
    using encode_request_length [of r] by (auto simp: request_stream_def CONTROL_REQUEST_LEN_def)
  then show ?thesis
    using host_accepts_only_valid_requests [of "request_stream []" _ auth_ref_crates "service_filled 1" "token_filled 3"]
    by blast
qed

end
