(* ===== verification/Transport.thy ===== *)
theory Transport
  imports Sculk_Events
begin

text \<open>
  \<^verbatim>\<open>core/src/tunnel/iroh/transport.rs\<close>: when a bridge error only means that an end went away, and
  the result of bridging a TCP connection with a QUIC stream. Copying bytes is \<^verbatim>\<open>tokio::io::copy\<close>;
  what matters here is which direction ends first, how, and how draining the other one ends.
\<close>

definition DRAIN_TIMEOUT :: duration where "DRAIN_TIMEOUT = from_secs 5"

fun closed_kind :: "box_error \<Rightarrow> bool" where
  "closed_kind (BoxIo e) \<longleftrightarrow>
     io_kind e \<in> {BrokenPipe, ConnectionReset, ConnectionAborted, NotConnected, UnexpectedEof}"
| "closed_kind (BoxOther _) \<longleftrightarrow> False"

fun is_connection_closed :: "sculk_error \<Rightarrow> bool" where
  "is_connection_closed (TunnelErr (BridgeTcpToQuic src)) \<longleftrightarrow> closed_kind src"
| "is_connection_closed (TunnelErr (BridgeQuicToTcp src)) \<longleftrightarrow> closed_kind src"
| "is_connection_closed _ \<longleftrightarrow> False"

text \<open>The first direction to end with its result, and the drain: \<^verbatim>\<open>None\<close> is its timeout.\<close>

datatype bridge_first = TcpToQuicEnded "box_error + unit" | QuicToTcpEnded "box_error + unit"

text \<open>The result, and whether \<^verbatim>\<open>send.finish()\<close> was called.\<close>

fun bridge :: "bridge_first \<Rightarrow> (box_error + unit) option \<Rightarrow> (sculk_error + unit) \<times> bool" where
  "bridge (TcpToQuicEnded r) drain =
     (case r of
        Inl e \<Rightarrow> (Inl (TunnelErr (BridgeTcpToQuic e)), True)
      | Inr _ \<Rightarrow>
          (case drain of
             Some (Inl e) \<Rightarrow> Inl (TunnelErr (BridgeQuicToTcp e))
           | Some (Inr _) \<Rightarrow> Inr ()
           | None \<Rightarrow> Inr (), True))"
| "bridge (QuicToTcpEnded r) drain =
     (case r of
        Inl e \<Rightarrow> (Inl (TunnelErr (BridgeQuicToTcp e)), False)
      | Inr _ \<Rightarrow>
          (case drain of
             Some (Inl e) \<Rightarrow> Inl (TunnelErr (BridgeTcpToQuic e))
           | Some (Inr _) \<Rightarrow> Inr ()
           | None \<Rightarrow> Inr (), True))"

text \<open>A bridge fails only with one of its two errors, and only for a copy that failed.\<close>

lemma bridge_error_source:
  "fst (bridge f drain) = Inl e \<Longrightarrow>
     \<exists>src. (e = TunnelErr (BridgeTcpToQuic src) \<or> e = TunnelErr (BridgeQuicToTcp src))
       \<and> (f = TcpToQuicEnded (Inl src) \<or> f = QuicToTcpEnded (Inl src) \<or> drain = Some (Inl src))"
  by (cases f) (auto split: sum.splits option.splits)

lemma bridge_closed_iff:
  "fst (bridge f drain) = Inl e \<Longrightarrow>
     is_connection_closed e \<longleftrightarrow> (\<exists>io. (f = TcpToQuicEnded (Inl (BoxIo io)) \<or> f = QuicToTcpEnded (Inl (BoxIo io))
         \<or> f \<in> {TcpToQuicEnded (Inr ()), QuicToTcpEnded (Inr ())} \<and> drain = Some (Inl (BoxIo io)))
       \<and> closed_kind (BoxIo io))"
  by (cases f; cases drain)
    (auto split: sum.splits elim!: closed_kind.elims)

end
