(* ===== verification/Host_Tunnel.thy ===== *)
theory Host_Tunnel
  imports Sessions Hosted_Status Control_Auth Transport Path_Monitor
begin

text \<open>
  \<^verbatim>\<open>core/src/tunnel/iroh/host.rs\<close>: what one Host does with its connections. \<open>host_context\<close> is
  \<^verbatim>\<open>HostContext\<close>; \<open>host_world\<close> adds what the tasks of that context act on: the event channel, the
  connections they closed, the close tasks and connection tasks that are running. Every section
  of code between two waits is one function of the world, and the interleavings of the tasks are
  the lists of labels of \<open>host_step\<close>; that two threads run such sections at once is not modelled
  beyond that, so a count is published together with the change it counts. \<open>remote c\<close> is the endpoint a connection belongs to.
\<close>

definition CONNECTION_ACCEPT_TIMEOUT :: duration where "CONNECTION_ACCEPT_TIMEOUT = from_secs 10"
definition CONNECTION_TASKS_MAX :: nat where "CONNECTION_TASKS_MAX = 128"

record host_context =
  ct_conns :: "tracked_connection list"
  ct_sessions :: host_sessions
  ct_event_delay :: duration
  ct_service_id :: service_id
  ct_token :: access_token
  ct_max_players :: "u32 option"
  ct_status :: "hosted_status option"

text \<open>A connection task holds one of the \<open>CONNECTION_TASKS_MAX\<close> permits while it is in one of these.\<close>

datatype host_task = TaskAccepting | TaskAuthenticating | TaskRechecking

text \<open>\<open>hw_log\<close> records for every endpoint the events handed to \<open>emit_event\<close>, delivered or not.\<close>

record host_world =
  hw_ctx :: host_context
  hw_events :: event_channel
  hw_log :: "(endpoint_id \<times> tunnel_event) list"
  hw_closes :: "(conn_id \<times> nat \<times> string) list"
  hw_watchers :: "(conn_id \<times> u64) list"
  hw_tasks :: "(conn_id \<times> host_task) list"
  hw_running :: bool

section \<open>Building blocks\<close>

definition host_emit :: "endpoint_id \<Rightarrow> tunnel_event \<Rightarrow> host_world \<Rightarrow> host_world" where
  "host_emit e ev w = w\<lparr>hw_events := emit_event (hw_events w) ev, hw_log := hw_log w @ [(e, ev)]\<rparr>"

text \<open>An event that belongs to no player.\<close>

definition host_emit_error :: "error_category \<Rightarrow> string \<Rightarrow> host_world \<Rightarrow> host_world" where
  "host_emit_error c msg w = w\<lparr>hw_events := emit_event (hw_events w) (EventError c msg)\<rparr>"

definition host_close :: "conn_id \<Rightarrow> nat \<Rightarrow> string \<Rightarrow> host_world \<Rightarrow> host_world" where
  "host_close c code reason w = w\<lparr>hw_closes := hw_closes w @ [(c, code, reason)]\<rparr>"

definition on_status :: "(hosted_status \<Rightarrow> hosted_status) \<Rightarrow> host_world \<Rightarrow> host_world" where
  "on_status f w = w\<lparr>hw_ctx := (hw_ctx w)\<lparr>ct_status := map_option f (ct_status (hw_ctx w))\<rparr>\<rparr>"

definition with_sessions :: "host_sessions \<Rightarrow> host_world \<Rightarrow> host_world" where
  "with_sessions s w = w\<lparr>hw_ctx := (hw_ctx w)\<lparr>ct_sessions := s\<rparr>\<rparr>"

definition push_conn :: "endpoint_id \<Rightarrow> conn_id \<Rightarrow> host_world \<Rightarrow> host_world" where
  "push_conn e c w = w\<lparr>hw_ctx := (hw_ctx w)\<lparr>ct_conns := ct_conns (hw_ctx w) @ [\<lparr>tc_remote_id = e, tc_handle = c\<rparr>]\<rparr>\<rparr>"

definition end_task :: "conn_id \<Rightarrow> host_world \<Rightarrow> host_world" where
  "end_task c w = w\<lparr>hw_tasks := AList.delete c (hw_tasks w)\<rparr>"

definition set_task :: "conn_id \<Rightarrow> host_task \<Rightarrow> host_world \<Rightarrow> host_world" where
  "set_task c t w = w\<lparr>hw_tasks := AList.update c t (hw_tasks w)\<rparr>"

definition sessions_of :: "host_world \<Rightarrow> host_sessions" where
  "sessions_of w = ct_sessions (hw_ctx w)"

section \<open>Connections\<close>

text \<open>
  The part of \<^verbatim>\<open>start_authenticated_host_connection\<close> after a successful registration: publish
  the count, close the replaced connection, track the new one, report a new player, and start
  the task that waits for it to close.
\<close>

definition admit_registered ::
  "crates \<Rightarrow> (conn_id \<Rightarrow> endpoint_id) \<Rightarrow> conn_id \<Rightarrow> u64 \<times> bool \<times> conn_id option \<times> nat
     \<Rightarrow> host_world \<Rightarrow> host_world" where
  "admit_registered X remote c r w =
     (case r of (generation, is_reconnect, old, count) \<Rightarrow>
        let w1 = on_status (set_connection_count (of_nat count)) w;
            w2 = (case old of None \<Rightarrow> w1
                  | Some replaced \<Rightarrow> host_close replaced CLOSE_REPLACED_BY_RECONNECT ''replaced by reconnect'' w1);
            w3 = push_conn (remote c) c w2;
            w4 = (if is_reconnect then w3 else host_emit (remote c) (PlayerJoined (peer_of X (remote c))) w3)
        in w4\<lparr>hw_watchers := (c, generation) # hw_watchers w4\<rparr>)"

text \<open>One look at the index, and the admission if there was room.\<close>

definition host_look ::
  "crates \<Rightarrow> (conn_id \<Rightarrow> endpoint_id) \<Rightarrow> conn_id \<Rightarrow> host_world \<Rightarrow> host_world option" where
  "host_look X remote c w =
     (case register_attempt (remote c) c (ct_max_players (hw_ctx w)) (sessions_of w) of
        (None, _) \<Rightarrow> None
      | (Some r, s') \<Rightarrow> Some (admit_registered X remote c r (with_sessions s' w)))"

definition host_reject_full ::
  "crates \<Rightarrow> (conn_id \<Rightarrow> endpoint_id) \<Rightarrow> conn_id \<Rightarrow> host_world \<Rightarrow> host_world" where
  "host_reject_full X remote c w =
     host_close c CLOSE_SERVER_FULL ''server full''
       (host_emit (remote c) (PlayerRejected (peer_of X (remote c)) ''server full'') w)"

text \<open>\<open>later\<close> is what the other tasks do to the world during \<open>FULL_RECHECK_DELAY\<close>.\<close>

definition start_authenticated_host_connection ::
  "crates \<Rightarrow> (conn_id \<Rightarrow> endpoint_id) \<Rightarrow> conn_id \<Rightarrow> (host_world \<Rightarrow> host_world) \<Rightarrow> host_world \<Rightarrow> host_world" where
  "start_authenticated_host_connection X remote c later w =
     (case host_look X remote c w of
        Some w' \<Rightarrow> w'
      | None \<Rightarrow>
          (case host_look X remote c (later w) of
             Some w' \<Rightarrow> w'
           | None \<Rightarrow> host_reject_full X remote c (later w)))"

definition host_auth_failed ::
  "crates \<Rightarrow> (conn_id \<Rightarrow> endpoint_id) \<Rightarrow> conn_id \<Rightarrow> host_world \<Rightarrow> host_world" where
  "host_auth_failed X remote c w =
     host_close c CLOSE_AUTH_FAILED CLOSE_AUTH_FAILED_REASON
       (host_emit (remote c) (AuthFailed (peer_of X (remote c))) w)"

definition start_host_connection ::
  "crates \<Rightarrow> (conn_id \<Rightarrow> endpoint_id) \<Rightarrow> conn_id \<Rightarrow> sculk_error + bool \<Rightarrow> (host_world \<Rightarrow> host_world)
     \<Rightarrow> host_world \<Rightarrow> host_world" where
  "start_host_connection X remote c verdict later w =
     (case verdict of
        Inr True \<Rightarrow> start_authenticated_host_connection X remote c later w
      | _ \<Rightarrow> host_auth_failed X remote c w)"

text \<open>The task that runs when connection \<open>c\<close>, registered with a generation, has closed.\<close>

definition host_conn_closed ::
  "crates \<Rightarrow> (conn_id \<Rightarrow> endpoint_id) \<Rightarrow> conn_id \<Rightarrow> u64 \<Rightarrow> string option \<Rightarrow> host_world \<Rightarrow> host_world" where
  "host_conn_closed X remote c generation closed w =
     (let reason = (case closed of Some r \<Rightarrow> r | None \<Rightarrow> ''connection closed'');
          (removed, s') = remove_if_current (remote c) generation (sessions_of w);
          w1 = on_status (set_connection_count (of_nat (active_players s'))) (with_sessions s' w);
          w2 = (if removed then host_emit (remote c) (PlayerLeft (peer_of X (remote c)) reason) w1 else w1)
      in w2\<lparr>hw_watchers := remove1 (c, generation) (hw_watchers w2)\<rparr>)"

section \<open>Bridges\<close>

text \<open>A stream of a connection: the target cannot be reached, or a bridge runs and ends.\<close>

definition host_target_unavailable :: "string \<Rightarrow> host_world \<Rightarrow> host_world" where
  "host_target_unavailable e w =
     host_emit_error CatTargetUnavailable (''connect target server failed: '' @ e)
       (on_status (set_error CatTargetUnavailable) w)"

definition host_bridge_started :: "host_world \<Rightarrow> host_world" where
  "host_bridge_started w = on_status bridge_started w"

definition host_bridge_ended :: "sculk_error + unit \<Rightarrow> host_world \<Rightarrow> host_world" where
  "host_bridge_ended r w =
     on_status bridge_dropped
       (case r of
          Inr _ \<Rightarrow> w
        | Inl e \<Rightarrow>
            if is_connection_closed e then w
            else host_emit_error CatInternal (''bridge ended with an error: '' @ sculk_error_text e)
                   (on_status (set_error CatInternal) w))"

section \<open>The accept loop and its tasks\<close>

datatype accept_outcome = AcceptOk | AcceptFailed string | AcceptTimedOut

datatype host_label =
    HostIncoming conn_id
  | HostAccepted conn_id accept_outcome
  | HostVerdict conn_id "sculk_error + bool"
  | HostRecheck conn_id
  | HostConnClosed conn_id u64 "string option"
  | HostTargetUnavailable string
  | HostBridgeStarted
  | HostBridgeEnded "sculk_error + unit"
  | HostShutdown

fun host_step ::
  "crates \<Rightarrow> (conn_id \<Rightarrow> endpoint_id) \<Rightarrow> host_world \<Rightarrow> host_label \<Rightarrow> host_world" where
  "host_step X remote w (HostIncoming c) =
     (if hw_running w \<and> length (hw_tasks w) < CONNECTION_TASKS_MAX \<and> map_of (hw_tasks w) c = None
      then set_task c TaskAccepting w else w)"
| "host_step X remote w (HostAccepted c r) =
     (if map_of (hw_tasks w) c \<noteq> Some TaskAccepting then w
      else case r of
        AcceptOk \<Rightarrow> set_task c TaskAuthenticating w
      | AcceptFailed e \<Rightarrow>
          end_task c (host_emit_error CatInternal (''accept host connection failed: '' @ e) w)
      | AcceptTimedOut \<Rightarrow>
          end_task c (host_emit_error CatHostUnreachable ''accept host connection timed out'' w))"
| "host_step X remote w (HostVerdict c v) =
     (if map_of (hw_tasks w) c \<noteq> Some TaskAuthenticating then w
      else case v of
        Inr True \<Rightarrow>
          (case host_look X remote c w of
             Some w' \<Rightarrow> end_task c w'
           | None \<Rightarrow> set_task c TaskRechecking w)
      | _ \<Rightarrow> end_task c (host_auth_failed X remote c w))"
| "host_step X remote w (HostRecheck c) =
     (if map_of (hw_tasks w) c \<noteq> Some TaskRechecking then w
      else end_task c (case host_look X remote c w of
             Some w' \<Rightarrow> w'
           | None \<Rightarrow> host_reject_full X remote c w))"
| "host_step X remote w (HostConnClosed c g r) =
     (if (c, g) \<in> set (hw_watchers w) then host_conn_closed X remote c g r w else w)"
| "host_step X remote w (HostTargetUnavailable e) = host_target_unavailable e w"
| "host_step X remote w HostBridgeStarted = host_bridge_started w"
| "host_step X remote w (HostBridgeEnded r) = host_bridge_ended r w"
| "host_step X remote w HostShutdown = w\<lparr>hw_running := False\<rparr>"

definition host_context_new ::
  "duration \<Rightarrow> service_id \<Rightarrow> access_token \<Rightarrow> u32 option \<Rightarrow> hosted_status option \<Rightarrow> host_context" where
  "host_context_new delay service token max_players status =
     \<lparr>ct_conns = [], ct_sessions = sessions_default, ct_event_delay = delay, ct_service_id = service,
      ct_token = token, ct_max_players = max_players, ct_status = status\<rparr>"

definition host_world_new :: "host_context \<Rightarrow> host_world" where
  "host_world_new ctx =
     \<lparr>hw_ctx = ctx, hw_events = channel_new EVENT_CHANNEL_SIZE, hw_log = [], hw_closes = [],
      hw_watchers = [], hw_tasks = [], hw_running = True\<rparr>"

section \<open>What the building blocks change\<close>

lemmas host_block_defs = host_emit_def host_emit_error_def host_close_def on_status_def with_sessions_def
  push_conn_def end_task_def set_task_def

lemma sessions_of_blocks [simp]:
  "sessions_of (host_emit e ev w) = sessions_of w" "sessions_of (host_emit_error k m w) = sessions_of w"
  "sessions_of (host_close c n r w) = sessions_of w" "sessions_of (on_status f w) = sessions_of w"
  "sessions_of (with_sessions s w) = s" "sessions_of (push_conn e c w) = sessions_of w"
  "sessions_of (end_task c w) = sessions_of w" "sessions_of (set_task c t w) = sessions_of w"
  "sessions_of (w\<lparr>hw_watchers := ws\<rparr>) = sessions_of w" "sessions_of (w\<lparr>hw_running := b\<rparr>) = sessions_of w"
  by (simp_all add: sessions_of_def host_block_defs)

lemma status_blocks [simp]:
  "ct_status (hw_ctx (host_emit e ev w)) = ct_status (hw_ctx w)"
  "ct_status (hw_ctx (host_emit_error k m w)) = ct_status (hw_ctx w)"
  "ct_status (hw_ctx (host_close c n r w)) = ct_status (hw_ctx w)"
  "ct_status (hw_ctx (on_status f w)) = map_option f (ct_status (hw_ctx w))"
  "ct_status (hw_ctx (with_sessions s w)) = ct_status (hw_ctx w)"
  "ct_status (hw_ctx (push_conn e c w)) = ct_status (hw_ctx w)"
  "ct_status (hw_ctx (end_task c w)) = ct_status (hw_ctx w)"
  "ct_status (hw_ctx (set_task c t w)) = ct_status (hw_ctx w)"
  by (simp_all add: host_block_defs)

lemma log_blocks [simp]:
  "hw_log (host_emit e ev w) = hw_log w @ [(e, ev)]" "hw_log (host_emit_error k m w) = hw_log w"
  "hw_log (host_close c n r w) = hw_log w" "hw_log (on_status f w) = hw_log w"
  "hw_log (with_sessions s w) = hw_log w" "hw_log (push_conn e c w) = hw_log w"
  "hw_log (end_task c w) = hw_log w" "hw_log (set_task c t w) = hw_log w"
  by (simp_all add: host_block_defs)

lemma watcher_blocks [simp]:
  "hw_watchers (host_emit e ev w) = hw_watchers w" "hw_watchers (host_emit_error k m w) = hw_watchers w"
  "hw_watchers (host_close c n r w) = hw_watchers w" "hw_watchers (on_status f w) = hw_watchers w"
  "hw_watchers (with_sessions s w) = hw_watchers w" "hw_watchers (push_conn e c w) = hw_watchers w"
  "hw_watchers (end_task c w) = hw_watchers w" "hw_watchers (set_task c t w) = hw_watchers w"
  by (simp_all add: host_block_defs)

lemma max_blocks [simp]:
  "ct_max_players (hw_ctx (host_emit e ev w)) = ct_max_players (hw_ctx w)"
  "ct_max_players (hw_ctx (host_emit_error k m w)) = ct_max_players (hw_ctx w)"
  "ct_max_players (hw_ctx (host_close c n r w)) = ct_max_players (hw_ctx w)"
  "ct_max_players (hw_ctx (on_status f w)) = ct_max_players (hw_ctx w)"
  "ct_max_players (hw_ctx (with_sessions s w)) = ct_max_players (hw_ctx w)"
  "ct_max_players (hw_ctx (push_conn e c w)) = ct_max_players (hw_ctx w)"
  "ct_max_players (hw_ctx (end_task c w)) = ct_max_players (hw_ctx w)"
  "ct_max_players (hw_ctx (set_task c t w)) = ct_max_players (hw_ctx w)"
  by (simp_all add: host_block_defs)

lemma task_blocks [simp]:
  "hw_tasks (host_emit e ev w) = hw_tasks w" "hw_tasks (host_emit_error k m w) = hw_tasks w"
  "hw_tasks (host_close c n r w) = hw_tasks w" "hw_tasks (on_status f w) = hw_tasks w"
  "hw_tasks (with_sessions s w) = hw_tasks w" "hw_tasks (push_conn e c w) = hw_tasks w"
  by (simp_all add: host_block_defs)

section \<open>The invariant of a Host\<close>

definition joined_events :: "host_world \<Rightarrow> endpoint_id \<Rightarrow> nat" where
  "joined_events w e = length (filter (\<lambda>(e', ev). e' = e \<and> (case ev of PlayerJoined _ \<Rightarrow> True | _ \<Rightarrow> False)) (hw_log w))"

definition left_events :: "host_world \<Rightarrow> endpoint_id \<Rightarrow> nat" where
  "left_events w e = length (filter (\<lambda>(e', ev). e' = e \<and> (case ev of PlayerLeft _ _ \<Rightarrow> True | _ \<Rightarrow> False)) (hw_log w))"

definition present :: "host_world \<Rightarrow> endpoint_id \<Rightarrow> nat" where
  "present w e = (if session_of (sessions_of w) e = None then 0 else 1)"

text \<open>Joins and departures balance, and every session has the task that will end it.\<close>

definition events_balance :: "host_world \<Rightarrow> bool" where
  "events_balance w \<longleftrightarrow> (\<forall>e. joined_events w e = left_events w e + present w e)"

definition sessions_watched :: "(conn_id \<Rightarrow> endpoint_id) \<Rightarrow> host_world \<Rightarrow> bool" where
  "sessions_watched remote w \<longleftrightarrow>
     (\<forall>e entry. session_of (sessions_of w) e = Some entry \<longrightarrow>
        (\<exists>c. remote c = e \<and> (c, se_generation entry) \<in> set (hw_watchers w)))"

definition status_counts :: "host_world \<Rightarrow> bool" where
  "status_counts w \<longleftrightarrow>
     (\<forall>h. ct_status (hw_ctx w) = Some h \<longrightarrow>
        st_connection_count (hx_current h) = of_nat (active_players (sessions_of w)))"

definition players_bounded :: "host_world \<Rightarrow> bool" where
  "players_bounded w \<longleftrightarrow>
     sessions_wf (sessions_of w)
     \<and> (\<forall>m. ct_max_players (hw_ctx w) = Some m \<longrightarrow> active_players (sessions_of w) \<le> unat m)"

definition tasks_bounded :: "host_world \<Rightarrow> bool" where
  "tasks_bounded w \<longleftrightarrow> length (hw_tasks w) \<le> CONNECTION_TASKS_MAX"

definition host_inv :: "(conn_id \<Rightarrow> endpoint_id) \<Rightarrow> host_world \<Rightarrow> bool" where
  "host_inv remote w \<longleftrightarrow>
     events_balance w \<and> sessions_watched remote w \<and> status_counts w \<and> players_bounded w \<and> tasks_bounded w"

text \<open>A step that touches neither sessions, watchers, the log of players nor the counts keeps it.\<close>

definition host_same :: "host_world \<Rightarrow> host_world \<Rightarrow> bool" where
  "host_same w w' \<longleftrightarrow>
     sessions_of w' = sessions_of w \<and> hw_watchers w' = hw_watchers w
     \<and> (\<forall>e. joined_events w' e = joined_events w e \<and> left_events w' e = left_events w e)
     \<and> ct_max_players (hw_ctx w') = ct_max_players (hw_ctx w)
     \<and> map_option (st_connection_count \<circ> hx_current) (ct_status (hw_ctx w'))
         = map_option (st_connection_count \<circ> hx_current) (ct_status (hw_ctx w))"

lemma host_same_inv:
  assumes "host_same w w'" "host_inv remote w" "length (hw_tasks w') \<le> CONNECTION_TASKS_MAX"
  shows "host_inv remote w'"
proof -
  have "status_counts w'"
    using assms(1,2) unfolding host_same_def host_inv_def status_counts_def
    by (auto simp: map_option_case split: option.splits)
  with assms show ?thesis
    by (simp add: host_same_def host_inv_def events_balance_def present_def sessions_watched_def
        players_bounded_def tasks_bounded_def)
qed

lemma host_same_refl [simp]: "host_same w w"
  by (simp add: host_same_def)

lemma host_same_trans: "host_same u v \<Longrightarrow> host_same v w \<Longrightarrow> host_same u w"
  by (simp add: host_same_def)

lemma host_same_blocks:
  "host_same w (host_emit_error k m w)" "host_same w (host_close c n r w)"
  "host_same w (set_task c t w)" "host_same w (end_task c w)" "host_same w (w\<lparr>hw_running := b\<rparr>)"
  "host_same w (on_status (set_error k) w)" "host_same w (on_status bridge_started w)"
  "host_same w (on_status bridge_dropped w)"
  "host_same w (host_emit e (AuthFailed p) w)" "host_same w (host_emit e (PlayerRejected p r) w)"
  by (simp_all add: host_same_def joined_events_def left_events_def option.map_comp comp_def)

lemma upsert_reconnect: "fst (snd (fst (upsert e c s))) \<longleftrightarrow> session_of s e \<noteq> None"
  by (auto simp: upsert_def Let_def split: option.splits)

lemma register_attempt_Some:
  assumes "register_attempt e c m s = (Some r, s')"
  obtains g rc old where "r = (g, rc, old, active_players s')" "upsert e c s = ((g, rc, old), s')"
    "has_capacity_for s e m" "rc \<longleftrightarrow> session_of s e \<noteq> None"
  using assms upsert_reconnect [of e c s]
  by (auto simp: register_attempt_def split: if_splits prod.splits)

lemma admit_blocks:
  assumes "r = (g, rc, old, n)" "w' = admit_registered X remote c r w"
  shows "sessions_of w' = sessions_of w" "hw_watchers w' = (c, g) # hw_watchers w"
    "hw_log w' = hw_log w @ (if rc then [] else [(remote c, PlayerJoined (peer_of X (remote c)))])"
    "ct_status (hw_ctx w') = map_option (set_connection_count (of_nat n)) (ct_status (hw_ctx w))"
    "ct_max_players (hw_ctx w') = ct_max_players (hw_ctx w)" "hw_tasks w' = hw_tasks w"
  by (auto simp: assms admit_registered_def Let_def split: option.splits)

lemma admit_inv:
  assumes reg: "register_attempt (remote c) c (ct_max_players (hw_ctx w)) (sessions_of w) = (Some r, s')"
    and inv: "host_inv remote w"
    and w': "w' = admit_registered X remote c r (with_sessions s' w)"
  shows "host_inv remote w'" "hw_tasks w' = hw_tasks w"
proof -
  define s where "s = sessions_of w"
  from reg obtain g rc old where r: "r = (g, rc, old, active_players s')"
    and up: "upsert (remote c) c s = ((g, rc, old), s')"
    and cap: "has_capacity_for s (remote c) (ct_max_players (hw_ctx w))"
    and rc: "rc \<longleftrightarrow> session_of s (remote c) \<noteq> None"
    unfolding s_def by (rule register_attempt_Some)
  note b = admit_blocks [OF r w', simplified]
  have s': "session_of s' e = (if e = remote c then Some \<lparr>se_generation = g, se_conn = Some c\<rparr> else session_of s e)" for e
    using upsert_session_of [of "remote c" c s e] up by simp
  have act: "active_players s' = (if session_of s (remote c) = None then Suc (active_players s) else active_players s)"
    using upsert_active [of "remote c" c s] up by simp
  show "hw_tasks w' = hw_tasks w" by (rule b(6))
  have "events_balance w'"
    using inv rc s' unfolding host_inv_def events_balance_def joined_events_def left_events_def present_def
    by (auto simp: b s_def)
  moreover have "sessions_watched remote w'"
    unfolding sessions_watched_def b
  proof (intro allI impI)
    fix e entry assume cur: "session_of s' e = Some entry"
    show "\<exists>c'. remote c' = e \<and> (c', se_generation entry) \<in> set ((c, g) # hw_watchers w)"
    proof (cases "e = remote c")
      case True
      with cur s' show ?thesis by auto
    next
      case False
      with cur s' have "session_of (sessions_of w) e = Some entry" by (simp add: s_def)
      with inv obtain c' where "remote c' = e" "(c', se_generation entry) \<in> set (hw_watchers w)"
        unfolding host_inv_def sessions_watched_def by blast
      then show ?thesis by auto
    qed
  qed
  moreover have "status_counts w'" by (auto simp: status_counts_def b)
  moreover have "players_bounded w'"
  proof -
    have "sessions_wf s'" using upsert_wf [of s "remote c" c] up inv by (simp add: host_inv_def players_bounded_def s_def)
    moreover have "active_players s' \<le> unat m" if "ct_max_players (hw_ctx w) = Some m" for m
      using capacity_bound [of s "remote c" m] cap act that inv
      by (auto simp: host_inv_def players_bounded_def s_def)
    ultimately show ?thesis by (simp add: players_bounded_def b)
  qed
  moreover have "tasks_bounded w'" using inv by (simp add: host_inv_def tasks_bounded_def b)
  ultimately show "host_inv remote w'" by (simp add: host_inv_def)
qed

lemma host_look_inv:
  assumes "host_look X remote c w = Some w'" "host_inv remote w"
  shows "host_inv remote w'" "hw_tasks w' = hw_tasks w"
proof -
  obtain r s' where reg: "register_attempt (remote c) c (ct_max_players (hw_ctx w)) (sessions_of w) = (Some r, s')"
    and w': "w' = admit_registered X remote c r (with_sessions s' w)"
    using assms(1) unfolding host_look_def by (auto split: prod.splits option.splits)
  show "host_inv remote w'" "hw_tasks w' = hw_tasks w"
    using admit_inv [OF reg assms(2) w'] by simp_all
qed

lemma conn_closed_inv:
  assumes inv: "host_inv remote w" and mem: "(c, g) \<in> set (hw_watchers w)"
  shows "host_inv remote (host_conn_closed X remote c g r w)"
proof -
  define s where "s = sessions_of w"
  obtain removed s' where rm: "remove_if_current (remote c) g s = (removed, s')" by force
  define w' where "w' = host_conn_closed X remote c g r w"
  have b: "sessions_of w' = s'" "hw_watchers w' = remove1 (c, g) (hw_watchers w)"
    "hw_log w' = hw_log w @ (if removed then [(remote c, PlayerLeft (peer_of X (remote c))
        (case r of Some x \<Rightarrow> x | None \<Rightarrow> ''connection closed''))] else [])"
    "ct_status (hw_ctx w') = map_option (set_connection_count (of_nat (active_players s'))) (ct_status (hw_ctx w))"
    "ct_max_players (hw_ctx w') = ct_max_players (hw_ctx w)" "hw_tasks w' = hw_tasks w"
    using rm by (auto simp: w'_def s_def host_conn_closed_def Let_def)
  have s': "session_of s' e = (if removed \<and> e = remote c then None else session_of s e)" for e
    using remove_session_of [of "remote c" g s e] rm by simp
  have rmd: "removed \<longleftrightarrow> (\<exists>x. session_of s (remote c) = Some \<lparr>se_generation = g, se_conn = x\<rparr>)"
    using remove_fst [of "remote c" g s] rm by simp
  have "events_balance w'"
    using inv rmd s' unfolding host_inv_def events_balance_def joined_events_def left_events_def present_def
    by (auto simp: b s_def)
  moreover have "sessions_watched remote w'"
    unfolding sessions_watched_def b
  proof (intro allI impI)
    fix e entry assume cur: "session_of s' e = Some entry"
    then have old: "session_of s e = Some entry" using s' by (auto split: if_splits)
    then obtain c' where c': "remote c' = e" "(c', se_generation entry) \<in> set (hw_watchers w)"
      using inv by (auto simp: host_inv_def sessions_watched_def s_def)
    have "(c', se_generation entry) \<noteq> (c, g)"
    proof
      assume eq: "(c', se_generation entry) = (c, g)"
      then have "session_of s (remote c) = Some \<lparr>se_generation = g, se_conn = se_conn entry\<rparr>"
        using old c'(1) by (cases entry) auto
      then show False using rmd cur s' c'(1) eq by auto
    qed
    with c' show "\<exists>c'. remote c' = e \<and> (c', se_generation entry) \<in> set (remove1 (c, g) (hw_watchers w))"
      by (metis in_set_remove1)
  qed
  moreover have "status_counts w'" by (auto simp: status_counts_def b)
  moreover have "players_bounded w'"
  proof -
    have "sessions_wf s" using inv by (simp add: host_inv_def players_bounded_def s_def)
    then have "sessions_wf s'" "active_players s' \<le> active_players s"
      using remove_wf [of s "remote c" g] remove_active [of s "remote c" g] rm by auto
    with inv show ?thesis by (auto simp: players_bounded_def host_inv_def b s_def intro: order_trans)
  qed
  moreover have "tasks_bounded w'" using inv by (simp add: host_inv_def tasks_bounded_def b)
  ultimately show ?thesis by (simp add: host_inv_def w'_def)
qed

lemma end_task_tasks: "length (hw_tasks (end_task c w)) \<le> length (hw_tasks w)"
  by (simp add: end_task_def length_delete_le)

lemma end_task_inv: "host_inv remote w \<Longrightarrow> host_inv remote (end_task c w)"
  using end_task_tasks [of c w]
  by (intro host_same_inv [OF host_same_blocks(4)]) (auto simp: host_inv_def tasks_bounded_def)

lemma set_task_inv:
  assumes "host_inv remote w" "map_of (hw_tasks w) c \<noteq> None \<or> length (hw_tasks w) < CONNECTION_TASKS_MAX"
  shows "host_inv remote (set_task c t w)"
  using assms(2) by (intro host_same_inv [OF host_same_blocks(3) assms(1)])
    (use assms(1) in \<open>auto simp: set_task_def length_update host_inv_def tasks_bounded_def\<close>)

lemma host_quiet_inv:
  assumes "host_same w w'" "host_inv remote w" "hw_tasks w' = hw_tasks w"
  shows "host_inv remote w'"
  using assms by (intro host_same_inv [OF assms(1,2)]) (simp add: host_inv_def tasks_bounded_def)

lemma host_handler_same:
  "host_same w (host_auth_failed X remote c w)" "host_same w (host_reject_full X remote c w)"
  "host_same w (host_target_unavailable m w)" "host_same w (host_bridge_started w)"
  "host_same w (host_bridge_ended r w)"
  unfolding host_auth_failed_def host_reject_full_def host_target_unavailable_def host_bridge_started_def
    host_bridge_ended_def
  by (auto intro!: host_same_blocks intro: host_same_trans host_same_blocks split: sum.splits)

lemma host_handler_tasks [simp]:
  "hw_tasks (host_auth_failed X remote c w) = hw_tasks w" "hw_tasks (host_reject_full X remote c w) = hw_tasks w"
  "hw_tasks (host_target_unavailable m w) = hw_tasks w" "hw_tasks (host_bridge_started w) = hw_tasks w"
  "hw_tasks (host_bridge_ended r w) = hw_tasks w"
  by (auto simp: host_auth_failed_def host_reject_full_def host_target_unavailable_def
      host_bridge_started_def host_bridge_ended_def split: sum.splits)

lemmas host_handler_inv = host_quiet_inv [OF host_handler_same(1)] host_quiet_inv [OF host_handler_same(2)]
  host_quiet_inv [OF host_handler_same(3)] host_quiet_inv [OF host_handler_same(4)]
  host_quiet_inv [OF host_handler_same(5)] host_quiet_inv [OF host_same_blocks(1)]

lemma host_step_inv:
  assumes inv: "host_inv remote w"
  shows "host_inv remote (host_step X remote w l)"
proof (cases l)
  case (HostIncoming c)
  with inv show ?thesis by (auto intro: set_task_inv)
next
  case (HostAccepted c r)
  with inv show ?thesis by (cases r) (auto intro!: set_task_inv end_task_inv host_handler_inv)
next
  case (HostVerdict c v)
  have "host_inv remote (case host_look X remote c w of Some w' \<Rightarrow> end_task c w' | None \<Rightarrow> set_task c TaskRechecking w)"
    if "map_of (hw_tasks w) c = Some TaskAuthenticating"
    using inv that by (auto intro!: set_task_inv end_task_inv dest: host_look_inv(1) split: option.splits)
  moreover have "host_inv remote (end_task c (host_auth_failed X remote c w))"
    using inv by (auto intro!: end_task_inv host_handler_inv)
  ultimately show ?thesis using inv HostVerdict by (auto split: sum.splits bool.splits)
next
  case (HostRecheck c)
  have "host_inv remote (end_task c (case host_look X remote c w of Some w' \<Rightarrow> w' | None \<Rightarrow> host_reject_full X remote c w))"
    using inv by (auto intro!: end_task_inv host_handler_inv dest: host_look_inv(1) split: option.splits)
  with inv HostRecheck show ?thesis by auto
next
  case (HostConnClosed c g r)
  with inv conn_closed_inv show ?thesis by auto
next
  case HostShutdown
  with inv show ?thesis by (auto intro: host_quiet_inv [OF host_same_blocks(5)])
qed (use inv in \<open>auto intro: host_handler_inv\<close>)

section \<open>Properties\<close>

text \<open>A Host that has just been started: no players, and a status, if any, that counts none.\<close>

definition host_start :: "host_world \<Rightarrow> bool" where
  "host_start w \<longleftrightarrow>
     (\<exists>delay service token limit status.
        w = host_world_new (host_context_new delay service token limit status)
        \<and> (\<forall>h. status = Some h \<longrightarrow> st_connection_count (hx_current h) = 0))"

lemma host_start_inv: "host_start w \<Longrightarrow> host_inv remote w"
  by (auto simp: host_start_def host_inv_def host_world_new_def host_context_new_def events_balance_def
      joined_events_def left_events_def present_def sessions_watched_def status_counts_def players_bounded_def
      tasks_bounded_def sessions_of_def sessions_default_def session_of_def active_players_def sessions_wf_def)

interpretation host_sys: invariant_system host_start "host_step X remote" "host_inv remote" for X remote
  by unfold_locales (rule host_start_inv, assumption, rule host_step_inv, assumption)

lemma watched_empty:
  assumes "sessions_watched remote w" "hw_watchers w = []"
  shows "active_players (sessions_of w) = 0"
proof -
  have "session_of (sessions_of w) e = None" for e
    using assms by (auto simp: sessions_watched_def)
  then have none: "map_of (by_id (sessions_of w)) e = None" for e by (simp add: session_of_def)
  show ?thesis
  proof (cases "by_id (sessions_of w)")
    case Nil
    then show ?thesis by (simp add: active_players_def)
  next
    case (Cons x xs)
    with none [of "fst x"] show ?thesis by simp
  qed
qed



text \<open>Crates for evaluation; a Host uses only the short form of an endpoint.\<close>

definition host_ref_crates :: crates where
  "host_ref_crates =
     \<lparr>cr_ct_eq = (\<lambda>a b. a = b), cr_public = (\<lambda>k. Abs_endpoint_id (secret_bytes k)),
      cr_fmt_short = (\<lambda>e. str_of_bytes (take 5 (endpoint_bytes e))), cr_endpoint_from_bytes = (\<lambda>_. None),
      cr_relay_parse = (\<lambda>s. Inr (RelayUrl s)), cr_url_parse = (\<lambda>s. Inl s),
      cr_b64_encode = str_of_bytes, cr_b64_decode = (\<lambda>_. None)\<rparr>"

definition one_seat :: host_world where
  "one_seat = host_world_new (host_context_new 0 (service_filled 1) (token_filled 2) (Some 1) None)"

lemma one_seat_start: "host_start one_seat"
  unfolding host_start_def one_seat_def by blast

definition visit :: "host_label list" where
  "visit = [HostIncoming 1, HostAccepted 1 AcceptOk, HostVerdict 1 (Inr True)]"

definition after_visit :: host_world where
  "after_visit = run_steps (host_step host_ref_crates (\<lambda>c. endpoint_filled (of_nat c))) one_seat visit"

lemma after_visit_log: "joined_events after_visit (endpoint_filled 1) = 1" "left_events after_visit (endpoint_filled 1) = 0"
  by (simp_all add: after_visit_def visit_def one_seat_def host_world_new_def host_context_new_def
      CONNECTION_TASKS_MAX_def set_task_def host_look_def register_attempt_def has_capacity_for_def sessions_of_def
      sessions_default_def session_of_def active_players_def players_u32_def upsert_def admit_registered_def
      host_block_defs Let_def joined_events_def left_events_def)



end
