(* ===== verification/Node_Service.thy ===== *)
theory Node_Service
  imports Host_Tunnel Join_Uri
begin

text \<open>
  \<^verbatim>\<open>core/src/tunnel/iroh/node.rs\<close>: one endpoint that publishes many services. The services are
  shared objects (\<^verbatim>\<open>Arc<HostedService>\<close>) that tasks keep using after they were unpublished, so
  they live in a store: \<open>nd_objects\<close> is the list of all objects ever published, and the registry
  \<open>nd_services\<close> maps a service id to the index of its object; \<^verbatim>\<open>Arc::ptr_eq\<close> is equality of
  indices. Operations that wait in between are split there: a rotation begins and finishes, a
  connection is looked up, checked, answered and admitted.
\<close>

section \<open>Options and state\<close>

definition NODE_UNAUTHENTICATED_CONNECTIONS_MAX :: nat where
  "NODE_UNAUTHENTICATED_CONNECTIONS_MAX = 128"

record node_options =
  no_secret_key :: "secret_key option"
  no_relay_url :: "relay_url option"
  no_unauthenticated_connections_max :: nat

definition node_options_default :: node_options where
  "node_options_default =
     \<lparr>no_secret_key = None, no_relay_url = None,
      no_unauthenticated_connections_max = NODE_UNAUTHENTICATED_CONNECTIONS_MAX\<rparr>"

record hosted_service_options =
  so_service_id :: service_id
  so_target_addr :: socket_addr
  so_token_state :: "token_state option"
  so_token_refresh :: token_refresh_policy
  so_config :: host_config

text \<open>
  \<open>sv_rotating\<close> is the \<^verbatim>\<open>token_rotation\<close> mutex, \<open>sv_rotation\<close> the value of the \<^verbatim>\<open>rotation_tx\<close>
  watch; the status, the event channel, sessions and connections are in the service's world.
\<close>

record hosted_service =
  sv_target :: socket_addr
  sv_token :: access_token
  sv_service_id :: service_id
  sv_world :: host_world
  sv_rotating :: bool
  sv_rotation :: u64
  sv_session_generation :: u64
  sv_token_refresh :: "duration option"

text \<open>Where a connection task is; it holds an authentication permit throughout.\<close>

datatype node_task =
    NodeAccepting
  | NodeAuthenticating
  | NodeLookedUp "nat option" access_token
  | NodeResponding "nat option" bool
  | NodeRechecking nat

text \<open>A rotation between taking the mutex and writing the token.\<close>

record pending_rotation =
  pr_object :: nat
  pr_service_id :: service_id
  pr_token :: access_token
  pr_created_at :: system_time
  pr_next_at :: "system_time option"
  pr_reset_timer :: bool

record node =
  nd_endpoint_id :: endpoint_id
  nd_relay_url :: "relay_url option"
  nd_services :: "(service_id \<times> nat) list"
  nd_objects :: "hosted_service list"
  nd_session_next :: u64
  nd_slots :: nat
  nd_tasks :: "(conn_id \<times> node_task) list"
  nd_rotations :: "pending_rotation list"
  nd_closes :: "(conn_id \<times> nat \<times> string) list"
  nd_open :: bool

definition lookup_service :: "node \<Rightarrow> service_id \<Rightarrow> nat option" where
  "lookup_service n sid = map_of (nd_services n) sid"

definition service_status :: "hosted_service \<Rightarrow> hosted_service_status option" where
  "service_status sv = map_option status_snapshot (ct_status (hw_ctx (sv_world sv)))"

definition update_object :: "nat \<Rightarrow> (hosted_service \<Rightarrow> hosted_service) \<Rightarrow> node \<Rightarrow> node" where
  "update_object i f n =
     (if i < length (nd_objects n) then n\<lparr>nd_objects := (nd_objects n)[i := f (nd_objects n ! i)]\<rparr> else n)"

definition on_world :: "(host_world \<Rightarrow> host_world) \<Rightarrow> hosted_service \<Rightarrow> hosted_service" where
  "on_world f sv = sv\<lparr>sv_world := f (sv_world sv)\<rparr>"

section \<open>Binding and publishing\<close>

definition node_bind :: "endpoint_id \<Rightarrow> node_options \<Rightarrow> box_error + unit \<Rightarrow> sculk_node_error + node" where
  "node_bind endpoint opts bound =
     (case bound of
        Inl e \<Rightarrow> Inl (BindEndpoint e)
      | Inr _ \<Rightarrow> Inr
          \<lparr>nd_endpoint_id = endpoint, nd_relay_url = no_relay_url opts, nd_services = [], nd_objects = [],
           nd_session_next = 1, nd_slots = no_unauthenticated_connections_max opts, nd_tasks = [],
           nd_rotations = [], nd_closes = [], nd_open = True\<rparr>)"

definition node_join_uri_value :: "node \<Rightarrow> service_id \<Rightarrow> access_token \<Rightarrow> join_uri" where
  "node_join_uri_value n sid token = join_uri_new (nd_endpoint_id n) sid token (nd_relay_url n)"

definition new_service ::
  "hosted_service_options \<Rightarrow> resolved_token_state \<Rightarrow> u64 \<Rightarrow> hosted_service" where
  "new_service opts resolved generation =
     (let state = rt_state resolved;
          status = hosted_status_new (so_service_id opts) (ts_created_at state) (rt_deadline resolved)
      in \<lparr>sv_target = so_target_addr opts, sv_token = ts_token state, sv_service_id = so_service_id opts,
          sv_world = host_world_new (host_context_new (hc_event_delay (so_config opts)) (so_service_id opts)
            (ts_token state) (hc_max_players (so_config opts)) (Some status)),
          sv_rotating = False, sv_rotation = 0, sv_session_generation = generation,
          sv_token_refresh = rt_refresh resolved\<rparr>)"

text \<open>
  Validation, the token to start with, the check that the URI can be printed, and a session
  generation come first; the generation is used up even if the service turns out to exist.
\<close>

definition start_service ::
  "crates \<Rightarrow> hosted_service_options \<Rightarrow> access_token \<Rightarrow> system_time \<Rightarrow> instant \<Rightarrow> node
     \<Rightarrow> (sculk_node_error + service_id) \<times> node" where
  "start_service X opts fresh now now_monotonic n =
     (case validate_target (so_target_addr opts) of
        Inl e \<Rightarrow> (Inl e, n)
      | Inr _ \<Rightarrow>
     (case resolve_token_state (so_token_refresh opts) (so_token_state opts) fresh now now_monotonic of
        Inl e \<Rightarrow> (Inl e, n)
      | Inr resolved \<Rightarrow>
     (case expose_secret_uri X (node_join_uri_value n (so_service_id opts) (ts_token (rt_state resolved))) of
        Inl e \<Rightarrow> (Inl (NodeJoinUri e), n)
      | Inr _ \<Rightarrow>
     (case checked_inc (nd_session_next n) of
        None \<Rightarrow> (Inl SessionGenerationExhausted, n)
      | Some next \<Rightarrow>
          let generation = nd_session_next n;
              n1 = n\<lparr>nd_session_next := next\<rparr>
          in if lookup_service n1 (so_service_id opts) \<noteq> None then (Inl DuplicateService, n1)
             else (Inr (so_service_id opts),
                   n1\<lparr>nd_objects := nd_objects n1 @ [new_service opts resolved generation],
                      nd_services := AList.update (so_service_id opts) (length (nd_objects n1)) (nd_services n1)\<rparr>)))))"

section \<open>Unpublishing\<close>

text \<open>\<^verbatim>\<open>conns.drain(..)\<close>: the connections that still exist are closed with \<open>reason\<close>.\<close>

definition drain_conns :: "net_view \<Rightarrow> string \<Rightarrow> host_world \<Rightarrow> host_world" where
  "drain_conns net reason w =
     (let live = filter (\<lambda>t. net (tc_handle t) \<noteq> None) (ct_conns (hw_ctx w))
      in w\<lparr>hw_ctx := (hw_ctx w)\<lparr>ct_conns := []\<rparr>,
           hw_closes := hw_closes w @ map (\<lambda>t. (tc_handle t, CLOSE_HOST_STOPPED, reason)) live\<rparr>)"

definition stop_object :: "net_view \<Rightarrow> string \<Rightarrow> hosted_service \<Rightarrow> hosted_service" where
  "stop_object net reason sv =
     on_world (on_status (set_phase Stopped)) (on_world (drain_conns net reason)
       (on_world (on_status (set_phase Stopping)) sv))"

definition stop_service :: "net_view \<Rightarrow> service_id \<Rightarrow> node \<Rightarrow> (sculk_node_error + unit) \<times> node" where
  "stop_service net sid n =
     (case lookup_service n sid of
        None \<Rightarrow> (Inl ServiceNotFound, n)
      | Some i \<Rightarrow>
          (Inr (), update_object i (stop_object net ''service stopped'')
             (n\<lparr>nd_services := AList.delete sid (nd_services n)\<rparr>)))"

definition node_close :: "net_view \<Rightarrow> node \<Rightarrow> node" where
  "node_close net n =
     (let stopped = fold (\<lambda>(_, i). update_object i (stop_object net ''node stopped'')) (nd_services n)
                      (n\<lparr>nd_services := []\<rparr>)
      in stopped\<lparr>nd_open := False\<rparr>)"

section \<open>Rotating a token\<close>

text \<open>Up to the second look at the registry; \<open>fresh\<close> is the generated token.\<close>

definition rotate_begin ::
  "crates \<Rightarrow> service_id \<Rightarrow> u64 option \<Rightarrow> bool \<Rightarrow> access_token \<Rightarrow> system_time \<Rightarrow> node
     \<Rightarrow> (sculk_node_error + pending_rotation) \<times> node" where
  "rotate_begin X sid expected reset_timer fresh now n =
     (case lookup_service n sid of
        None \<Rightarrow> (Inl ServiceNotFound, n)
      | Some i \<Rightarrow>
          let sv = nd_objects n ! i
          in if (case expected of None \<Rightarrow> False | Some g \<Rightarrow> g \<noteq> sv_session_generation sv)
             then (Inl ServiceNotFound, n)
             else if sv_rotating sv then (Inl RotationInProgress, n)
             else case expose_secret_uri X (node_join_uri_value n (sv_service_id sv) fresh) of
               Inl e \<Rightarrow> (Inl (NodeJoinUri e), n)
             | Inr _ \<Rightarrow> case rotation_deadline now (sv_token_refresh sv) of
                 Inl e \<Rightarrow> (Inl e, n)
               | Inr next_at \<Rightarrow>
                   let pr = \<lparr>pr_object = i, pr_service_id = sid, pr_token = fresh, pr_created_at = now,
                             pr_next_at = next_at, pr_reset_timer = reset_timer\<rparr>
                   in (Inr pr, update_object i (\<lambda>s. s\<lparr>sv_rotating := True\<rparr>)
                                 (n\<lparr>nd_rotations := pr # nd_rotations n\<rparr>)))"

definition apply_rotation :: "pending_rotation \<Rightarrow> hosted_service \<Rightarrow> hosted_service" where
  "apply_rotation pr sv =
     (let w = on_status (rotate_uri (pr_created_at pr) (pr_next_at pr)) (sv_world sv);
          w' = w\<lparr>hw_events := emit_event (hw_events w) TokenRotated\<rparr>
      in sv\<lparr>sv_token := pr_token pr, sv_world := w',
            sv_rotation := (if pr_reset_timer pr then sv_rotation sv + 1 else sv_rotation sv)\<rparr>)"

text \<open>The drop of \<^verbatim>\<open>_rotation\<close>: when the rotation returns, or its caller stops waiting for it.\<close>

definition release_rotation :: "pending_rotation \<Rightarrow> node \<Rightarrow> node" where
  "release_rotation pr n = update_object (pr_object pr) (\<lambda>s. s\<lparr>sv_rotating := False\<rparr>)
     (n\<lparr>nd_rotations := remove1 pr (nd_rotations n)\<rparr>)"

text \<open>The second look, the write, and the release of the mutex.\<close>

definition rotate_finish ::
  "pending_rotation \<Rightarrow> node \<Rightarrow> (sculk_node_error + join_uri) \<times> node" where
  "rotate_finish pr n =
     (case lookup_service n (pr_service_id pr) of
        None \<Rightarrow> (Inl ServiceNotFound, release_rotation pr n)
      | Some i \<Rightarrow>
          if i \<noteq> pr_object pr then (Inl ServiceNotFound, release_rotation pr n)
          else (Inr (node_join_uri_value n (sv_service_id (nd_objects n ! i)) (pr_token pr)),
                release_rotation pr (update_object i (apply_rotation pr) n)))"

definition record_rotation_failure ::
  "service_id \<Rightarrow> u64 \<Rightarrow> error_category \<Rightarrow> duration \<Rightarrow> node \<Rightarrow> node" where
  "record_rotation_failure sid generation category retry_in n =
     (case lookup_service n sid of
        None \<Rightarrow> n
      | Some i \<Rightarrow>
          if sv_session_generation (nd_objects n ! i) \<noteq> generation then n
          else update_object i (on_world (\<lambda>w.
                 let w1 = on_status (set_error category) w
                 in w1\<lparr>hw_events := emit_event (hw_events w1) (TokenRotationFailed retry_in)\<rparr>)) n)"

section \<open>The rotation task\<close>

text \<open>
  One turn of \<^verbatim>\<open>rotation_loop\<close>: the sleep ended (with the result of the rotation, read only if
  rotating was due), the reset channel changed, or it was closed. The schedule is gone when the
  task returns; the last part is the failure to report, if any.
\<close>

datatype rotation_turn =
    TurnSlept system_time instant "sculk_node_error + join_uri" system_time instant
  | TurnReset system_time instant
  | TurnClosed

definition after_reset :: "bool \<times> rotation_schedule \<Rightarrow> rotation_schedule option" where
  "after_reset r = (if fst r then Some (snd r) else None)"

fun rotation_loop ::
  "rotation_schedule \<Rightarrow> rotation_turn \<Rightarrow> rotation_schedule option \<times> (error_category \<times> duration) option" where
  "rotation_loop s (TurnSlept now mt result now' mt') =
     (if \<not> should_rotate s now mt then (Some s, None)
      else case result of
        Inr _ \<Rightarrow> (after_reset (schedule_reset s now' mt'), None)
      | Inl ServiceNotFound \<Rightarrow> (None, None)
      | Inl RotationInProgress \<Rightarrow> (Some (record_failure s), None)
      | Inl e \<Rightarrow>
          (let s' = record_failure s in (Some s', Some (node_error_category e, retry_delay s'))))"
| "rotation_loop s (TurnReset now mt) = (after_reset (schedule_reset s now mt), None)"
| "rotation_loop s TurnClosed = (None, None)"

section \<open>Routing connections\<close>

definition close_unauthenticated :: "conn_id \<Rightarrow> node \<Rightarrow> node" where
  "close_unauthenticated c n =
     n\<lparr>nd_closes := nd_closes n @ [(c, CLOSE_AUTH_FAILED, CLOSE_AUTH_FAILED_REASON)]\<rparr>"

text \<open>Whether the object a request was routed to has, at this moment, the token it presented.\<close>

definition token_valid :: "crates \<Rightarrow> node \<Rightarrow> nat option \<Rightarrow> access_token \<Rightarrow> bool" where
  "token_valid X n svc token =
     (case svc of None \<Rightarrow> False | Some i \<Rightarrow> token_matches X token (sv_token (nd_objects n ! i)))"

text \<open>
  \<^verbatim>\<open>route_connection\<close> from start to end, no other task running in between; the bytes are what it
  wrote to the control stream \<open>io\<close>.
\<close>

definition route_connection ::
  "crates \<Rightarrow> (conn_id \<Rightarrow> endpoint_id) \<Rightarrow> conn_id \<Rightarrow> host_stream \<Rightarrow> node
     \<Rightarrow> (sculk_error + unit) \<times> bytes \<times> node" where
  "route_connection X remote c io n =
     (case auth_accept io of
        (Inl _, w) \<Rightarrow> (Inr (), w, close_unauthenticated c n)
      | (Inr request, w) \<Rightarrow>
          let svc = lookup_service n (cq_service_id request);
              valid = token_valid X n svc (cq_token request)
          in case auth_respond io valid of
               (Inl e, w') \<Rightarrow> (Inl e, w @ w', n)
             | (Inr _, w') \<Rightarrow>
                 (case (svc, valid) of
                    (Some i, True) \<Rightarrow>
                      (Inr (), w @ w',
                       update_object i (on_world (start_authenticated_host_connection X remote c id)) n)
                  | _ \<Rightarrow> (Inr (), w @ w', close_unauthenticated c n)))"

section \<open>Status and handles\<close>

record sculk_node_status =
  ns_endpoint_id :: endpoint_id
  ns_online :: bool
  ns_relay_url :: "relay_url option"
  ns_service_count :: nat
  ns_unauthenticated_connection_count :: nat
  ns_unauthenticated_connections_max :: nat

definition node_status :: "node \<Rightarrow> sculk_node_status" where
  "node_status n =
     (let available = nd_slots n - length (nd_tasks n)
      in \<lparr>ns_endpoint_id = nd_endpoint_id n, ns_online = nd_open n, ns_relay_url = nd_relay_url n,
          ns_service_count = length (nd_services n),
          ns_unauthenticated_connection_count = nd_slots n - available,
          ns_unauthenticated_connections_max = nd_slots n\<rparr>)"

text \<open>
  \<^verbatim>\<open>HostedServiceHandle\<close>. \<open>join_uri\<close> and \<open>token_state\<close> wait for the rotation mutex: the outer
  \<open>None\<close> is waiting.
\<close>

definition handle_join_uri :: "service_id \<Rightarrow> node \<Rightarrow> (sculk_node_error + join_uri) option" where
  "handle_join_uri sid n =
     (case lookup_service n sid of
        None \<Rightarrow> Some (Inl ServiceNotFound)
      | Some i \<Rightarrow>
          let sv = nd_objects n ! i
          in if sv_rotating sv then None
             else Some (Inr (node_join_uri_value n (sv_service_id sv) (sv_token sv))))"

definition handle_token_state :: "service_id \<Rightarrow> node \<Rightarrow> (sculk_node_error + token_state) option" where
  "handle_token_state sid n =
     (case lookup_service n sid of
        None \<Rightarrow> Some (Inl ServiceNotFound)
      | Some i \<Rightarrow>
          let sv = nd_objects n ! i
          in if sv_rotating sv then None
             else case service_status sv of
               None \<Rightarrow> Some (Inl ServiceNotFound)
             | Some st \<Rightarrow> Some (Inr (token_state_new (sv_token sv) (st_token_created_at st))))"

definition handle_status :: "service_id \<Rightarrow> node \<Rightarrow> sculk_node_error + hosted_service_status" where
  "handle_status sid n =
     ok_or ServiceNotFound (Option.bind (lookup_service n sid) (\<lambda>i. service_status (nd_objects n ! i)))"

section \<open>Interleaved tasks\<close>

text \<open>What the tasks of a published service do to its world once connections are admitted.\<close>

fun service_label :: "host_label \<Rightarrow> bool" where
  "service_label (HostConnClosed c g r) = True"
| "service_label (HostTargetUnavailable e) = True"
| "service_label HostBridgeStarted = True"
| "service_label (HostBridgeEnded r) = True"
| "service_label _ = False"

datatype node_label =
    NodeStart hosted_service_options access_token system_time instant
  | NodeStop net_view service_id
  | NodeRotate service_id "u64 option" bool access_token system_time
  | NodeRotateFinish pending_rotation
  | NodeRotateDropped pending_rotation
  | NodeRotationFailed service_id u64 error_category duration
  | NodeIncoming conn_id
  | NodeAccepted conn_id bool
  | NodeRequest conn_id "sculk_error + control_request"
  | NodeCheckToken conn_id
  | NodeResponded conn_id "sculk_error + unit"
  | NodeRecheck conn_id
  | NodeService nat host_label
  | NodeClose net_view

definition set_node_task :: "conn_id \<Rightarrow> node_task \<Rightarrow> node \<Rightarrow> node" where
  "set_node_task c t n = n\<lparr>nd_tasks := AList.update c t (nd_tasks n)\<rparr>"

definition end_node_task :: "conn_id \<Rightarrow> node \<Rightarrow> node" where
  "end_node_task c n = n\<lparr>nd_tasks := AList.delete c (nd_tasks n)\<rparr>"

definition node_task_of :: "node \<Rightarrow> conn_id \<Rightarrow> node_task option" where
  "node_task_of n c = map_of (nd_tasks n) c"

definition admit_first_look ::
  "crates \<Rightarrow> (conn_id \<Rightarrow> endpoint_id) \<Rightarrow> conn_id \<Rightarrow> nat \<Rightarrow> node \<Rightarrow> node" where
  "admit_first_look X remote c i n =
     (if i < length (nd_objects n) then
        (case host_look X remote c (sv_world (nd_objects n ! i)) of
           Some w \<Rightarrow> end_node_task c (update_object i (on_world (\<lambda>_. w)) n)
         | None \<Rightarrow> set_node_task c (NodeRechecking i) n)
      else end_node_task c n)"

definition admit_second_look ::
  "crates \<Rightarrow> (conn_id \<Rightarrow> endpoint_id) \<Rightarrow> conn_id \<Rightarrow> nat \<Rightarrow> node \<Rightarrow> node" where
  "admit_second_look X remote c i n =
     end_node_task c (update_object i (on_world (\<lambda>w.
       case host_look X remote c w of Some w' \<Rightarrow> w' | None \<Rightarrow> host_reject_full X remote c w)) n)"

fun node_step ::
  "crates \<Rightarrow> (conn_id \<Rightarrow> endpoint_id) \<Rightarrow> node \<Rightarrow> node_label \<Rightarrow> node" where
  "node_step X remote n (NodeStart opts fresh now mt) = snd (start_service X opts fresh now mt n)"
| "node_step X remote n (NodeStop net sid) = snd (stop_service net sid n)"
| "node_step X remote n (NodeRotate sid expected reset_timer fresh now) =
     snd (rotate_begin X sid expected reset_timer fresh now n)"
| "node_step X remote n (NodeRotateFinish pr) =
     (if pr \<in> set (nd_rotations n) then snd (rotate_finish pr n) else n)"
| "node_step X remote n (NodeRotateDropped pr) =
     (if pr \<in> set (nd_rotations n) then release_rotation pr n else n)"
| "node_step X remote n (NodeRotationFailed sid g cat retry_in) = record_rotation_failure sid g cat retry_in n"
| "node_step X remote n (NodeIncoming c) =
     (if nd_open n \<and> length (nd_tasks n) < nd_slots n \<and> node_task_of n c = None
      then set_node_task c NodeAccepting n else n)"
| "node_step X remote n (NodeAccepted c ok) =
     (if node_task_of n c \<noteq> Some NodeAccepting then n
      else if ok then set_node_task c NodeAuthenticating n else end_node_task c n)"
| "node_step X remote n (NodeRequest c accepted) =
     (if node_task_of n c \<noteq> Some NodeAuthenticating then n
      else case accepted of
        Inl _ \<Rightarrow> end_node_task c (close_unauthenticated c n)
      | Inr r \<Rightarrow> set_node_task c (NodeLookedUp (lookup_service n (cq_service_id r)) (cq_token r)) n)"
| "node_step X remote n (NodeCheckToken c) =
     (case node_task_of n c of
        Some (NodeLookedUp svc token) \<Rightarrow> set_node_task c (NodeResponding svc (token_valid X n svc token)) n
      | _ \<Rightarrow> n)"
| "node_step X remote n (NodeResponded c r) =
     (case node_task_of n c of
        Some (NodeResponding svc valid) \<Rightarrow>
          (case r of
             Inl _ \<Rightarrow> end_node_task c n
           | Inr _ \<Rightarrow>
               (case (svc, valid) of
                  (Some i, True) \<Rightarrow> admit_first_look X remote c i n
                | _ \<Rightarrow> end_node_task c (close_unauthenticated c n)))
      | _ \<Rightarrow> n)"
| "node_step X remote n (NodeRecheck c) =
     (case node_task_of n c of
        Some (NodeRechecking i) \<Rightarrow> admit_second_look X remote c i n
      | _ \<Rightarrow> n)"
| "node_step X remote n (NodeService i l) =
     (if service_label l then update_object i (on_world (\<lambda>w. host_step X remote w l)) n else n)"
| "node_step X remote n (NodeClose net) = node_close net n"

end
