(* ===== verification/Node_Invariant.thy ===== *)
theory Node_Invariant
  imports Node_Service
begin

text \<open>
  What every interleaving of a Node's tasks keeps (\<open>node_inv\<close>): the registry names live objects
  under their own id, exactly the registered objects are \<open>Active\<close> and all others \<open>Stopped\<close>,
  session generations are never given twice, the rotation mutex of an object is held exactly
  while a rotation of it is pending, authentication permits are bounded, and every service's
  world satisfies the invariant of a Host.
\<close>

definition world_phase :: "host_world \<Rightarrow> hosted_service_phase option" where
  "world_phase w = map_option (st_phase \<circ> hx_current) (ct_status (hw_ctx w))"

definition object_live :: "node \<Rightarrow> nat \<Rightarrow> bool" where
  "object_live n i \<longleftrightarrow> lookup_service n (sv_service_id (nd_objects n ! i)) = Some i"

definition registry_ok :: "node \<Rightarrow> bool" where
  "registry_ok n \<longleftrightarrow> distinct (map fst (nd_services n))
     \<and> (\<forall>sid i. lookup_service n sid = Some i \<longrightarrow> i < length (nd_objects n) \<and> sv_service_id (nd_objects n ! i) = sid)"

definition phases_ok :: "node \<Rightarrow> bool" where
  "phases_ok n \<longleftrightarrow> (\<forall>i < length (nd_objects n).
     world_phase (sv_world (nd_objects n ! i)) = Some (if object_live n i then Active else Stopped))"

definition generations_ok :: "node \<Rightarrow> bool" where
  "generations_ok n \<longleftrightarrow> sorted_wrt (<) (map sv_session_generation (nd_objects n))
     \<and> (\<forall>sv\<in>set (nd_objects n). sv_session_generation sv < nd_session_next n)"

definition worlds_ok :: "(conn_id \<Rightarrow> endpoint_id) \<Rightarrow> node \<Rightarrow> bool" where
  "worlds_ok remote n \<longleftrightarrow> (\<forall>sv\<in>set (nd_objects n). host_inv remote (sv_world sv))"

definition rotations_ok :: "node \<Rightarrow> bool" where
  "rotations_ok n \<longleftrightarrow> distinct (map pr_object (nd_rotations n))
     \<and> (\<forall>pr\<in>set (nd_rotations n). pr_object pr < length (nd_objects n))
     \<and> (\<forall>i < length (nd_objects n). sv_rotating (nd_objects n ! i) \<longleftrightarrow> i \<in> set (map pr_object (nd_rotations n)))"

definition slots_ok :: "node \<Rightarrow> bool" where
  "slots_ok n \<longleftrightarrow> length (nd_tasks n) \<le> nd_slots n"

definition node_inv :: "(conn_id \<Rightarrow> endpoint_id) \<Rightarrow> node \<Rightarrow> bool" where
  "node_inv remote n \<longleftrightarrow>
     registry_ok n \<and> phases_ok n \<and> generations_ok n \<and> worlds_ok remote n \<and> rotations_ok n \<and> slots_ok n"

section \<open>Worlds keep their phase\<close>

lemma world_phase_blocks [simp]:
  "world_phase (host_emit e ev w) = world_phase w" "world_phase (host_emit_error k m w) = world_phase w"
  "world_phase (host_close c x r w) = world_phase w" "world_phase (with_sessions s w) = world_phase w"
  "world_phase (push_conn e c w) = world_phase w" "world_phase (end_task c w) = world_phase w"
  "world_phase (set_task c t w) = world_phase w"
  "world_phase (on_status (set_connection_count cnt) w) = world_phase w"
  "world_phase (on_status (set_error cat) w) = world_phase w"
  "world_phase (on_status bridge_started w) = world_phase w"
  "world_phase (on_status bridge_dropped w) = world_phase w"
  "world_phase (on_status (rotate_uri at d) w) = world_phase w"
  "world_phase (on_status (set_phase p) w) = map_option (\<lambda>_. p) (world_phase w)"
  "world_phase (w\<lparr>hw_watchers := ws\<rparr>) = world_phase w" "world_phase (w\<lparr>hw_events := ch\<rparr>) = world_phase w"
  by (simp_all add: world_phase_def option.map_comp comp_def)

lemma world_phase_admit [simp]: "world_phase (admit_registered X remote c r w) = world_phase w"
  by (auto simp: admit_registered_def Let_def split: prod.splits option.splits)

lemma world_phase_look: "host_look X remote c w = Some w' \<Longrightarrow> world_phase w' = world_phase w"
  by (auto simp: host_look_def split: prod.splits option.splits)

lemma world_phase_reject [simp]: "world_phase (host_reject_full X remote c w) = world_phase w"
  by (simp add: host_reject_full_def)

lemma world_phase_step: "service_label l \<Longrightarrow> world_phase (host_step X remote w l) = world_phase w"
  by (cases l)
    (auto simp: host_conn_closed_def Let_def host_target_unavailable_def host_bridge_started_def
      host_bridge_ended_def split: prod.splits sum.splits)

lemma world_phase_drain [simp]: "world_phase (drain_conns net r w) = world_phase w"
  by (simp add: drain_conns_def Let_def world_phase_def)

section \<open>Changes of one object\<close>

text \<open>A change of an object that keeps its identity and what the invariant says of it.\<close>

definition object_kept :: "(conn_id \<Rightarrow> endpoint_id) \<Rightarrow> hosted_service \<Rightarrow> hosted_service \<Rightarrow> bool" where
  "object_kept remote sv sv' \<longleftrightarrow>
     sv_service_id sv' = sv_service_id sv \<and> sv_session_generation sv' = sv_session_generation sv
     \<and> (host_inv remote (sv_world sv) \<longrightarrow> host_inv remote (sv_world sv'))"

lemma update_object_simps [simp]:
  "nd_services (update_object i f n) = nd_services n" "nd_session_next (update_object i f n) = nd_session_next n"
  "nd_tasks (update_object i f n) = nd_tasks n" "nd_slots (update_object i f n) = nd_slots n"
  "nd_rotations (update_object i f n) = nd_rotations n" "nd_open (update_object i f n) = nd_open n"
  "nd_endpoint_id (update_object i f n) = nd_endpoint_id n" "nd_relay_url (update_object i f n) = nd_relay_url n"
  "nd_closes (update_object i f n) = nd_closes n"
  "length (nd_objects (update_object i f n)) = length (nd_objects n)"
  "lookup_service (update_object i f n) sid = lookup_service n sid"
  by (simp_all add: update_object_def lookup_service_def)

lemma nth_update_object:
  "j < length (nd_objects n) \<Longrightarrow>
     nd_objects (update_object i f n) ! j = (if j = i then f (nd_objects n ! j) else nd_objects n ! j)"
  by (simp add: update_object_def)

lemma set_update_object: "sv \<in> set (nd_objects (update_object i f n)) \<Longrightarrow>
    sv \<in> set (nd_objects n) \<or> (\<exists>x \<in> set (nd_objects n). sv = f x)"
  using set_update_subset_insert [of "nd_objects n" i "f (nd_objects n ! i)"]
  by (fastforce simp: update_object_def split: if_splits)

lemma map_update_object:
  assumes "\<And>sv. g (f sv) = g sv"
  shows "map g (nd_objects (update_object i f n)) = map g (nd_objects n)"
  using assms by (simp add: update_object_def map_update list_update_same_conv)

lemma update_object_live:
  assumes "\<And>sv. sv_service_id (f sv) = sv_service_id sv" "j < length (nd_objects n)"
  shows "object_live (update_object i f n) j \<longleftrightarrow> object_live n j"
  using assms by (simp add: object_live_def nth_update_object)

lemma update_object_registry:
  assumes "\<And>sv. sv_service_id (f sv) = sv_service_id sv" "registry_ok n"
  shows "registry_ok (update_object i f n)"
  using assms by (auto simp: registry_ok_def nth_update_object)

lemma update_object_generations:
  assumes "\<And>sv. sv_session_generation (f sv) = sv_session_generation sv" "generations_ok n"
  shows "generations_ok (update_object i f n)"
proof -
  have "map sv_session_generation (nd_objects (update_object i f n)) = map sv_session_generation (nd_objects n)"
    by (rule map_update_object) (rule assms(1))
  moreover have "sv_session_generation sv < nd_session_next n" if "sv \<in> set (nd_objects (update_object i f n))" for sv
    using set_update_object [OF that] assms by (auto simp: generations_ok_def)
  ultimately show ?thesis using assms(2) by (simp add: generations_ok_def)
qed

lemma update_object_worlds:
  assumes "\<And>sv. host_inv remote (sv_world sv) \<Longrightarrow> host_inv remote (sv_world (f sv))" "worlds_ok remote n"
  shows "worlds_ok remote (update_object i f n)"
  using assms by (auto simp: worlds_ok_def dest!: set_update_object)

lemma update_object_rotations:
  assumes "\<And>sv. sv_rotating (f sv) = sv_rotating sv" "rotations_ok n"
  shows "rotations_ok (update_object i f n)"
  using assms by (auto simp: rotations_ok_def nth_update_object)

lemma update_object_phases:
  assumes "\<And>sv. sv_service_id (f sv) = sv_service_id sv"
    "\<And>sv. world_phase (sv_world (f sv)) = world_phase (sv_world sv)" "phases_ok n"
  shows "phases_ok (update_object i f n)"
  using assms by (auto simp: phases_ok_def nth_update_object update_object_live)

text \<open>An operation on the world of a service that keeps phase and invariant.\<close>

lemma on_world_simps [simp]:
  "sv_service_id (on_world f sv) = sv_service_id sv" "sv_session_generation (on_world f sv) = sv_session_generation sv"
  "sv_rotating (on_world f sv) = sv_rotating sv" "sv_world (on_world f sv) = f (sv_world sv)"
  "sv_token (on_world f sv) = sv_token sv" "sv_rotation (on_world f sv) = sv_rotation sv"
  by (simp_all add: on_world_def)

lemma on_world_inv:
  assumes "node_inv remote n"
    and "\<And>w. world_phase (f w) = world_phase w" "\<And>w. host_inv remote w \<Longrightarrow> host_inv remote (f w)"
  shows "node_inv remote (update_object i (on_world f) n)"
  using assms unfolding node_inv_def
  by (auto intro!: update_object_registry update_object_phases update_object_generations update_object_worlds
      update_object_rotations simp: slots_ok_def)

text \<open>Operations on the tasks and the log of closed connections.\<close>

definition node_data :: "node \<Rightarrow> (service_id \<times> nat) list \<times> hosted_service list \<times> u64 \<times> pending_rotation list" where
  "node_data n = (nd_services n, nd_objects n, nd_session_next n, nd_rotations n)"

lemma node_data_inv:
  assumes "node_inv remote n" "node_data n' = node_data n" "slots_ok n'"
  shows "node_inv remote n'"
  using assms
  by (simp add: node_inv_def node_data_def registry_ok_def phases_ok_def generations_ok_def worlds_ok_def
      rotations_ok_def lookup_service_def object_live_def)

lemma task_data [simp]:
  "node_data (set_node_task c t n) = node_data n" "node_data (end_node_task c n) = node_data n"
  "node_data (close_unauthenticated c n) = node_data n"
  by (simp_all add: node_data_def set_node_task_def end_node_task_def close_unauthenticated_def)

lemma node_inv_slots: "node_inv remote n \<Longrightarrow> length (nd_tasks n) \<le> nd_slots n"
  by (simp add: node_inv_def slots_ok_def)

lemma end_node_task_slots: "length (nd_tasks n) \<le> nd_slots n \<Longrightarrow> slots_ok (end_node_task c n)"
  by (auto simp: slots_ok_def end_node_task_def intro: order_trans [OF length_delete_le])

lemma set_node_task_slots:
  "\<lbrakk>length (nd_tasks n) \<le> nd_slots n; node_task_of n c \<noteq> None \<or> length (nd_tasks n) < nd_slots n\<rbrakk> \<Longrightarrow>
     slots_ok (set_node_task c t n)"
  by (auto simp: slots_ok_def set_node_task_def node_task_of_def length_update)

lemma close_unauthenticated_slots: "length (nd_tasks n) \<le> nd_slots n \<Longrightarrow> slots_ok (close_unauthenticated c n)"
  by (simp add: slots_ok_def close_unauthenticated_def)

lemma end_node_task_inv: "node_inv remote n \<Longrightarrow> node_inv remote (end_node_task c n)"
  by (rule node_data_inv [OF _ task_data(2)], assumption) (rule end_node_task_slots, erule node_inv_slots)

lemma set_node_task_inv:
  "\<lbrakk>node_inv remote n; node_task_of n c \<noteq> None \<or> length (nd_tasks n) < nd_slots n\<rbrakk> \<Longrightarrow>
     node_inv remote (set_node_task c t n)"
  by (rule node_data_inv [OF _ task_data(1)], assumption) (rule set_node_task_slots, erule node_inv_slots)

lemma close_unauthenticated_inv: "node_inv remote n \<Longrightarrow> node_inv remote (close_unauthenticated c n)"
  by (rule node_data_inv [OF _ task_data(3)], assumption) (rule close_unauthenticated_slots, erule node_inv_slots)

section \<open>Publishing\<close>

lemma new_service_fields [simp]:
  "sv_service_id (new_service opts r g) = so_service_id opts" "sv_session_generation (new_service opts r g) = g"
  "sv_rotating (new_service opts r g) = False"
  "world_phase (sv_world (new_service opts r g)) = Some Active"
  by (simp_all add: new_service_def Let_def world_phase_def host_world_new_def host_context_new_def
      hosted_status_new_def)

lemma new_service_world: "host_inv remote (sv_world (new_service opts r g))"
proof (rule host_start_inv)
  show "host_start (sv_world (new_service opts r g))"
    unfolding host_start_def
    by (intro exI [of _ "hc_event_delay (so_config opts)"] exI [of _ "so_service_id opts"]
        exI [of _ "ts_token (rt_state r)"] exI [of _ "hc_max_players (so_config opts)"]
        exI [of _ "Some (hosted_status_new (so_service_id opts) (ts_created_at (rt_state r)) (rt_deadline r))"])
      (simp add: new_service_def Let_def hosted_status_new_def)
qed

text \<open>The result of \<open>start_service\<close> is one of three: unchanged, a generation used up, a new object.\<close>

definition with_new_service :: "hosted_service \<Rightarrow> node \<Rightarrow> node" where
  "with_new_service sv n =
     n\<lparr>nd_objects := nd_objects n @ [sv],
       nd_services := AList.update (sv_service_id sv) (length (nd_objects n)) (nd_services n)\<rparr>"

lemma start_service_cases:
  assumes "start_service X opts fresh now mt n = (r, n')"
  obtains (refused) e where "r = Inl e" "n' = n"
  | (duplicate) nxt where "r = Inl DuplicateService" "checked_inc (nd_session_next n) = Some nxt"
      "n' = n\<lparr>nd_session_next := nxt\<rparr>" "lookup_service n (so_service_id opts) \<noteq> None"
  | (started) nxt resolved where "r = Inr (so_service_id opts)" "checked_inc (nd_session_next n) = Some nxt"
      "lookup_service n (so_service_id opts) = None" "validate_target (so_target_addr opts) = Inr ()"
      "resolve_token_state (so_token_refresh opts) (so_token_state opts) fresh now mt = Inr resolved"
      "is_ok (expose_secret_uri X (node_join_uri_value n (so_service_id opts) (ts_token (rt_state resolved))))"
      "n' = with_new_service (new_service opts resolved (nd_session_next n)) (n\<lparr>nd_session_next := nxt\<rparr>)"
proof (cases "validate_target (so_target_addr opts)")
  case (Inl e)
  with assms have "r = Inl e \<and> n' = n" by (simp add: start_service_def)
    then show thesis using refused by blast
next
  case v: (Inr u)
  show thesis
  proof (cases "resolve_token_state (so_token_refresh opts) (so_token_state opts) fresh now mt")
    case (Inl e)
    with v assms have "r = Inl e \<and> n' = n" by (simp add: start_service_def)
    then show thesis using refused by blast
  next
    case t: (Inr resolved)
    define shown where "shown = expose_secret_uri X (node_join_uri_value n (so_service_id opts) (ts_token (rt_state resolved)))"
    show thesis
    proof (cases shown)
      case (Inl e)
      with v t assms have "r = Inl (NodeJoinUri e) \<and> n' = n" by (simp add: start_service_def shown_def)
    then show thesis using refused by blast
    next
      case e: (Inr txt1)
      show thesis
      proof (cases "checked_inc (nd_session_next n)")
        case None
        with v t e assms have "r = Inl SessionGenerationExhausted \<and> n' = n" by (simp add: start_service_def shown_def)
    then show thesis using refused by blast
      next
        case (Some nxt)
        have eq: "start_service X opts fresh now mt n =
            (if lookup_service n (so_service_id opts) \<noteq> None then (Inl DuplicateService, n\<lparr>nd_session_next := nxt\<rparr>)
             else (Inr (so_service_id opts),
                   with_new_service (new_service opts resolved (nd_session_next n)) (n\<lparr>nd_session_next := nxt\<rparr>)))"
          using v t e [unfolded shown_def] Some
          by (simp add: start_service_def Let_def lookup_service_def with_new_service_def)
        show thesis
        proof (cases "lookup_service n (so_service_id opts)")
          case None
          with eq assms show thesis
            by (intro started [OF _ Some None _ t]) (simp_all add: v e [unfolded shown_def])
        next
          case (Some i)
          with eq assms \<open>checked_inc (nd_session_next n) = Some nxt\<close> show thesis by (intro duplicate) simp_all
        qed
      qed
    qed
  qed
qed

lemma bump_generation_inv:
  assumes "node_inv remote n" "checked_inc (nd_session_next n) = Some nxt"
  shows "node_inv remote (n\<lparr>nd_session_next := nxt\<rparr>)"
proof -
  have "nd_session_next n < nxt"
    using checked_inc_Some [OF assms(2)] by (simp add: word_less_nat_alt)
  then have "generations_ok (n\<lparr>nd_session_next := nxt\<rparr>)"
    using assms(1) by (auto simp: node_inv_def generations_ok_def)
  with assms(1) show ?thesis
    by (simp add: node_inv_def registry_ok_def phases_ok_def worlds_ok_def rotations_ok_def slots_ok_def
        lookup_service_def object_live_def)
qed

lemma nth_snoc: "i < length xs \<Longrightarrow> (xs @ [x]) ! i = xs ! i"
  by (simp add: nth_append)

lemma with_new_service_inv:
  assumes inv: "node_inv remote n" and free: "lookup_service n (sv_service_id sv) = None"
    and sv: "sv_session_generation sv < nd_session_next n" "\<forall>o'\<in>set (nd_objects n). sv_session_generation o' < sv_session_generation sv"
    "\<not> sv_rotating sv" "world_phase (sv_world sv) = Some Active" "host_inv remote (sv_world sv)"
  shows "node_inv remote (with_new_service sv n)"
proof -
  define n' where "n' = with_new_service sv n"
  have objs: "nd_objects n' = nd_objects n @ [sv]" and rots: "nd_rotations n' = nd_rotations n"
    and nxt: "nd_session_next n' = nd_session_next n" and sl: "nd_tasks n' = nd_tasks n" "nd_slots n' = nd_slots n"
    by (simp_all add: n'_def with_new_service_def)
  have look: "lookup_service n' sid = (if sid = sv_service_id sv then Some (length (nd_objects n)) else lookup_service n sid)" for sid
    by (simp add: n'_def with_new_service_def lookup_service_def update_conv')
  have ids: "i < length (nd_objects n)" if "lookup_service n sid = Some i" for sid i
    using inv that by (auto simp: node_inv_def registry_ok_def)
  have live: "object_live n' i \<longleftrightarrow> object_live n i" if "i < length (nd_objects n)" for i
    using that free by (auto simp: object_live_def objs nth_snoc look)
  have live_new: "object_live n' (length (nd_objects n))" by (simp add: object_live_def objs look)
  have "distinct (map fst (nd_services n'))"
    using inv by (simp add: n'_def with_new_service_def distinct_update node_inv_def registry_ok_def)
  then have "registry_ok n'"
    using inv by (auto simp: registry_ok_def look objs nth_snoc node_inv_def dest: ids)
  moreover have "phases_ok n'"
    using inv sv(4) live live_new
    by (auto simp: phases_ok_def objs nth_snoc node_inv_def less_Suc_eq nth_append)
  moreover have "generations_ok n'"
    using inv sv(1,2) by (auto simp: generations_ok_def objs nxt node_inv_def sorted_wrt_append)
  moreover have "worlds_ok remote n'" using inv sv(5) by (auto simp: worlds_ok_def objs node_inv_def)
  moreover have "rotations_ok n'"
    using inv sv(3) by (auto simp: rotations_ok_def objs rots node_inv_def less_Suc_eq nth_append)
  moreover have "slots_ok n'" using inv by (simp add: slots_ok_def sl node_inv_def)
  ultimately show ?thesis by (simp add: node_inv_def n'_def)
qed

lemma start_service_inv:
  assumes "node_inv remote n"
  shows "node_inv remote (snd (start_service X opts fresh now mt n))"
proof -
  obtain r n' where run: "start_service X opts fresh now mt n = (r, n')" by force
  then show ?thesis
  proof (cases rule: start_service_cases)
    case (refused e)
    with run assms show ?thesis by simp
  next
    case (duplicate nxt)
    with run bump_generation_inv [OF assms] show ?thesis by simp
  next
    case (started nxt resolved)
    have lt: "nd_session_next n < nxt"
      using checked_inc_Some [OF started(2)] by (simp add: word_less_nat_alt)
    have "node_inv remote (with_new_service (new_service opts resolved (nd_session_next n)) (n\<lparr>nd_session_next := nxt\<rparr>))"
    proof (rule with_new_service_inv [OF bump_generation_inv [OF assms started(2)]])
      show "lookup_service (n\<lparr>nd_session_next := nxt\<rparr>) (sv_service_id (new_service opts resolved (nd_session_next n))) = None"
        using started(3) by (simp add: lookup_service_def)
      show "\<forall>o'\<in>set (nd_objects (n\<lparr>nd_session_next := nxt\<rparr>)).
          sv_session_generation o' < sv_session_generation (new_service opts resolved (nd_session_next n))"
        using assms by (simp add: node_inv_def generations_ok_def)
    qed (simp_all add: lt new_service_world)
    with run started(7) show ?thesis by simp
  qed
qed

section \<open>Unpublishing\<close>

lemma stop_object_fields [simp]:
  "sv_service_id (stop_object net r sv) = sv_service_id sv"
  "sv_session_generation (stop_object net r sv) = sv_session_generation sv"
  "sv_rotating (stop_object net r sv) = sv_rotating sv" "sv_token (stop_object net r sv) = sv_token sv"
  "world_phase (sv_world (stop_object net r sv)) = map_option (\<lambda>_. Stopped) (world_phase (sv_world sv))"
  by (simp_all add: stop_object_def option.map_comp comp_def)

lemma set_phase_same: "host_same w (on_status (set_phase p) w)"
  by (simp add: host_same_def joined_events_def left_events_def option.map_comp comp_def)

lemma drain_same: "host_same w (drain_conns net r w)"
  by (simp add: host_same_def joined_events_def left_events_def drain_conns_def Let_def sessions_of_def)

lemma stop_object_world:
  assumes "host_inv remote (sv_world sv)"
  shows "host_inv remote (sv_world (stop_object net r sv))"
proof -
  define w1 where "w1 = on_status (set_phase Stopping) (sv_world sv)"
  have "host_same (sv_world sv) (on_status (set_phase Stopped) (drain_conns net r w1))"
    unfolding w1_def by (intro host_same_trans [OF host_same_trans [OF set_phase_same drain_same] set_phase_same])
  then have "host_inv remote (on_status (set_phase Stopped) (drain_conns net r w1))"
    by (rule host_quiet_inv [OF _ assms]) (simp add: w1_def drain_conns_def Let_def on_status_def)
  then show ?thesis by (simp add: stop_object_def w1_def)
qed

text \<open>The phases while services are being stopped: the objects of \<open>pending\<close> are still to come.\<close>

lemma stop_service_inv:
  assumes inv: "node_inv remote n"
  shows "node_inv remote (snd (stop_service net sid n))"
proof (cases "lookup_service n sid")
  case None
  with inv show ?thesis by (simp add: stop_service_def)
next
  case (Some i)
  define m where "m = n\<lparr>nd_services := AList.delete sid (nd_services n)\<rparr>"
  define n' where "n' = update_object i (stop_object net ''service stopped'') m"
  have look: "lookup_service n' x = (if x = sid then None else lookup_service n x)" for x
    by (simp add: n'_def m_def lookup_service_def delete_conv')
  have i: "i < length (nd_objects n)" "sv_service_id (nd_objects n ! i) = sid"
    using inv Some by (auto simp: node_inv_def registry_ok_def)
  have objs: "nd_objects m = nd_objects n" by (simp add: m_def)
  have nth: "j < length (nd_objects n) \<Longrightarrow>
      nd_objects n' ! j = (if j = i then stop_object net ''service stopped'' (nd_objects n ! j) else nd_objects n ! j)" for j
    by (simp add: n'_def nth_update_object objs)
  have len: "length (nd_objects n') = length (nd_objects n)" by (simp add: n'_def objs)
  have live: "object_live n' j \<longleftrightarrow> j \<noteq> i \<and> object_live n j" if "j < length (nd_objects n)" for j
    using that i Some by (auto simp: object_live_def nth look)
  have "distinct (map fst (nd_services n'))"
    using inv by (simp add: n'_def m_def distinct_delete node_inv_def registry_ok_def)
  then have "registry_ok n'"
    using inv by (auto simp: registry_ok_def look len nth node_inv_def split: if_splits)
  moreover have "phases_ok n'"
    using inv live by (auto simp: phases_ok_def len nth node_inv_def)
  moreover have "generations_ok n'"
    unfolding n'_def
    by (rule update_object_generations) (use inv in \<open>simp_all add: node_inv_def generations_ok_def m_def\<close>)
  moreover have "worlds_ok remote n'"
    unfolding n'_def
    by (rule update_object_worlds) (use inv stop_object_world in \<open>auto simp: node_inv_def worlds_ok_def m_def\<close>)
  moreover have "rotations_ok n'"
    unfolding n'_def
    by (rule update_object_rotations) (use inv in \<open>simp_all add: node_inv_def rotations_ok_def m_def\<close>)
  moreover have "slots_ok n'" using inv by (simp add: n'_def m_def slots_ok_def node_inv_def)
  ultimately show ?thesis using Some by (simp add: stop_service_def node_inv_def n'_def m_def)
qed

text \<open>Closing the Node stops every registered object, one after the other.\<close>

definition stop_all :: "net_view \<Rightarrow> (service_id \<times> nat) list \<Rightarrow> node \<Rightarrow> node" where
  "stop_all net svs n = fold (\<lambda>(_, i). update_object i (stop_object net ''node stopped'')) svs n"

lemma stop_all_simps [simp]:
  "stop_all net [] n = n"
  "stop_all net (p # svs) n = stop_all net svs (update_object (snd p) (stop_object net ''node stopped'') n)"
  by (simp_all add: stop_all_def case_prod_beta)

lemma stop_all_meta:
  "nd_services (stop_all net svs n) = nd_services n \<and> nd_session_next (stop_all net svs n) = nd_session_next n
   \<and> nd_tasks (stop_all net svs n) = nd_tasks n \<and> nd_slots (stop_all net svs n) = nd_slots n
   \<and> nd_rotations (stop_all net svs n) = nd_rotations n
   \<and> length (nd_objects (stop_all net svs n)) = length (nd_objects n)"
  by (induction svs arbitrary: n) auto

lemma stop_all_keeps:
  assumes "generations_ok n" "worlds_ok remote n" "rotations_ok n"
  shows "generations_ok (stop_all net svs n) \<and> worlds_ok remote (stop_all net svs n) \<and> rotations_ok (stop_all net svs n)"
  using assms
proof (induction svs arbitrary: n)
  case (Cons p svs)
  define m where "m = update_object (snd p) (stop_object net ''node stopped'') n"
  have "generations_ok m"
    unfolding m_def by (rule update_object_generations) (use Cons.prems in simp_all)
  moreover have "worlds_ok remote m"
    unfolding m_def by (rule update_object_worlds) (use Cons.prems stop_object_world in auto)
  moreover have "rotations_ok m"
    unfolding m_def by (rule update_object_rotations) (use Cons.prems in simp_all)
  ultimately show ?case using Cons.IH [of m] by (simp add: m_def)
qed simp

lemma stop_all_phases:
  assumes "\<forall>i < length (nd_objects n). world_phase (sv_world (nd_objects n ! i)) = Some Stopped
      \<or> i \<in> snd ` set svs \<and> world_phase (sv_world (nd_objects n ! i)) \<noteq> None"
  shows "\<forall>i < length (nd_objects n). world_phase (sv_world (nd_objects (stop_all net svs n) ! i)) = Some Stopped"
  using assms
proof (induction svs arbitrary: n)
  case (Cons p svs)
  define m where "m = update_object (snd p) (stop_object net ''node stopped'') n"
  have "\<forall>i < length (nd_objects m). world_phase (sv_world (nd_objects m ! i)) = Some Stopped
      \<or> i \<in> snd ` set svs \<and> world_phase (sv_world (nd_objects m ! i)) \<noteq> None"
    using Cons.prems by (auto simp: m_def nth_update_object)
  from Cons.IH [OF this] show ?case by (simp add: m_def)
qed simp

lemma node_close_inv:
  assumes inv: "node_inv remote n"
  shows "node_inv remote (node_close net n)"
proof -
  define m where "m = n\<lparr>nd_services := []\<rparr>"
  define n' where "n' = stop_all net (nd_services n) m"
  note meta = stop_all_meta [of net "nd_services n" m, folded n'_def]
  have objs: "nd_objects m = nd_objects n" by (simp add: m_def)
  have "i \<in> snd ` set (nd_services n)" if "object_live n i" for i
    using that by (force simp: object_live_def lookup_service_def dest: map_of_SomeD)
  then have "\<forall>i < length (nd_objects m). world_phase (sv_world (nd_objects m ! i)) = Some Stopped
      \<or> i \<in> snd ` set (nd_services n) \<and> world_phase (sv_world (nd_objects m ! i)) \<noteq> None"
    using inv by (auto simp: objs node_inv_def phases_ok_def split: if_splits)
  note stopped = stop_all_phases [OF this, of net, folded n'_def]
  have kept: "generations_ok m" "worlds_ok remote m" "rotations_ok m"
    using inv by (simp_all add: node_inv_def m_def generations_ok_def worlds_ok_def rotations_ok_def)
  have none: "lookup_service n' sid = None" for sid using meta by (simp add: lookup_service_def m_def)
  have "node_inv remote n'"
    using stop_all_keeps [OF kept, of net "nd_services n", folded n'_def] stopped meta inv none
    by (auto simp: node_inv_def registry_ok_def phases_ok_def slots_ok_def object_live_def m_def)
  then have "node_inv remote (n'\<lparr>nd_open := False\<rparr>)"
    by (rule node_data_inv) (use meta inv in \<open>simp_all add: node_data_def slots_ok_def node_inv_def m_def\<close>)
  then show ?thesis by (simp add: node_close_def n'_def m_def stop_all_def Let_def)
qed

section \<open>Rotating\<close>

lemma rotate_begin_cases:
  assumes "rotate_begin X sid expected reset fresh now n = (r, n')"
  obtains (refused) e where "r = Inl e" "n' = n"
  | (begun) pr i where "r = Inr pr" "lookup_service n sid = Some i" "pr_object pr = i" "pr_service_id pr = sid"
      "pr_token pr = fresh" "pr_created_at pr = now" "\<not> sv_rotating (nd_objects n ! i)"
      "n' = update_object i (\<lambda>s. s\<lparr>sv_rotating := True\<rparr>) (n\<lparr>nd_rotations := pr # nd_rotations n\<rparr>)"
      "is_ok (expose_secret_uri X (node_join_uri_value n (sv_service_id (nd_objects n ! i)) fresh))"
      "rotation_deadline now (sv_token_refresh (nd_objects n ! i)) = Inr (pr_next_at pr)"
proof (cases "lookup_service n sid")
  case None
  with assms refused show thesis by (auto simp: rotate_begin_def)
next
  case (Some i)
  define sv where "sv = nd_objects n ! i"
  define shown where "shown = expose_secret_uri X (node_join_uri_value n (sv_service_id sv) fresh)"
  show thesis
  proof (cases "(case expected of None \<Rightarrow> False | Some g \<Rightarrow> g \<noteq> sv_session_generation sv) \<or> sv_rotating sv
      \<or> \<not> is_ok shown \<or> \<not> is_ok (rotation_deadline now (sv_token_refresh sv))")
    case True
    have "(\<exists>e. r = Inl e) \<and> n' = n"
      using assms True
      unfolding rotate_begin_def Some option.case Let_def sv_def [symmetric] shown_def [symmetric]
      by (cases shown; cases "rotation_deadline now (sv_token_refresh sv)") (auto split: if_splits)
    with refused show thesis by blast
  next
    case False
    then obtain a d where ok: "shown = Inr a" "rotation_deadline now (sv_token_refresh sv) = Inr d"
      by (cases shown; cases "rotation_deadline now (sv_token_refresh sv)") auto
    define pr where "pr = \<lparr>pr_object = i, pr_service_id = sid, pr_token = fresh, pr_created_at = now,
        pr_next_at = d, pr_reset_timer = reset\<rparr>"
    have "rotate_begin X sid expected reset fresh now n =
        (Inr pr, update_object i (\<lambda>s. s\<lparr>sv_rotating := True\<rparr>) (n\<lparr>nd_rotations := pr # nd_rotations n\<rparr>))"
      using False ok unfolding rotate_begin_def Some option.case Let_def sv_def [symmetric] shown_def [symmetric]
      by (simp add: pr_def)
    with assms have res: "r = Inr pr"
        "n' = update_object i (\<lambda>s. s\<lparr>sv_rotating := True\<rparr>) (n\<lparr>nd_rotations := pr # nd_rotations n\<rparr>)"
      by simp_all
    show thesis
      by (rule begun [OF res(1) Some _ _ _ _ _ res(2)]) (use False ok in \<open>simp_all add: pr_def sv_def shown_def\<close>)
  qed
qed

lemma rotate_begin_inv:
  assumes inv: "node_inv remote n"
  shows "node_inv remote (snd (rotate_begin X sid expected reset fresh now n))"
proof -
  obtain r n' where run: "rotate_begin X sid expected reset fresh now n = (r, n')" by force
  then show ?thesis
  proof (cases rule: rotate_begin_cases)
    case (refused e)
    with run inv show ?thesis by simp
  next
    case (begun pr i)
    define m where "m = n\<lparr>nd_rotations := pr # nd_rotations n\<rparr>"
    have n': "n' = update_object i (\<lambda>s. s\<lparr>sv_rotating := True\<rparr>) m" by (simp add: m_def begun(8))
    have i: "i < length (nd_objects n)" using inv begun(2) by (auto simp: node_inv_def registry_ok_def)
    have mok: "registry_ok m" "phases_ok m" "generations_ok m" "worlds_ok remote m"
      using inv by (simp_all add: node_inv_def m_def registry_ok_def phases_ok_def generations_ok_def worlds_ok_def
          lookup_service_def object_live_def)
    have "rotations_ok n'"
      using inv begun(3,7) i
      by (auto simp: n' rotations_ok_def node_inv_def nth_update_object m_def)
    moreover have "registry_ok n'" "phases_ok n'" "generations_ok n'" "worlds_ok remote n'"
      unfolding n' using mok
      by (auto intro: update_object_registry update_object_phases update_object_generations update_object_worlds)
    moreover have "slots_ok n'" using inv by (simp add: n' m_def slots_ok_def node_inv_def)
    ultimately show ?thesis using run by (simp add: node_inv_def)
  qed
qed

lemma rotate_same: "host_same w (on_status (rotate_uri t d) w)"
  by (simp add: host_same_def joined_events_def left_events_def option.map_comp comp_def)

lemma events_same: "host_same w (w\<lparr>hw_events := ch\<rparr>)"
  by (simp add: host_same_def joined_events_def left_events_def sessions_of_def)

lemma apply_rotation_fields [simp]:
  "sv_service_id (apply_rotation pr sv) = sv_service_id sv"
  "sv_session_generation (apply_rotation pr sv) = sv_session_generation sv"
  "sv_rotating (apply_rotation pr sv) = sv_rotating sv" "sv_token (apply_rotation pr sv) = pr_token pr"
  "world_phase (sv_world (apply_rotation pr sv)) = world_phase (sv_world sv)"
  by (simp_all add: apply_rotation_def Let_def)

lemma apply_rotation_world: "host_inv remote (sv_world sv) \<Longrightarrow> host_inv remote (sv_world (apply_rotation pr sv))"
  unfolding apply_rotation_def Let_def
  by (simp, rule host_quiet_inv [OF host_same_trans [OF rotate_same events_same]]) (simp_all add: on_status_def)

lemma apply_rotation_inv: "node_inv remote n \<Longrightarrow> node_inv remote (update_object i (apply_rotation pr) n)"
  unfolding node_inv_def
  by (auto intro!: update_object_registry update_object_phases update_object_generations update_object_worlds
      update_object_rotations apply_rotation_world simp: slots_ok_def)

lemma map_remove1_distinct:
  "distinct (map f xs) \<Longrightarrow> x \<in> set xs \<Longrightarrow>
     distinct (map f (remove1 x xs)) \<and> set (map f (remove1 x xs)) = set (map f xs) - {f x}"
proof (induction xs)
  case (Cons y ys)
  show ?case
  proof (cases "x = y")
    case True
    with Cons.prems show ?thesis by auto
  next
    case False
    with Cons show ?thesis by (auto simp: image_iff)
  qed
qed simp

lemma release_rotation_inv:
  assumes inv: "node_inv remote n" and pr: "pr \<in> set (nd_rotations n)"
  shows "node_inv remote (release_rotation pr n)"
proof -
  define m where "m = n\<lparr>nd_rotations := remove1 pr (nd_rotations n)\<rparr>"
  have n': "release_rotation pr n = update_object (pr_object pr) (\<lambda>s. s\<lparr>sv_rotating := False\<rparr>) m"
    by (simp add: release_rotation_def m_def)
  have mok: "registry_ok m" "phases_ok m" "generations_ok m" "worlds_ok remote m"
    using inv by (simp_all add: node_inv_def m_def registry_ok_def phases_ok_def generations_ok_def worlds_ok_def
        lookup_service_def object_live_def)
  have dist: "distinct (map pr_object (nd_rotations n))" using inv by (simp add: node_inv_def rotations_ok_def)
  have keys: "distinct (map pr_object (remove1 pr (nd_rotations n)))
      \<and> set (map pr_object (remove1 pr (nd_rotations n))) = set (map pr_object (nd_rotations n)) - {pr_object pr}"
    using map_remove1_distinct [OF dist pr] .
  have "rotations_ok (release_rotation pr n)"
    using inv keys unfolding n'
    by (auto simp: rotations_ok_def node_inv_def nth_update_object m_def dest: notin_set_remove1 in_set_remove1 [THEN iffD1, rotated])
  moreover have "registry_ok (release_rotation pr n)" "phases_ok (release_rotation pr n)"
    "generations_ok (release_rotation pr n)" "worlds_ok remote (release_rotation pr n)"
    unfolding n' using mok
    by (auto intro: update_object_registry update_object_phases update_object_generations update_object_worlds)
  moreover have "slots_ok (release_rotation pr n)" using inv by (simp add: n' m_def slots_ok_def node_inv_def)
  ultimately show ?thesis by (simp add: node_inv_def)
qed

lemma rotate_finish_alt:
  "rotate_finish pr n =
     (if lookup_service n (pr_service_id pr) = Some (pr_object pr)
      then (Inr (node_join_uri_value n (sv_service_id (nd_objects n ! pr_object pr)) (pr_token pr)),
            release_rotation pr (update_object (pr_object pr) (apply_rotation pr) n))
      else (Inl ServiceNotFound, release_rotation pr n))"
  by (auto simp: rotate_finish_def split: option.splits)

lemma rotate_finish_inv:
  assumes "node_inv remote n" "pr \<in> set (nd_rotations n)"
  shows "node_inv remote (snd (rotate_finish pr n))"
  using assms by (simp add: rotate_finish_alt release_rotation_inv apply_rotation_inv)

lemma record_rotation_failure_inv:
  assumes "node_inv remote n"
  shows "node_inv remote (record_rotation_failure sid g cat retry_in n)"
proof -
  define f where "f = (\<lambda>w. let w1 = on_status (set_error cat) w
      in w1\<lparr>hw_events := emit_event (hw_events w1) (TokenRotationFailed retry_in)\<rparr>)"
  have "host_inv remote (f w)" if "host_inv remote w" for w
    by (rule host_quiet_inv [OF _ that, of "f w"])
      (simp_all add: f_def Let_def host_same_def joined_events_def left_events_def sessions_of_def on_status_def
        option.map_comp comp_def)
  then have "node_inv remote (update_object i (on_world f) n)" for i
    by (intro on_world_inv [OF assms]) (simp_all add: f_def Let_def)
  then show ?thesis
    by (simp add: record_rotation_failure_def f_def assms split: option.split)
qed

section \<open>Routing\<close>

lemma host_look_or_keep_inv:
  assumes "node_inv remote n" "i < length (nd_objects n)"
    and look: "host_look X remote c (sv_world (nd_objects n ! i)) = Some w"
  shows "node_inv remote (update_object i (on_world (\<lambda>_. w)) n)"
proof -
  define f where "f = (\<lambda>v. case host_look X remote c v of Some w' \<Rightarrow> w' | None \<Rightarrow> v)"
  have "update_object i (on_world (\<lambda>_. w)) n = update_object i (on_world f) n"
    using look by (simp add: update_object_def on_world_def f_def)
  also have "node_inv remote \<dots>"
    by (rule on_world_inv [OF assms(1)])
      (auto simp: f_def world_phase_look host_look_inv split: option.splits)
  finally show ?thesis .
qed

lemma admit_first_look_inv:
  assumes "node_inv remote n" "node_task_of n c \<noteq> None"
  shows "node_inv remote (admit_first_look X remote c i n)"
  using assms
  by (auto simp: admit_first_look_def intro: end_node_task_inv set_node_task_inv host_look_or_keep_inv split: option.splits)

lemma admit_second_look_inv:
  assumes "node_inv remote n"
  shows "node_inv remote (admit_second_look X remote c i n)"
  unfolding admit_second_look_def
  by (rule end_node_task_inv, rule on_world_inv [OF assms])
    (auto simp: world_phase_look split: option.splits intro: host_look_inv host_handler_inv)

section \<open>Every step\<close>

lemma service_label_inv:
  assumes "host_inv remote w"
  shows "host_inv remote (host_step X remote w l)"
  using assms by (rule host_step_inv)

lemma node_step_inv:
  assumes "node_inv remote n"
  shows "node_inv remote (node_step X remote n l)"
proof (cases l)
  case (NodeResponded c r)
  with assms show ?thesis
    by (auto intro: end_node_task_inv admit_first_look_inv close_unauthenticated_inv
        split: option.splits node_task.splits sum.splits bool.splits)
next
  case (NodeService i hl)
  with assms show ?thesis
    by (auto intro!: on_world_inv simp: world_phase_step host_step_inv)
qed (use assms in \<open>auto intro: start_service_inv stop_service_inv rotate_begin_inv rotate_finish_inv release_rotation_inv
    record_rotation_failure_inv set_node_task_inv end_node_task_inv close_unauthenticated_inv
    admit_second_look_inv node_close_inv split: option.splits node_task.splits sum.splits\<close>)

definition node_start :: "node \<Rightarrow> bool" where
  "node_start n \<longleftrightarrow> (\<exists>endpoint opts. node_bind endpoint opts (Inr ()) = Inr n)"

lemma node_start_inv: "node_start n \<Longrightarrow> node_inv remote n"
  by (auto simp: node_start_def node_bind_def node_inv_def registry_ok_def phases_ok_def generations_ok_def
      worlds_ok_def rotations_ok_def slots_ok_def lookup_service_def)

interpretation node_sys: invariant_system node_start "node_step X remote" "node_inv remote" for X remote
  by unfold_locales (simp_all add: node_start_inv node_step_inv)

end
