(* ===== verification/Node_Properties.thy ===== *)
theory Node_Properties
  imports Node_Invariant
begin

text \<open>
  What \<^verbatim>\<open>SculkNode\<close> promises: a consistent registry in every interleaving, rotations that take
  effect for exactly one service and only while it is published, unpublishing that closes exactly
  the service's connections, and routing that tells a stranger nothing. The properties rest on the
  invariant of \<^theory_text>\<open>Node_Invariant\<close> and on the case lemmas of the operations.
\<close>

section \<open>Every interleaving\<close>

text \<open>
  C13. The registry of a Node is consistent in every interleaving of its tasks: a registered
  service is an existing object with that id and is active, every other object is stopped, no two
  objects ever share a session generation, and the connections that are not yet authenticated
  never exceed the configured number.
\<close>

theorem node_registry_consistent:
  assumes "node_start n0" and "n = run_steps (node_step X remote) n0 ls"
  shows "(\<forall>sid i. lookup_service n sid = Some i \<longrightarrow>
      i < length (nd_objects n) \<and> sv_service_id (nd_objects n ! i) = sid)
    \<and> (\<forall>i < length (nd_objects n). world_phase (sv_world (nd_objects n ! i)) =
          Some (if lookup_service n (sv_service_id (nd_objects n ! i)) = Some i then Active else Stopped))
    \<and> distinct (map sv_session_generation (nd_objects n))
    \<and> ns_unauthenticated_connection_count (node_status n) = length (nd_tasks n)
    \<and> length (nd_tasks n) \<le> nd_slots n"
proof -
  have inv: "node_inv remote n" unfolding assms(2) by (rule node_sys.inv_reachable [OF assms(1)])
  then have "sorted_wrt (<) (map sv_session_generation (nd_objects n))"
    by (simp add: node_inv_def generations_ok_def)
  then have "distinct (map sv_session_generation (nd_objects n))" by (simp add: strict_sorted_iff)
  with inv show ?thesis
    by (auto simp: node_inv_def registry_ok_def phases_ok_def object_live_def slots_ok_def node_status_def Let_def)
qed

section \<open>Rotation\<close>

lemma release_nth:
  "j < length (nd_objects n) \<Longrightarrow>
     nd_objects (release_rotation pr n) ! j =
       (if j = pr_object pr then (nd_objects n ! j)\<lparr>sv_rotating := False\<rparr> else nd_objects n ! j)"
  by (simp add: release_rotation_def nth_update_object)

lemma release_lookup [simp]: "lookup_service (release_rotation pr n) sid = lookup_service n sid"
  by (simp add: release_rotation_def lookup_service_def)

lemma release_node [simp]:
  "nd_endpoint_id (release_rotation pr n) = nd_endpoint_id n" "nd_relay_url (release_rotation pr n) = nd_relay_url n"
  "nd_services (release_rotation pr n) = nd_services n"
  "length (nd_objects (release_rotation pr n)) = length (nd_objects n)"
  by (simp_all add: release_rotation_def)

lemma node_uri_cong:
  "\<lbrakk>nd_endpoint_id m = nd_endpoint_id n; nd_relay_url m = nd_relay_url n\<rbrakk> \<Longrightarrow>
     node_join_uri_value m sid t = node_join_uri_value n sid t"
  by (simp add: node_join_uri_value_def)

text \<open>The parts of a service's world that a rotation must not touch.\<close>

definition players_view ::
  "host_world \<Rightarrow> host_sessions \<times> tracked_connection list \<times> (conn_id \<times> u64) list \<times> (conn_id \<times> nat \<times> string) list" where
  "players_view w = (sessions_of w, ct_conns (hw_ctx w), hw_watchers w, hw_closes w)"

lemma apply_rotation_players: "players_view (sv_world (apply_rotation pr sv)) = players_view (sv_world sv)"
  by (simp add: apply_rotation_def Let_def players_view_def sessions_of_def on_status_def)

lemma apply_rotation_status:
  "service_status sv = Some st \<Longrightarrow>
     service_status (apply_rotation pr sv) =
       Some (st\<lparr>st_uri_generation := saturating_inc (st_uri_generation st),
                st_token_created_at := pr_created_at pr, st_next_rotation_at := pr_next_at pr\<rparr>)"
  by (auto simp: service_status_def apply_rotation_def Let_def on_status_def status_snapshot_def)

lemma release_status [simp]: "service_status (sv\<lparr>sv_rotating := b\<rparr>) = service_status sv"
  by (simp add: service_status_def)

text \<open>
  C16. A rotation takes effect for exactly one service: finishing it while the service is still the
  published one returns the URI that the handle then gives out, makes the new token the only one
  that is accepted, counts one more generation with the new creation and deadline times, and
  leaves the service's players and connections and every other service as they were.
\<close>

theorem rotation_replaces_token:
  assumes "ct_eq_law X" and "node_start n0" and "n = run_steps (node_step X remote) n0 ls"
    and "pr \<in> set (nd_rotations n)" and "lookup_service n (pr_service_id pr) = Some (pr_object pr)"
    and "service_status (nd_objects n ! pr_object pr) = Some st"
    and "rotate_finish pr n = (r, n')"
  shows "(\<exists>uri. r = Inr uri \<and> handle_join_uri (pr_service_id pr) n' = Some (Inr uri)
            \<and> ju_token uri = pr_token pr)
    \<and> (\<forall>t. token_valid X n' (lookup_service n' (pr_service_id pr)) t \<longleftrightarrow> t = pr_token pr)
    \<and> handle_status (pr_service_id pr) n' =
        Inr (st\<lparr>st_uri_generation := saturating_inc (st_uri_generation st),
                st_token_created_at := pr_created_at pr, st_next_rotation_at := pr_next_at pr\<rparr>)
    \<and> players_view (sv_world (nd_objects n' ! pr_object pr)) = players_view (sv_world (nd_objects n ! pr_object pr))
    \<and> (\<forall>j < length (nd_objects n). j \<noteq> pr_object pr \<longrightarrow> nd_objects n' ! j = nd_objects n ! j)"
proof -
  let ?i = "pr_object pr" and ?m = "update_object (pr_object pr) (apply_rotation pr) n"
  have "node_inv remote n" unfolding assms(3) by (rule node_sys.inv_reachable [OF assms(2)])
  then have i: "?i < length (nd_objects n)" using assms(5) by (auto simp: node_inv_def registry_ok_def)
  have n': "n' = release_rotation pr ?m" and r: "r = Inr (node_join_uri_value n (sv_service_id (nd_objects n ! ?i)) (pr_token pr))"
    using assms(5,7) by (auto simp: rotate_finish_alt)
  have obj: "nd_objects n' ! ?i = (apply_rotation pr (nd_objects n ! ?i))\<lparr>sv_rotating := False\<rparr>"
    using i by (simp add: n' release_nth nth_update_object)
  have others: "nd_objects n' ! j = nd_objects n ! j" if "j < length (nd_objects n)" "j \<noteq> ?i" for j
    using that by (simp add: n' release_nth nth_update_object)
  have look: "lookup_service n' (pr_service_id pr) = Some ?i" using assms(5) by (simp add: n')
  have uri: "node_join_uri_value n' s t = node_join_uri_value n s t" for s t
    by (rule node_uri_cong) (simp_all add: n')
  have "handle_join_uri (pr_service_id pr) n' = Some r"
    by (simp add: handle_join_uri_def look obj uri r)
  moreover have "ju_token (node_join_uri_value n s t) = t" for s t
    by (simp add: node_join_uri_value_def join_uri_new_def)
  moreover have "token_valid X n' (lookup_service n' (pr_service_id pr)) t \<longleftrightarrow> t = pr_token pr" for t
    by (simp add: look token_valid_def obj token_matches_iff [OF assms(1)])
  moreover have "handle_status (pr_service_id pr) n' =
        Inr (st\<lparr>st_uri_generation := saturating_inc (st_uri_generation st),
                st_token_created_at := pr_created_at pr, st_next_rotation_at := pr_next_at pr\<rparr>)"
    by (simp add: handle_status_def look obj apply_rotation_status [OF assms(6)])
  moreover have "players_view (sv_world (nd_objects n' ! ?i)) = players_view (sv_world (nd_objects n ! ?i))"
    by (simp add: obj apply_rotation_players)
  ultimately show ?thesis using others r by auto
qed

text \<open>
  Rotations exclude each other and cannot outlive their service: while one is pending, another
  rotation of the service is refused without any change and its handle waits; and one that
  finishes after the service was unpublished, or published again under the same id, reports that
  the service is gone and changes nothing but the lock it held.
\<close>

theorem rotation_exclusive:
  assumes "node_start n0" and "n = run_steps (node_step X remote) n0 ls" and "pr \<in> set (nd_rotations n)"
  shows "(lookup_service n (pr_service_id pr) = Some (pr_object pr) \<longrightarrow>
        handle_join_uri (pr_service_id pr) n = None \<and> handle_token_state (pr_service_id pr) n = None
        \<and> (\<forall>expected reset fresh now.
              rotate_begin X (pr_service_id pr) expected reset fresh now n
                \<in> {(Inl RotationInProgress, n), (Inl ServiceNotFound, n)}))
    \<and> (lookup_service n (pr_service_id pr) \<noteq> Some (pr_object pr) \<longrightarrow>
        fst (rotate_finish pr n) = Inl ServiceNotFound
        \<and> nd_services (snd (rotate_finish pr n)) = nd_services n
        \<and> (\<forall>j < length (nd_objects n).
              nd_objects (snd (rotate_finish pr n)) ! j = (nd_objects n ! j)\<lparr>sv_rotating :=
                (if j = pr_object pr then False else sv_rotating (nd_objects n ! j))\<rparr>))"
proof (intro conjI impI)
  have "node_inv remote n" unfolding assms(2) by (rule node_sys.inv_reachable [OF assms(1)])
  then have "rotations_ok n" by (simp add: node_inv_def)
  with assms(3) have locked: "sv_rotating (nd_objects n ! pr_object pr)" by (auto simp: rotations_ok_def)
  assume look: "lookup_service n (pr_service_id pr) = Some (pr_object pr)"
  show "handle_join_uri (pr_service_id pr) n = None" "handle_token_state (pr_service_id pr) n = None"
    using look locked by (simp_all add: handle_join_uri_def handle_token_state_def Let_def)
  show "\<forall>expected reset fresh now. rotate_begin X (pr_service_id pr) expected reset fresh now n
      \<in> {(Inl RotationInProgress, n), (Inl ServiceNotFound, n)}"
    using look locked by (simp add: rotate_begin_def Let_def)
next
  assume look: "lookup_service n (pr_service_id pr) \<noteq> Some (pr_object pr)"
  then show "fst (rotate_finish pr n) = Inl ServiceNotFound"
    "nd_services (snd (rotate_finish pr n)) = nd_services n"
    "\<forall>j < length (nd_objects n). nd_objects (snd (rotate_finish pr n)) ! j = (nd_objects n ! j)\<lparr>sv_rotating :=
        (if j = pr_object pr then False else sv_rotating (nd_objects n ! j))\<rparr>"
    by (simp_all add: rotate_finish_alt release_nth)
qed

section \<open>Unpublishing\<close>

lemma stop_object_world_fields:
  "hw_closes (sv_world (stop_object net r sv)) = hw_closes (sv_world sv)
     @ map (\<lambda>t. (tc_handle t, CLOSE_HOST_STOPPED, r))
         (filter (\<lambda>t. net (tc_handle t) \<noteq> None) (ct_conns (hw_ctx (sv_world sv))))"
  "ct_conns (hw_ctx (sv_world (stop_object net r sv))) = []"
  by (simp_all add: stop_object_def drain_conns_def Let_def on_status_def)

text \<open>
  C35. Unpublishing a service closes exactly its own connections: every tracked connection of it
  that still exists is closed with the code for a stopped host, none stays tracked, the service
  is stopped and no longer found, and no other service, its players or its token is touched.
\<close>

theorem stop_service_closes_its_connections:
  assumes "node_start n0" and "n = run_steps (node_step X remote) n0 ls"
    and "lookup_service n sid = Some i" and "stop_service net sid n = (r, n')"
  shows "r = Inr ()
    \<and> (\<forall>other. lookup_service n' other = (if other = sid then None else lookup_service n other))
    \<and> world_phase (sv_world (nd_objects n' ! i)) = Some Stopped
    \<and> ct_conns (hw_ctx (sv_world (nd_objects n' ! i))) = []
    \<and> hw_closes (sv_world (nd_objects n' ! i)) = hw_closes (sv_world (nd_objects n ! i))
        @ map (\<lambda>t. (tc_handle t, CLOSE_HOST_STOPPED, ''service stopped''))
            (filter (\<lambda>t. net (tc_handle t) \<noteq> None) (ct_conns (hw_ctx (sv_world (nd_objects n ! i)))))
    \<and> (\<forall>j < length (nd_objects n). j \<noteq> i \<longrightarrow> nd_objects n' ! j = nd_objects n ! j)
    \<and> stop_service net sid n' = (Inl ServiceNotFound, n')"
proof -
  have "node_inv remote n" unfolding assms(2) by (rule node_sys.inv_reachable [OF assms(1)])
  then have i: "i < length (nd_objects n)" and ph: "world_phase (sv_world (nd_objects n ! i)) \<noteq> None"
    using assms(3) by (auto simp: node_inv_def registry_ok_def phases_ok_def)
  have r: "r = Inr ()" and n': "n' = update_object i (stop_object net ''service stopped'')
      (n\<lparr>nd_services := AList.delete sid (nd_services n)\<rparr>)"
    using assms(3,4) by (simp_all add: stop_service_def)
  have obj: "j < length (nd_objects n) \<Longrightarrow> nd_objects n' ! j =
      (if j = i then stop_object net ''service stopped'' (nd_objects n ! j) else nd_objects n ! j)" for j
    by (simp add: n' nth_update_object)
  have look: "lookup_service n' other = (if other = sid then None else lookup_service n other)" for other
    by (simp add: n' lookup_service_def delete_conv')
  have "stop_service net sid n' = (Inl ServiceNotFound, n')" by (simp add: stop_service_def look)
  with r look obj i ph show ?thesis by (auto simp: stop_object_world_fields)
qed

section \<open>Routing\<close>


text \<open>How the operations of one connection task commute with the rest of the Node.\<close>

lemma task_run_simps:
  "node_task_of (set_node_task c t n) c = Some t" "node_task_of (end_node_task c n) c = None"
  "node_task_of (close_unauthenticated c n) c = node_task_of n c"
  "end_node_task c (set_node_task c t n) = end_node_task c n"
  "set_node_task c u (set_node_task c t n) = set_node_task c u n"
  "nd_objects (set_node_task c t n) = nd_objects n" "lookup_service (set_node_task c t n) = lookup_service n"
  "nd_objects (end_node_task c n) = nd_objects n"
  "token_valid X (set_node_task c t n) = token_valid X n"
  "update_object i f (set_node_task c t n) = set_node_task c t (update_object i f n)"
  "update_object i f (end_node_task c n) = end_node_task c (update_object i f n)"
  "end_node_task c (set_node_task c t n\<lparr>nd_objects := os\<rparr>) = end_node_task c (n\<lparr>nd_objects := os\<rparr>)"
  "close_unauthenticated c (set_node_task c t n) = set_node_task c t (close_unauthenticated c n)"
  by (simp_all add: node_task_of_def set_node_task_def end_node_task_def close_unauthenticated_def update_conv'
      delete_conv' AList.delete_update_same update_last fun_eq_iff lookup_service_def token_valid_def update_object_def
      split: option.split)

lemma admit_alone:
  assumes "i < length (nd_objects n)"
  shows "node_step X remote (admit_first_look X remote c i (set_node_task c t n)) (NodeRecheck c)
    = end_node_task c (update_object i (on_world (start_authenticated_host_connection X remote c id)) n)"
  using assms
  by (simp add: admit_first_look_def admit_second_look_def task_run_simps start_authenticated_host_connection_def
      update_object_def on_world_def split: option.split)

text \<open>
  The uninterrupted description of routing and the interleaved one agree: a connection task
  that authenticates and runs its steps with no other task in between leaves the Node exactly as
  \<open>route_connection\<close> does, and its permit is returned.
\<close>

theorem route_is_its_steps:
  assumes "node_inv remote n" and "node_task_of n c = Some NodeAuthenticating"
    and "auth_accept io = (accepted, w)"
    and "responded = (case accepted of Inl e \<Rightarrow> Inl e
      | Inr r \<Rightarrow> fst (auth_respond io (token_valid X n (lookup_service n (cq_service_id r)) (cq_token r))))"
  shows "run_steps (node_step X remote) n
      [NodeRequest c accepted, NodeCheckToken c, NodeResponded c responded, NodeRecheck c]
    = end_node_task c (snd (snd (route_connection X remote c io n)))"
proof -
  show ?thesis
  proof (cases accepted)
    case (Inl e)
    with assms(2,3,4) show ?thesis
      by (simp add: route_connection_def task_run_simps end_node_task_def close_unauthenticated_def node_task_of_def delete_conv')
  next
    case (Inr r)
    define svc where "svc = lookup_service n (cq_service_id r)"
    have reg: "svc = Some i \<Longrightarrow> i < length (nd_objects n)" for i
      using assms(1) by (auto simp: node_inv_def registry_ok_def svc_def)
    define v where "v = token_valid X n svc (cq_token r)"
    obtain res w' where resp: "auth_respond io v = (res, w')" by force
    have route: "snd (snd (route_connection X remote c io n)) =
        (case res of Inl _ \<Rightarrow> n | Inr _ \<Rightarrow> (case (svc, v) of
          (Some i, True) \<Rightarrow> update_object i (on_world (start_authenticated_host_connection X remote c id)) n
        | _ \<Rightarrow> close_unauthenticated c n))"
      using assms(3) Inr resp
      by (simp add: route_connection_def Let_def svc_def [symmetric] v_def [symmetric] split: sum.split option.split bool.split)
    have resd: "responded = res" using assms(4) Inr resp by (simp add: svc_def v_def)
    have start: "run_steps (node_step X remote) n [NodeRequest c accepted, NodeCheckToken c]
        = set_node_task c (NodeResponding svc v) n"
      using assms(2) Inr by (simp add: task_run_simps svc_def v_def)
    have "run_steps (node_step X remote) (set_node_task c (NodeResponding svc v) n)
        [NodeResponded c res, NodeRecheck c]
      = end_node_task c (case res of Inl _ \<Rightarrow> n | Inr _ \<Rightarrow> (case (svc, v) of
          (Some i, True) \<Rightarrow> update_object i (on_world (start_authenticated_host_connection X remote c id)) n
        | _ \<Rightarrow> close_unauthenticated c n))"
    proof (cases "is_ok res \<and> v \<and> svc \<noteq> None")
      case True
      then obtain i where "res = Inr ()" "v" "svc = Some i" by (cases res) auto
      then show ?thesis using admit_alone [OF reg, of i X remote c] by (simp add: task_run_simps del: node_step.simps(12))
    next
      case False
      then show ?thesis by (cases res; cases svc; cases v) (simp_all add: task_run_simps)
    qed
    with route start resd show ?thesis
      using run_steps_append [of "node_step X remote" n "[NodeRequest c accepted, NodeCheckToken c]" "[NodeResponded c responded, NodeRecheck c]"]
      by simp
  qed
qed

text \<open>
  The check of the token and the admission are separate steps and the second does not look at the
  registry again. A connection that was answered before its service was unpublished is therefore
  admitted afterwards: it is tracked and served by an object that is stopped, and the drain of
  \<^verbatim>\<open>stop_service\<close> has already passed.
\<close>

lemma admitted_after_stop:
  assumes "node_inv remote n" and "lookup_service n sid = Some i"
    and "node_task_of n c = Some (NodeResponding (Some i) True)"
    and "host_look X remote c (sv_world (stop_object net ''service stopped'' (nd_objects n ! i))) = Some w"
    and "n' = run_steps (node_step X remote) n [NodeStop net sid, NodeResponded c (Inr ())]"
  shows "lookup_service n' sid = None \<and> sv_world (nd_objects n' ! i) = w \<and> world_phase w = Some Stopped
    \<and> c \<in> tc_handle ` set (ct_conns (hw_ctx w))"
proof -
  have i: "i < length (nd_objects n)" and ph: "world_phase (sv_world (nd_objects n ! i)) \<noteq> None"
    using assms(1,2) by (auto simp: node_inv_def registry_ok_def phases_ok_def)
  define m where "m = snd (stop_service net sid n)"
  have m: "lookup_service m sid = None" "length (nd_objects m) = length (nd_objects n)"
    "nd_objects m ! i = stop_object net ''service stopped'' (nd_objects n ! i)" "node_task_of m c = node_task_of n c"
    using i assms(2) by (simp_all add: m_def stop_service_def nth_update_object lookup_service_def delete_conv' node_task_of_def)
  have "n' = end_node_task c (update_object i (on_world (\<lambda>_. w)) m)"
    using assms(3,4,5) m i by (simp add: m_def [symmetric] admit_first_look_def)
  then have "lookup_service n' sid = None" "sv_world (nd_objects n' ! i) = w"
    using m i by (simp_all add: task_run_simps nth_update_object end_node_task_def lookup_service_def)
  moreover have "world_phase w = Some Stopped" using world_phase_look [OF assms(4)] ph by auto
  moreover have "c \<in> tc_handle ` set (ct_conns (hw_ctx w))"
    using assms(4)
    by (auto simp: host_look_def admit_registered_def Let_def host_block_defs split: prod.splits option.splits if_splits)
  ultimately show ?thesis by blast
qed

section \<open>A concrete Node\<close>

text \<open>One service is published and a rotation of it has begun.\<close>

abbreviation demo_remote :: "conn_id \<Rightarrow> endpoint_id" where
  "demo_remote \<equiv> (\<lambda>c. endpoint_filled (of_nat c))"

definition demo_options :: hosted_service_options where
  "demo_options = \<lparr>so_service_id = service_filled 1, so_target_addr = \<lparr>sa_ip = V4 127 0 0 1, sa_port = 25565\<rparr>,
     so_token_state = None, so_token_refresh = PolicyAlways, so_config = host_config_default\<rparr>"

definition demo_bound :: node where
  "demo_bound = \<lparr>nd_endpoint_id = endpoint_filled 9, nd_relay_url = None, nd_services = [], nd_objects = [],
     nd_session_next = 1, nd_slots = 128, nd_tasks = [], nd_rotations = [], nd_closes = [], nd_open = True\<rparr>"

definition demo_node :: node where
  "demo_node = run_steps (node_step host_ref_crates demo_remote) demo_bound
     [NodeStart demo_options (token_filled 2) 0 0, NodeRotate (service_filled 1) None True (token_filled 3) 5]"

definition demo_rotation :: pending_rotation where
  "demo_rotation = \<lparr>pr_object = 0, pr_service_id = service_filled 1, pr_token = token_filled 3,
     pr_created_at = 5, pr_next_at = None, pr_reset_timer = True\<rparr>"

lemma demo_start: "node_start demo_bound"
  by (auto simp: node_start_def demo_bound_def node_bind_def NODE_UNAUTHENTICATED_CONNECTIONS_MAX_def
      intro!: exI [of _ "endpoint_filled 9"] exI [of _ node_options_default] simp: node_options_default_def)

lemma host_ref_exposes:
  "ju_relay_url u = None \<Longrightarrow> \<exists>s. expose_secret_uri host_ref_crates u = Inr s"
  by (simp add: expose_secret_uri_def join_payload_def Let_def host_ref_crates_def URI_LEN_MAX_def)

lemma demo_exposes: "\<exists>s. expose_secret_uri host_ref_crates (node_join_uri_value n sid t) = Inr s" if "nd_relay_url n = None"
  using that by (intro host_ref_exposes) (simp add: node_join_uri_value_def join_uri_new_def)

lemma demo_state:
  "lookup_service demo_node (service_filled 1) = Some 0" "nd_rotations demo_node = [demo_rotation]"
  "\<exists>st. service_status (nd_objects demo_node ! 0) = Some st" "length (nd_objects demo_node) = 1"
  "nd_objects demo_node ! 0 = (new_service demo_options \<lparr>rt_state = token_state_new (token_filled 2) 0,
     rt_refresh = None, rt_deadline = None, rt_deadline_monotonic = None\<rparr> 1)\<lparr>sv_rotating := True\<rparr>"
  "nd_services demo_node = [(service_filled 1, 0)]"
proof -
  have relay: "nd_relay_url demo_bound = None" by (simp add: demo_bound_def)
  define sv where "sv = new_service demo_options \<lparr>rt_state = token_state_new (token_filled 2) 0,
     rt_refresh = None, rt_deadline = None, rt_deadline_monotonic = None\<rparr> 1"
  obtain s where s: "expose_secret_uri host_ref_crates (node_join_uri_value demo_bound (service_filled 1) (token_filled 2)) = Inr s"
    using demo_exposes [OF relay] by blast
  define n1 where "n1 = demo_bound\<lparr>nd_session_next := 2, nd_objects := [sv], nd_services := [(service_filled 1, 0)]\<rparr>"
  have step1: "node_step host_ref_crates demo_remote demo_bound (NodeStart demo_options (token_filled 2) 0 0) = n1"
    using s by (simp add: start_service_def demo_options_def validate_target_def resolve_token_state_def
        token_state_generate_def token_state_new_def n1_def demo_bound_def lookup_service_def checked_inc_def sv_def Let_def)
  obtain s' where s': "expose_secret_uri host_ref_crates (node_join_uri_value n1 (service_filled 1) (token_filled 3)) = Inr s'"
    using demo_exposes [of n1] relay by (auto simp: n1_def)
  have sv: "sv_service_id sv = service_filled 1" "\<not> sv_rotating sv" "sv_token_refresh sv = None"
    by (simp_all add: sv_def new_service_def Let_def demo_options_def)
  have step2: "demo_node = n1\<lparr>nd_rotations := [demo_rotation], nd_objects := [sv\<lparr>sv_rotating := True\<rparr>]\<rparr>"
    using s' sv by (simp add: demo_node_def step1 del: node_step.simps(1))
      (simp add: rotate_begin_def n1_def lookup_service_def Let_def rotation_deadline_def update_object_def
        demo_rotation_def demo_bound_def)
  show "lookup_service demo_node (service_filled 1) = Some 0" "nd_rotations demo_node = [demo_rotation]"
    "\<exists>st. service_status (nd_objects demo_node ! 0) = Some st" "length (nd_objects demo_node) = 1"
    "nd_objects demo_node ! 0 = (new_service demo_options \<lparr>rt_state = token_state_new (token_filled 2) 0,
      rt_refresh = None, rt_deadline = None, rt_deadline_monotonic = None\<rparr> 1)\<lparr>sv_rotating := True\<rparr>"
    "nd_services demo_node = [(service_filled 1, 0)]"
    by (simp_all add: step2 n1_def lookup_service_def)
      (simp_all add: sv_def service_status_def new_service_def Let_def host_world_new_def host_context_new_def)
qed

lemma demo_tasks: "length (nd_tasks demo_node) < nd_slots demo_node"
  by (simp add: demo_node_def demo_bound_def start_service_def rotate_begin_def Let_def update_object_def
      split: sum.split option.split)

lemma host_ref_ct_eq: "ct_eq_law host_ref_crates"
  by (simp add: ct_eq_law_def host_ref_crates_def)

theorem node_registry_consistent_witness:
  "world_phase (sv_world (nd_objects demo_node ! 0)) = Some Active"
  using node_registry_consistent [OF demo_start demo_node_def] demo_state by auto

theorem rotation_replaces_token_witness:
  "\<exists>uri. handle_join_uri (service_filled 1) (snd (rotate_finish demo_rotation demo_node)) = Some (Inr uri)
     \<and> ju_token uri = token_filled 3"
proof -
  obtain r n' where run: "rotate_finish demo_rotation demo_node = (r, n')" by force
  obtain st where st: "service_status (nd_objects demo_node ! 0) = Some st" using demo_state(3) by blast
  have pr: "pr_service_id demo_rotation = service_filled 1" "pr_object demo_rotation = 0" "pr_token demo_rotation = token_filled 3"
    by (simp_all add: demo_rotation_def)
  show ?thesis
    using rotation_replaces_token [OF host_ref_ct_eq demo_start demo_node_def, of demo_rotation st r n'] demo_state(1,2) st run
    by (auto simp: pr)
qed

theorem rotation_exclusive_witness:
  "handle_join_uri (service_filled 1) demo_node = None"
proof -
  have pr: "pr_service_id demo_rotation = service_filled 1" "pr_object demo_rotation = 0"
    by (simp_all add: demo_rotation_def)
  show ?thesis
    using rotation_exclusive [OF demo_start demo_node_def, of demo_rotation] demo_state(1,2) by (simp add: pr)
qed

theorem stop_service_closes_its_connections_witness:
  "lookup_service (snd (stop_service (\<lambda>_. None) (service_filled 1) demo_node)) (service_filled 1) = None"
proof -
  obtain r n' where run: "stop_service (\<lambda>_. None) (service_filled 1) demo_node = (r, n')" by force
  from stop_service_closes_its_connections [OF demo_start demo_node_def demo_state(1) run] run show ?thesis by simp
qed

text \<open>A request with the right token, and one for a service that does not exist.\<close>

definition demo_request :: "service_id \<Rightarrow> access_token \<Rightarrow> host_stream" where
  "demo_request sid t = request_stream (encode_request \<lparr>cq_service_id = sid, cq_token = t\<rparr>)"


text \<open>The same Node while connection 5 authenticates.\<close>

theorem route_is_its_steps_witness:
  "run_steps (node_step host_ref_crates demo_remote) (set_node_task 5 NodeAuthenticating demo_node)
      [NodeRequest 5 (Inr \<lparr>cq_service_id = service_filled 1, cq_token = token_filled 2\<rparr>), NodeCheckToken 5,
       NodeResponded 5 (Inr ()), NodeRecheck 5]
    = end_node_task 5 (snd (snd (route_connection host_ref_crates demo_remote 5
        (demo_request (service_filled 1) (token_filled 2)) (set_node_task 5 NodeAuthenticating demo_node))))"
proof -
  have "node_inv demo_remote demo_node"
    unfolding demo_node_def by (rule node_sys.inv_reachable [OF demo_start])
  then have inv: "node_inv demo_remote (set_node_task 5 NodeAuthenticating demo_node)"
    by (rule set_node_task_inv) (simp add: demo_tasks)
  show ?thesis
    by (rule route_is_its_steps [OF inv task_run_simps(1), where w = "[]"])
      (simp_all add: demo_request_def auth_accept_request auth_respond_ok)
qed

end
