(* ===== verification/Rotation_Task.thy ===== *)
theory Rotation_Task
  imports Node_Properties
begin

text \<open>
  The rotation tasks of a Node (\<^verbatim>\<open>core/src/tunnel/iroh/node.rs\<close>, \<^verbatim>\<open>start_service\<close> and
  \<^verbatim>\<open>rotation_loop\<close>) together with the Node they work on: publishing a service with a refresh
  period spawns one task, which sleeps until its schedule is due, rotates its own session's token
  through \<open>rotate_begin\<close> and \<open>rotate_finish\<close> with everything else interleaved, and is reset by every
  other rotation of the service. A task only has a weak reference to the Node; \<open>hg_alive\<close> is
  whether anything else still refers to it.
\<close>

section \<open>Tasks\<close>

text \<open>
  Waiting in the \<^verbatim>\<open>select!\<close>, between the two looks of a rotation (with the clocks read when the
  sleep ended), or about to report a failure.
\<close>

datatype rotation_pc =
    RotWaiting
  | RotRotating pending_rotation system_time instant
  | RotReporting error_category duration

text \<open>\<open>rk_object\<close> is the service whose reset channel the task holds, \<open>rk_seen\<close> the value it saw last.\<close>

record rotation_task =
  rk_service_id :: service_id
  rk_generation :: u64
  rk_object :: nat
  rk_schedule :: rotation_schedule
  rk_seen :: u64
  rk_pc :: rotation_pc

record hosting =
  hg_node :: node
  hg_tasks :: "rotation_task list"
  hg_alive :: bool

definition hosting_new :: "node \<Rightarrow> hosting" where
  "hosting_new n = \<lparr>hg_node = n, hg_tasks = [], hg_alive = True\<rparr>"

text \<open>The task \<^verbatim>\<open>start_service\<close> spawns for the service it has just inserted, if any.\<close>

definition spawned_task :: "service_id \<Rightarrow> u64 \<Rightarrow> nat \<Rightarrow> resolved_token_state \<Rightarrow> rotation_task list" where
  "spawned_task sid generation object resolved =
     (case (rt_refresh resolved, rt_deadline resolved, rt_deadline_monotonic resolved) of
        (Some period, Some deadline, Some deadline_monotonic) \<Rightarrow>
          [\<lparr>rk_service_id = sid, rk_generation = generation, rk_object = object,
            rk_schedule = schedule_new period deadline deadline_monotonic, rk_seen = 0, rk_pc = RotWaiting\<rparr>]
      | _ \<Rightarrow> [])"

definition publish_service ::
  "crates \<Rightarrow> hosted_service_options \<Rightarrow> access_token \<Rightarrow> system_time \<Rightarrow> instant \<Rightarrow> hosting \<Rightarrow> hosting" where
  "publish_service X opts fresh now now_monotonic g =
     (let n = hg_node g in
      case start_service X opts fresh now now_monotonic n of
        (Inl e, n') \<Rightarrow> g\<lparr>hg_node := n'\<rparr>
      | (Inr sid, n') \<Rightarrow>
          (case resolve_token_state (so_token_refresh opts) (so_token_state opts) fresh now now_monotonic of
             Inl e \<Rightarrow> g\<lparr>hg_node := n'\<rparr>
           | Inr resolved \<Rightarrow>
               g\<lparr>hg_node := n',
                 hg_tasks := hg_tasks g @ spawned_task sid (nd_session_next n) (length (nd_objects n)) resolved\<rparr>))"

definition rotation_task_of :: "hosting \<Rightarrow> nat \<Rightarrow> rotation_task option" where
  "rotation_task_of g i = List.find (\<lambda>k. rk_object k = i) (hg_tasks g)"

definition on_rotation_task :: "nat \<Rightarrow> (rotation_task \<Rightarrow> rotation_task) \<Rightarrow> hosting \<Rightarrow> hosting" where
  "on_rotation_task i f g = g\<lparr>hg_tasks := map (\<lambda>k. if rk_object k = i then f k else k) (hg_tasks g)\<rparr>"

definition drop_rotation_task :: "nat \<Rightarrow> hosting \<Rightarrow> hosting" where
  "drop_rotation_task i g = g\<lparr>hg_tasks := filter (\<lambda>k. rk_object k \<noteq> i) (hg_tasks g)\<rparr>"

text \<open>What a turn of the loop leaves of the task: nothing, a schedule, or a failure to report.\<close>

fun after_turn :: "nat \<Rightarrow> rotation_schedule option \<times> (error_category \<times> duration) option \<Rightarrow> hosting \<Rightarrow> hosting" where
  "after_turn i (None, _) g = drop_rotation_task i g"
| "after_turn i (Some s, None) g = on_rotation_task i (\<lambda>k. k\<lparr>rk_schedule := s, rk_pc := RotWaiting\<rparr>) g"
| "after_turn i (Some s, Some (c, d)) g = on_rotation_task i (\<lambda>k. k\<lparr>rk_schedule := s, rk_pc := RotReporting c d\<rparr>) g"

section \<open>Steps\<close>

text \<open>The sleep ended; \<open>fresh\<close> and \<open>created\<close> are the token and the time of the rotation.\<close>

definition task_due ::
  "crates \<Rightarrow> nat \<Rightarrow> system_time \<Rightarrow> instant \<Rightarrow> access_token \<Rightarrow> system_time \<Rightarrow> hosting \<Rightarrow> hosting" where
  "task_due X i now now_monotonic fresh created g =
     (case rotation_task_of g i of
        None \<Rightarrow> g
      | Some k \<Rightarrow>
          if rk_pc k \<noteq> RotWaiting \<or> \<not> should_rotate (rk_schedule k) now now_monotonic then g
          else if \<not> hg_alive g then drop_rotation_task i g
          else case rotate_begin X (rk_service_id k) (Some (rk_generation k)) False fresh created (hg_node g) of
            (Inl e, n) \<Rightarrow>
              after_turn i (rotation_loop (rk_schedule k) (TurnSlept now now_monotonic (Inl e) now now_monotonic))
                (g\<lparr>hg_node := n\<rparr>)
          | (Inr pr, n) \<Rightarrow> on_rotation_task i (\<lambda>k. k\<lparr>rk_pc := RotRotating pr now now_monotonic\<rparr>) (g\<lparr>hg_node := n\<rparr>))"

definition task_rotated :: "nat \<Rightarrow> system_time \<Rightarrow> instant \<Rightarrow> hosting \<Rightarrow> hosting" where
  "task_rotated i now' now_monotonic' g =
     (case rotation_task_of g i of
        None \<Rightarrow> g
      | Some k \<Rightarrow>
          (case rk_pc k of
             RotRotating pr now now_monotonic \<Rightarrow>
               (case rotate_finish pr (hg_node g) of
                  (r, n) \<Rightarrow>
                    after_turn i (rotation_loop (rk_schedule k) (TurnSlept now now_monotonic r now' now_monotonic'))
                      (g\<lparr>hg_node := n\<rparr>))
           | _ \<Rightarrow> g))"

definition task_reported :: "nat \<Rightarrow> hosting \<Rightarrow> hosting" where
  "task_reported i g =
     (case rotation_task_of g i of
        None \<Rightarrow> g
      | Some k \<Rightarrow>
          (case rk_pc k of
             RotReporting c d \<Rightarrow>
               on_rotation_task i (\<lambda>k. k\<lparr>rk_pc := RotWaiting\<rparr>)
                 (g\<lparr>hg_node := record_rotation_failure (rk_service_id k) (rk_generation k) c d (hg_node g)\<rparr>)
           | _ \<Rightarrow> g))"

text \<open>Someone else rotated the token.\<close>

definition task_reset :: "nat \<Rightarrow> system_time \<Rightarrow> instant \<Rightarrow> hosting \<Rightarrow> hosting" where
  "task_reset i now now_monotonic g =
     (case rotation_task_of g i of
        None \<Rightarrow> g
      | Some k \<Rightarrow>
          let current = sv_rotation (nd_objects (hg_node g) ! i)
          in if rk_pc k \<noteq> RotWaiting \<or> current = rk_seen k then g
             else after_turn i (rotation_loop (rk_schedule k) (TurnReset now now_monotonic))
                    (on_rotation_task i (\<lambda>k. k\<lparr>rk_seen := current\<rparr>) g))"

text \<open>The last reference to a service is dropped once it is unpublished and no task uses it.\<close>

definition uses_object :: "nat \<Rightarrow> node_task \<Rightarrow> bool" where
  "uses_object i t \<longleftrightarrow> (case t of
     NodeLookedUp svc _ \<Rightarrow> svc = Some i | NodeResponding svc _ \<Rightarrow> svc = Some i | NodeRechecking j \<Rightarrow> j = i
   | _ \<Rightarrow> False)"

definition sender_dropped :: "nat \<Rightarrow> hosting \<Rightarrow> bool" where
  "sender_dropped i g \<longleftrightarrow>
     (hg_alive g \<longrightarrow> i \<notin> snd ` set (nd_services (hg_node g)))
     \<and> i \<notin> pr_object ` set (nd_rotations (hg_node g))
     \<and> (\<forall>t \<in> set (nd_tasks (hg_node g)). \<not> uses_object i (snd t))"

definition task_closed :: "nat \<Rightarrow> hosting \<Rightarrow> hosting" where
  "task_closed i g =
     (case rotation_task_of g i of
        None \<Rightarrow> g
      | Some k \<Rightarrow>
          if rk_pc k = RotWaiting \<and> sender_dropped i g
          then after_turn i (rotation_loop (rk_schedule k) TurnClosed) g else g)"

text \<open>
  What everything else does to the Node: rotations asked for by others reset the timer, and the
  second half of a task's own rotation is not theirs to run.
\<close>

fun others_label :: "hosting \<Rightarrow> node_label \<Rightarrow> bool" where
  "others_label g (NodeStart opts fresh now mt) \<longleftrightarrow> False"
| "others_label g (NodeRotate sid expected reset_timer fresh now) \<longleftrightarrow> expected = None \<and> reset_timer"
| "others_label g (NodeRotateFinish pr) \<longleftrightarrow> pr_reset_timer pr"
| "others_label g (NodeRotateDropped pr) \<longleftrightarrow> pr_reset_timer pr"
| "others_label g (NodeRotationFailed sid gen c d) \<longleftrightarrow> False"
| "others_label g _ \<longleftrightarrow> True"

datatype hosting_label =
    HgNode node_label
  | HgPublish hosted_service_options access_token system_time instant
  | HgDue nat system_time instant access_token system_time
  | HgRotated nat system_time instant
  | HgReported nat
  | HgReset nat system_time instant
  | HgClosed nat
  | HgDropped

fun hosting_step :: "crates \<Rightarrow> (conn_id \<Rightarrow> endpoint_id) \<Rightarrow> hosting \<Rightarrow> hosting_label \<Rightarrow> hosting" where
  "hosting_step X remote g (HgNode l) =
     (if hg_alive g \<and> others_label g l then g\<lparr>hg_node := node_step X remote (hg_node g) l\<rparr> else g)"
| "hosting_step X remote g (HgPublish opts fresh now mt) =
     (if hg_alive g then publish_service X opts fresh now mt g else g)"
| "hosting_step X remote g (HgDue i now mt fresh created) = task_due X i now mt fresh created g"
| "hosting_step X remote g (HgRotated i now mt) = task_rotated i now mt g"
| "hosting_step X remote g (HgReported i) = task_reported i g"
| "hosting_step X remote g (HgReset i now mt) = task_reset i now mt g"
| "hosting_step X remote g (HgClosed i) = task_closed i g"
| "hosting_step X remote g HgDropped = g\<lparr>hg_alive := False\<rparr>"


section \<open>What the steps of a Node leave of its services\<close>

text \<open>Identity, session and refresh period of a service never change, and without publishing nothing is registered.\<close>

definition object_meta :: "hosted_service \<Rightarrow> service_id \<times> u64 \<times> duration option" where
  "object_meta sv = (sv_service_id sv, sv_session_generation sv, sv_token_refresh sv)"

definition node_shrinks :: "node \<Rightarrow> node \<Rightarrow> bool" where
  "node_shrinks n n' \<longleftrightarrow> map object_meta (nd_objects n') = map object_meta (nd_objects n)
     \<and> (\<forall>sid i. lookup_service n' sid = Some i \<longrightarrow> lookup_service n sid = Some i)"

lemma node_shrinks_refl [simp]: "node_shrinks n n"
  by (simp add: node_shrinks_def)

lemma node_shrinks_trans: "node_shrinks a b \<Longrightarrow> node_shrinks b c \<Longrightarrow> node_shrinks a c"
  by (auto simp: node_shrinks_def)

lemma node_shrinks_update:
  "(\<And>sv. object_meta (f sv) = object_meta sv) \<Longrightarrow> node_shrinks n (update_object i f n)"
  by (auto simp: node_shrinks_def intro: map_update_object)

lemma node_shrinks_meta:
  assumes "node_shrinks n n'" "i < length (nd_objects n)"
  shows "i < length (nd_objects n') \<and> object_meta (nd_objects n' ! i) = object_meta (nd_objects n ! i)"
proof -
  have eq: "map object_meta (nd_objects n') = map object_meta (nd_objects n)"
    using assms(1) by (simp add: node_shrinks_def)
  then have len: "length (nd_objects n') = length (nd_objects n)" by (rule map_eq_imp_length_eq)
  with eq assms(2) show ?thesis by (metis nth_map)
qed

lemma object_meta_simps [simp]:
  "object_meta (on_world f sv) = object_meta sv" "object_meta (stop_object net r sv) = object_meta sv"
  "object_meta (apply_rotation pr sv) = object_meta sv" "object_meta (sv\<lparr>sv_rotating := b\<rparr>) = object_meta sv"
  by (simp_all add: object_meta_def on_world_def stop_object_def apply_rotation_def Let_def)

lemma node_shrinks_data: "nd_services n' = nd_services n \<Longrightarrow> nd_objects n' = nd_objects n \<Longrightarrow> node_shrinks n n'"
  by (simp add: node_shrinks_def lookup_service_def)

lemma node_shrinks_tasks [simp]:
  "node_shrinks n (set_node_task c t n)" "node_shrinks n (end_node_task c n)"
  "node_shrinks n (close_unauthenticated c n)"
  by (rule node_shrinks_data; simp add: set_node_task_def end_node_task_def close_unauthenticated_def)+

lemma node_shrinks_end: "node_shrinks n m \<Longrightarrow> node_shrinks n (end_node_task c m)"
  by (rule node_shrinks_trans [OF _ node_shrinks_tasks(2)])

lemma node_shrinks_admit [simp]:
  "node_shrinks n (admit_first_look X remote c i n)" "node_shrinks n (admit_second_look X remote c i n)"
  by (auto simp: admit_first_look_def admit_second_look_def intro!: node_shrinks_end node_shrinks_update split: option.splits)

lemma node_shrinks_release: "node_shrinks n (release_rotation pr n)"
proof -
  have "node_shrinks n (n\<lparr>nd_rotations := rs\<rparr>)" for rs by (rule node_shrinks_data) simp_all
  from node_shrinks_trans [OF this node_shrinks_update] show ?thesis by (simp add: release_rotation_def)
qed

lemma node_shrinks_finish: "node_shrinks n (snd (rotate_finish pr n))"
  unfolding rotate_finish_alt
  by (auto intro: node_shrinks_release node_shrinks_trans [OF node_shrinks_update node_shrinks_release])

lemma node_shrinks_begin: "node_shrinks n (snd (rotate_begin X sid expected reset fresh now n))"
proof -
  obtain r n' where run: "rotate_begin X sid expected reset fresh now n = (r, n')" by force
  then show ?thesis
  proof (cases rule: rotate_begin_cases)
    case (begun pr i)
    have "node_shrinks n (n\<lparr>nd_rotations := pr # nd_rotations n\<rparr>)" by (rule node_shrinks_data) simp_all
    from node_shrinks_trans [OF this node_shrinks_update] run begun(8) show ?thesis by simp
  qed (simp add: run)
qed

lemma node_shrinks_stop: "node_shrinks n (snd (stop_service net sid n))"
proof (cases "lookup_service n sid")
  case (Some i)
  have "node_shrinks n (n\<lparr>nd_services := AList.delete sid (nd_services n)\<rparr>)"
    by (auto simp: node_shrinks_def lookup_service_def delete_conv' split: if_splits)
  from node_shrinks_trans [OF this node_shrinks_update] Some show ?thesis by (simp add: stop_service_def)
qed (simp add: stop_service_def)

lemma node_shrinks_stop_all: "node_shrinks n (stop_all net svs n)"
proof (induction svs arbitrary: n)
  case (Cons p svs)
  have "node_shrinks n (update_object (snd p) (stop_object net ''node stopped'') n)" by (rule node_shrinks_update) simp
  from node_shrinks_trans [OF this Cons] show ?case by simp
qed simp

lemma node_shrinks_close: "node_shrinks n (node_close net n)"
proof -
  have "node_shrinks n (n\<lparr>nd_services := []\<rparr>)" by (simp add: node_shrinks_def lookup_service_def)
  from node_shrinks_trans [OF this node_shrinks_stop_all]
  have "node_shrinks n (stop_all net (nd_services n) (n\<lparr>nd_services := []\<rparr>))" .
  moreover have "node_shrinks m (m\<lparr>nd_open := False\<rparr>)" for m by (rule node_shrinks_data) simp_all
  ultimately have "node_shrinks n ((stop_all net (nd_services n) (n\<lparr>nd_services := []\<rparr>))\<lparr>nd_open := False\<rparr>)"
    by (rule node_shrinks_trans)
  then show ?thesis by (simp add: node_close_def Let_def stop_all_def)
qed

lemma node_shrinks_failure: "node_shrinks n (record_rotation_failure sid gen c d n)"
  by (auto simp: record_rotation_failure_def intro!: node_shrinks_update split: option.splits)

lemma step_shrinks:
  assumes "\<And>opts fresh now mt. l \<noteq> NodeStart opts fresh now mt"
  shows "node_shrinks n (node_step X remote n l)"
proof (cases l)
  case (NodeService i hl)
  show ?thesis unfolding NodeService by (auto intro: node_shrinks_update)
next
  case (NodeRequest c accepted)
  show ?thesis unfolding NodeRequest by (auto intro!: node_shrinks_end split: sum.splits)
next
  case (NodeResponded c r)
  show ?thesis unfolding NodeResponded
    by (auto intro!: node_shrinks_end split: sum.splits option.splits node_task.splits bool.splits)
qed (use assms in \<open>auto intro: node_shrinks_stop node_shrinks_begin node_shrinks_finish node_shrinks_release node_shrinks_close
    node_shrinks_failure split: option.splits node_task.splits\<close>)

lemma others_shrink: "others_label g l \<Longrightarrow> node_shrinks n (node_step X remote n l)"
  by (rule step_shrinks) auto

text \<open>Nobody else ends a rotation that a task is in the middle of.\<close>

lemma rotations_update [simp]:
  "nd_rotations (set_node_task c t n) = nd_rotations n" "nd_rotations (end_node_task c n) = nd_rotations n"
  "nd_rotations (close_unauthenticated c n) = nd_rotations n"
  "nd_rotations (admit_first_look X remote c i n) = nd_rotations n"
  "nd_rotations (admit_second_look X remote c i n) = nd_rotations n"
  "nd_rotations (record_rotation_failure sid gen cat d n) = nd_rotations n"
  "nd_rotations (release_rotation pr n) = remove1 pr (nd_rotations n)"
  by (simp_all add: set_node_task_def end_node_task_def close_unauthenticated_def admit_first_look_def
      admit_second_look_def record_rotation_failure_def release_rotation_def split: option.splits)

lemma rotations_stop [simp]:
  "nd_rotations (snd (stop_service net sid n)) = nd_rotations n"
  "nd_rotations (node_close net n) = nd_rotations n"
  using stop_all_meta [of net "nd_services n" "n\<lparr>nd_services := []\<rparr>"]
  by (simp_all add: stop_service_def node_close_def Let_def stop_all_def split: option.split)

lemma rotations_begin:
  "pr \<in> set (nd_rotations n) \<Longrightarrow> pr \<in> set (nd_rotations (snd (rotate_begin X sid expected reset fresh now n)))"
proof -
  assume pr: "pr \<in> set (nd_rotations n)"
  obtain r n' where run: "rotate_begin X sid expected reset fresh now n = (r, n')" by force
  then show ?thesis by (cases rule: rotate_begin_cases) (simp_all add: run pr)
qed

lemma rotations_finish: "nd_rotations (snd (rotate_finish pr n)) = remove1 pr (nd_rotations n)"
  by (simp add: rotate_finish_alt)

lemma others_keep_rotation:
  assumes "others_label g l" "pr \<in> set (nd_rotations n)" "\<not> pr_reset_timer pr"
  shows "pr \<in> set (nd_rotations (node_step X remote n l))"
proof (cases l)
  case (NodeRotateFinish pr')
  then have "pr' \<noteq> pr" using assms by auto
  with NodeRotateFinish assms show ?thesis by (simp add: rotations_finish in_set_remove1)
next
  case (NodeRotateDropped pr')
  then have "pr' \<noteq> pr" using assms by auto
  with NodeRotateDropped assms show ?thesis by (simp add: in_set_remove1)
qed (use assms in \<open>auto simp: rotations_begin split: sum.splits option.splits node_task.splits bool.splits\<close>)

section \<open>The invariant\<close>

definition task_ok :: "node \<Rightarrow> rotation_task \<Rightarrow> bool" where
  "task_ok n k \<longleftrightarrow> rk_object k < length (nd_objects n)
     \<and> object_meta (nd_objects n ! rk_object k) = (rk_service_id k, rk_generation k, Some (rs_period (rk_schedule k)))
     \<and> (\<forall>pr now mt. rk_pc k = RotRotating pr now mt \<longrightarrow> pr \<in> set (nd_rotations n)
          \<and> pr_object pr = rk_object k \<and> pr_service_id pr = rk_service_id k \<and> \<not> pr_reset_timer pr)"

definition hosting_inv :: "(conn_id \<Rightarrow> endpoint_id) \<Rightarrow> hosting \<Rightarrow> bool" where
  "hosting_inv remote g \<longleftrightarrow> node_inv remote (hg_node g) \<and> distinct (map rk_object (hg_tasks g))
     \<and> (\<forall>k \<in> set (hg_tasks g). task_ok (hg_node g) k)"

definition hosting_start :: "hosting \<Rightarrow> bool" where
  "hosting_start g \<longleftrightarrow> (\<exists>n. node_start n \<and> g = hosting_new n)"

lemma hosting_simps [simp]:
  "hg_node (on_rotation_task i f g) = hg_node g" "hg_node (drop_rotation_task i g) = hg_node g"
  "hg_alive (on_rotation_task i f g) = hg_alive g" "hg_alive (drop_rotation_task i g) = hg_alive g"
  "set (hg_tasks (drop_rotation_task i g)) = {k \<in> set (hg_tasks g). rk_object k \<noteq> i}"
  by (auto simp: on_rotation_task_def drop_rotation_task_def)

lemma after_turn_node [simp]: "hg_node (after_turn i r g) = hg_node g" "hg_alive (after_turn i r g) = hg_alive g"
  by (cases "(i, r, g)" rule: after_turn.cases; simp)+

lemma rotation_task_of_Some:
  "rotation_task_of g i = Some k \<Longrightarrow> k \<in> set (hg_tasks g) \<and> rk_object k = i"
  by (auto simp: rotation_task_of_def find_Some_iff)

lemma rotation_task_of_member:
  assumes "distinct (map rk_object (hg_tasks g))" "k \<in> set (hg_tasks g)"
  shows "rotation_task_of g (rk_object k) = Some k"
proof -
  obtain k' where k': "rotation_task_of g (rk_object k) = Some k'"
    using assms(2) by (cases "rotation_task_of g (rk_object k)") (auto simp: rotation_task_of_def find_None_iff)
  with rotation_task_of_Some [OF k'] assms show ?thesis by (metis distinct_map inj_on_eq_iff)
qed

lemma object_task_unique:
  "\<lbrakk>distinct (map rk_object (hg_tasks g)); rotation_task_of g i = Some k; k' \<in> set (hg_tasks g); rk_object k' = i\<rbrakk>
     \<Longrightarrow> k' = k"
  using rotation_task_of_member by fastforce

lemma on_task_objects:
  "(\<And>k. rk_object (f k) = rk_object k) \<Longrightarrow> map rk_object (hg_tasks (on_rotation_task i f g)) = map rk_object (hg_tasks g)"
  by (simp add: on_rotation_task_def)

lemma drop_task_objects: "distinct (map rk_object (hg_tasks g)) \<Longrightarrow> distinct (map rk_object (hg_tasks (drop_rotation_task i g)))"
  by (simp add: drop_rotation_task_def distinct_map_filter)

text \<open>A change of the task of object \<open>i\<close>, the Node having changed only in ways the other tasks do not see.\<close>

lemma on_rotation_task_inv:
  assumes "node_inv remote (hg_node g)" "distinct (map rk_object (hg_tasks g))"
    and "\<And>k. rk_object (f k) = rk_object k"
    and "\<And>k. k \<in> set (hg_tasks g) \<Longrightarrow> rk_object k \<noteq> i \<Longrightarrow> task_ok (hg_node g) k"
    and "\<And>k. k \<in> set (hg_tasks g) \<Longrightarrow> rk_object k = i \<Longrightarrow> task_ok (hg_node g) (f k)"
  shows "hosting_inv remote (on_rotation_task i f g)"
  using assms(1,2,4,5) on_task_objects [of f i g, OF assms(3)]
  by (auto simp: hosting_inv_def) (auto simp: on_rotation_task_def split: if_splits)

lemma drop_rotation_task_inv:
  assumes "node_inv remote (hg_node g)" "distinct (map rk_object (hg_tasks g))"
    and "\<And>k. k \<in> set (hg_tasks g) \<Longrightarrow> rk_object k \<noteq> i \<Longrightarrow> task_ok (hg_node g) k"
  shows "hosting_inv remote (drop_rotation_task i g)"
  using assms drop_task_objects by (auto simp: hosting_inv_def)

lemma rotation_loop_period:
  "rotation_loop s t = (Some s', rep) \<Longrightarrow> rs_period s' = rs_period s"
  by (cases t) (auto simp: after_reset_def schedule_reset_def record_failure_def Let_def
      split: if_splits sum.splits option.splits sculk_node_error.splits)

lemma after_turn_inv:
  assumes "node_inv remote (hg_node g)" "distinct (map rk_object (hg_tasks g))"
    and others: "\<And>k. k \<in> set (hg_tasks g) \<Longrightarrow> rk_object k \<noteq> i \<Longrightarrow> task_ok (hg_node g) k"
    and own: "\<And>k s' pc. k \<in> set (hg_tasks g) \<Longrightarrow> rk_object k = i \<Longrightarrow> rs_period s' = rs_period s
        \<Longrightarrow> (\<And>pr now mt. pc \<noteq> RotRotating pr now mt) \<Longrightarrow> task_ok (hg_node g) (k\<lparr>rk_schedule := s', rk_pc := pc\<rparr>)"
  shows "hosting_inv remote (after_turn i (rotation_loop s t) g)"
proof -
  obtain so rep where r: "rotation_loop s t = (so, rep)" by (cases "rotation_loop s t")
  show ?thesis
  proof (cases so)
    case None
    with r show ?thesis by (simp add: drop_rotation_task_inv [OF assms(1,2) others])
  next
    case (Some s')
    then have p: "rs_period s' = rs_period s" using r rotation_loop_period by simp
    show ?thesis
    proof (cases rep)
      case None
      with r Some show ?thesis
        by simp (rule on_rotation_task_inv [OF assms(1,2)], simp_all add: others own p)
    next
      case (Some cd)
      with r \<open>so = Some s'\<close> show ?thesis
        by (cases cd) (simp, rule on_rotation_task_inv [OF assms(1,2)], simp_all add: others own p)
    qed
  qed
qed

lemma task_ok_idle:
  assumes "task_ok n k" "rs_period s' = rs_period (rk_schedule k)" "\<And>pr now mt. pc \<noteq> RotRotating pr now mt"
  shows "task_ok n (k\<lparr>rk_schedule := s', rk_pc := pc\<rparr>)"
  using assms by (simp add: task_ok_def)

lemma task_ok_shrinks:
  assumes "task_ok n k" "node_shrinks n n'"
    and "\<And>pr now mt. rk_pc k = RotRotating pr now mt \<Longrightarrow> pr \<in> set (nd_rotations n')"
  shows "task_ok n' k"
  using assms node_shrinks_meta [OF assms(2), of "rk_object k"] by (auto simp: task_ok_def)

section \<open>Every step keeps it\<close>

lemma hosting_inv_parts:
  assumes "hosting_inv remote g"
  shows "node_inv remote (hg_node g)" "distinct (map rk_object (hg_tasks g))"
    "k \<in> set (hg_tasks g) \<Longrightarrow> task_ok (hg_node g) k"
  using assms by (simp_all add: hosting_inv_def)

text \<open>The Node changes and every task stays as it is.\<close>

lemma hosting_inv_node:
  assumes inv: "hosting_inv remote g" and "node_inv remote n'" "node_shrinks (hg_node g) n'"
    and "\<And>k pr now mt. k \<in> set (hg_tasks g) \<Longrightarrow> rk_pc k = RotRotating pr now mt \<Longrightarrow> pr \<in> set (nd_rotations n')"
  shows "hosting_inv remote (g\<lparr>hg_node := n'\<rparr>)"
  using assms by (auto simp: hosting_inv_def intro: task_ok_shrinks)

lemma task_ok_pending:
  "task_ok n k \<Longrightarrow> rk_pc k = RotRotating pr now mt \<Longrightarrow>
     pr \<in> set (nd_rotations n) \<and> pr_object pr = rk_object k \<and> pr_service_id pr = rk_service_id k \<and> \<not> pr_reset_timer pr"
  by (simp add: task_ok_def)

lemma rotation_pending:
  "\<lbrakk>hosting_inv remote g; k \<in> set (hg_tasks g); rk_pc k = RotRotating pr now mt\<rbrakk> \<Longrightarrow>
     pr \<in> set (nd_rotations (hg_node g)) \<and> \<not> pr_reset_timer pr"
  using task_ok_pending [OF hosting_inv_parts(3)] by blast

lemma others_inv:
  assumes inv: "hosting_inv remote g" and "others_label g l"
  shows "hosting_inv remote (g\<lparr>hg_node := node_step X remote (hg_node g) l\<rparr>)"
proof (rule hosting_inv_node [OF inv])
  show "node_inv remote (node_step X remote (hg_node g) l)"
    by (rule node_step_inv) (rule hosting_inv_parts [OF inv])
  show "node_shrinks (hg_node g) (node_step X remote (hg_node g) l)" by (rule others_shrink) (rule assms(2))
  show "pr \<in> set (nd_rotations (node_step X remote (hg_node g) l))"
    if "k \<in> set (hg_tasks g)" "rk_pc k = RotRotating pr now mt" for k pr now mt
    using rotation_pending [OF inv that] others_keep_rotation [OF assms(2)] by blast
qed

lemma reported_inv:
  assumes inv: "hosting_inv remote g"
  shows "hosting_inv remote (task_reported i g)"
proof (cases "rotation_task_of g i")
  case None
  with inv show ?thesis by (simp add: task_reported_def)
next
  case (Some k)
  show ?thesis
  proof (cases "rk_pc k")
    case (RotReporting c d)
    define n where "n = record_rotation_failure (rk_service_id k) (rk_generation k) c d (hg_node g)"
    have inv1: "hosting_inv remote (g\<lparr>hg_node := n\<rparr>)"
      unfolding n_def
      by (rule hosting_inv_node [OF inv record_rotation_failure_inv node_shrinks_failure])
        (use hosting_inv_parts(1) [OF inv] rotation_pending [OF inv] in \<open>simp_all\<close>)
    have "hosting_inv remote (on_rotation_task i (\<lambda>k. k\<lparr>rk_pc := RotWaiting\<rparr>) (g\<lparr>hg_node := n\<rparr>))"
      by (rule on_rotation_task_inv) (use hosting_inv_parts [OF inv1] in \<open>auto simp: task_ok_def\<close>)
    with Some RotReporting show ?thesis by (simp add: task_reported_def n_def)
  qed (use Some inv in \<open>simp_all add: task_reported_def\<close>)
qed

lemma turn_inv:
  assumes inv: "hosting_inv remote g" and k: "rotation_task_of g i = Some k"
  shows "hosting_inv remote (after_turn i (rotation_loop (rk_schedule k) t) g)"
proof (rule after_turn_inv)
  show "task_ok (hg_node g) (k'\<lparr>rk_schedule := s', rk_pc := pc\<rparr>)"
    if "k' \<in> set (hg_tasks g)" "rk_object k' = i" "rs_period s' = rs_period (rk_schedule k)"
      "\<And>pr now mt. pc \<noteq> RotRotating pr now mt" for k' s' pc
  proof (rule task_ok_idle)
    show "task_ok (hg_node g) k'" by (rule hosting_inv_parts(3) [OF inv that(1)])
    show "rs_period s' = rs_period (rk_schedule k')"
      using that(3) object_task_unique [OF hosting_inv_parts(2) [OF inv] k that(1,2)] by simp
  qed (rule that(4))
qed (use hosting_inv_parts [OF inv] in auto)

lemma closed_inv: "hosting_inv remote g \<Longrightarrow> hosting_inv remote (task_closed i g)"
  using turn_inv [of remote g i _ TurnClosed] by (auto simp: task_closed_def simp del: rotation_loop.simps split: option.splits)

lemma task_ok_seen [simp]: "task_ok n (k\<lparr>rk_seen := v\<rparr>) = task_ok n k"
  by (simp add: task_ok_def)

lemma find_map_update:
  assumes "\<And>k. rk_object (f k) = rk_object k"
  shows "rotation_task_of (on_rotation_task i f g) i = map_option f (rotation_task_of g i)"
proof -
  have "List.find (\<lambda>k. rk_object k = i) (map (\<lambda>k. if rk_object k = i then f k else k) ks)
      = map_option f (List.find (\<lambda>k. rk_object k = i) ks)" for ks
    by (induction ks) (simp_all add: assms)
  then show ?thesis by (simp add: rotation_task_of_def on_rotation_task_def)
qed

lemma reset_inv:
  assumes inv: "hosting_inv remote g"
  shows "hosting_inv remote (task_reset i now mt g)"
proof (cases "rotation_task_of g i")
  case (Some k)
  define v where "v = sv_rotation (nd_objects (hg_node g) ! i)"
  define g1 where "g1 = on_rotation_task i (\<lambda>k. k\<lparr>rk_seen := v\<rparr>) g"
  have inv1: "hosting_inv remote g1"
    unfolding g1_def by (rule on_rotation_task_inv) (use hosting_inv_parts [OF inv] in auto)
  have "rotation_task_of g1 i = Some (k\<lparr>rk_seen := v\<rparr>)"
    unfolding g1_def by (simp add: find_map_update Some)
  from turn_inv [OF inv1 this, of "TurnReset now mt"] Some inv show ?thesis
    by (simp add: task_reset_def Let_def v_def [symmetric] g1_def [symmetric] del: rotation_loop.simps)
qed (simp add: task_reset_def inv)

text \<open>Between the two looks of a rotation the object's mutex is held for the task.\<close>

lemma generation_unique:
  assumes "node_inv remote n" "i < length (nd_objects n)" "j < length (nd_objects n)"
    and "sv_session_generation (nd_objects n ! i) = sv_session_generation (nd_objects n ! j)"
  shows "i = j"
proof -
  have "sorted_wrt (<) (map sv_session_generation (nd_objects n))"
    using assms(1) by (simp add: node_inv_def generations_ok_def)
  with assms(2-4) show ?thesis
    by (metis length_map linorder_neqE_nat nth_map order_less_irrefl sorted_wrt_nth_less)
qed

lemma lookup_bound: "node_inv remote n \<Longrightarrow> lookup_service n sid = Some i \<Longrightarrow>
    i < length (nd_objects n) \<and> sv_service_id (nd_objects n ! i) = sid"
  by (auto simp: node_inv_def registry_ok_def)

lemma task_ok_fields:
  "task_ok n k \<Longrightarrow> rk_object k < length (nd_objects n) \<and> sv_service_id (nd_objects n ! rk_object k) = rk_service_id k
     \<and> sv_session_generation (nd_objects n ! rk_object k) = rk_generation k
     \<and> sv_token_refresh (nd_objects n ! rk_object k) = Some (rs_period (rk_schedule k))"
  by (simp add: task_ok_def object_meta_def)

lemma task_begins_own:
  assumes "node_inv remote n" "task_ok n k"
    and "rotate_begin X (rk_service_id k) (Some (rk_generation k)) False fresh created n = (Inr pr, n')"
  shows "pr \<in> set (nd_rotations n') \<and> pr_object pr = rk_object k \<and> pr_service_id pr = rk_service_id k
    \<and> \<not> pr_reset_timer pr \<and> lookup_service n (rk_service_id k) = Some (rk_object k)"
proof -
  obtain j where j: "lookup_service n (rk_service_id k) = Some j"
      "sv_session_generation (nd_objects n ! j) = rk_generation k"
      "pr_object pr = j" "pr_service_id pr = rk_service_id k" "\<not> pr_reset_timer pr" "pr \<in> set (nd_rotations n')"
    using assms(3) by (auto simp: rotate_begin_def Let_def split: option.splits if_splits sum.splits)
  have "j = rk_object k"
    by (rule generation_unique [OF assms(1)])
      (use j lookup_bound [OF assms(1) j(1)] task_ok_fields [OF assms(2)] in simp_all)
  with j show ?thesis by simp
qed

lemma due_inv:
  assumes inv: "hosting_inv remote g"
  shows "hosting_inv remote (task_due X i now mt fresh created g)"
proof (cases "rotation_task_of g i")
  case (Some k)
  note parts = hosting_inv_parts [OF inv]
  have kk: "k \<in> set (hg_tasks g)" "rk_object k = i" using rotation_task_of_Some [OF Some] by auto
  show ?thesis
  proof (cases "rk_pc k \<noteq> RotWaiting \<or> \<not> should_rotate (rk_schedule k) now mt \<or> \<not> hg_alive g")
    case True
    with Some inv parts show ?thesis by (auto simp: task_due_def intro: drop_rotation_task_inv)
  next
    case False
    obtain r n' where run:
        "rotate_begin X (rk_service_id k) (Some (rk_generation k)) False fresh created (hg_node g) = (r, n')" by force
    have inv1: "hosting_inv remote (g\<lparr>hg_node := n'\<rparr>)"
    proof (rule hosting_inv_node [OF inv])
      show "node_inv remote n'" "node_shrinks (hg_node g) n'"
        using rotate_begin_inv [OF parts(1)] node_shrinks_begin run by (metis snd_conv)+
      show "pr \<in> set (nd_rotations n')" if "k' \<in> set (hg_tasks g)" "rk_pc k' = RotRotating pr now mt" for k' pr now mt
        using rotation_pending [OF inv that] rotations_begin run by (metis snd_conv)
    qed
    have k1: "rotation_task_of (g\<lparr>hg_node := n'\<rparr>) i = Some k" using Some by (simp add: rotation_task_of_def)
    show ?thesis
    proof (cases r)
      case (Inl e)
      from turn_inv [OF inv1 k1, of "TurnSlept now mt (Inl e) now mt"] Inl False Some run show ?thesis
        by (simp add: task_due_def del: rotation_loop.simps)
    next
      case (Inr pr)
      note pr = task_begins_own [OF parts(1) parts(3) [OF kk(1)] run [unfolded Inr]]
      have "hosting_inv remote (on_rotation_task i (\<lambda>k. k\<lparr>rk_pc := RotRotating pr now mt\<rparr>) (g\<lparr>hg_node := n'\<rparr>))"
      proof (rule on_rotation_task_inv)
        show "task_ok (hg_node (g\<lparr>hg_node := n'\<rparr>)) (k'\<lparr>rk_pc := RotRotating pr now mt\<rparr>)"
          if "k' \<in> set (hg_tasks (g\<lparr>hg_node := n'\<rparr>))" "rk_object k' = i" for k'
        proof -
          have "k' = k" using that object_task_unique [OF parts(2) Some] by simp
          with hosting_inv_parts(3) [OF inv1 that(1)] pr show ?thesis by (simp add: task_ok_def)
        qed
      qed (use hosting_inv_parts [OF inv1] in auto)
      with Inr False Some run show ?thesis by (simp add: task_due_def)
    qed
  qed
qed (simp add: task_due_def inv)

lemma task_ok_ended:
  assumes "task_ok n k" "node_shrinks n n'" "rs_period s' = rs_period (rk_schedule k)"
    "\<And>pr now mt. pc \<noteq> RotRotating pr now mt"
  shows "task_ok n' (k\<lparr>rk_schedule := s', rk_pc := pc\<rparr>)"
  using assms node_shrinks_meta [OF assms(2), of "rk_object k"] by (simp add: task_ok_def)

lemma rotated_inv:
  assumes inv: "hosting_inv remote g"
  shows "hosting_inv remote (task_rotated i now' mt' g)"
proof (cases "rotation_task_of g i")
  case (Some k)
  note parts = hosting_inv_parts [OF inv]
  have kk: "k \<in> set (hg_tasks g)" "rk_object k = i" using rotation_task_of_Some [OF Some] by auto
  show ?thesis
  proof (cases "rk_pc k")
    case (RotRotating pr now mt)
    obtain r n' where run: "rotate_finish pr (hg_node g) = (r, n')" by force
    note pr = task_ok_pending [OF parts(3) [OF kk(1)] RotRotating]
    have n': "n' = snd (rotate_finish pr (hg_node g))" by (simp add: run)
    have shr: "node_shrinks (hg_node g) n'" unfolding n' by (rule node_shrinks_finish)
    have "hosting_inv remote (after_turn i (rotation_loop (rk_schedule k) (TurnSlept now mt r now' mt')) (g\<lparr>hg_node := n'\<rparr>))"
    proof (rule after_turn_inv)
      show "node_inv remote (hg_node (g\<lparr>hg_node := n'\<rparr>))"
        using rotate_finish_inv [OF parts(1)] pr by (simp add: n')
      show "task_ok (hg_node (g\<lparr>hg_node := n'\<rparr>)) k'" if k': "k' \<in> set (hg_tasks (g\<lparr>hg_node := n'\<rparr>))" "rk_object k' \<noteq> i" for k'
      proof -
        have ok: "task_ok (hg_node g) k'" using parts(3) k'(1) by simp
        have "pr' \<in> set (nd_rotations n')" if "rk_pc k' = RotRotating pr' t u" for pr' t u
        proof -
          have "pr' \<noteq> pr" using task_ok_pending [OF ok that] pr k'(2) kk(2) by auto
          then show ?thesis using task_ok_pending [OF ok that] by (simp add: n' rotations_finish in_set_remove1)
        qed
        from task_ok_shrinks [OF ok shr this] show ?thesis by simp
      qed
      show "task_ok (hg_node (g\<lparr>hg_node := n'\<rparr>)) (k'\<lparr>rk_schedule := s', rk_pc := pc\<rparr>)"
        if "k' \<in> set (hg_tasks (g\<lparr>hg_node := n'\<rparr>))" "rk_object k' = i" "rs_period s' = rs_period (rk_schedule k)"
          "\<And>pr now mt. pc \<noteq> RotRotating pr now mt" for k' s' pc
        using task_ok_ended [OF parts(3) [OF kk(1)] shr that(3,4)] object_task_unique [OF parts(2) Some] that(1,2) by simp
    qed (use parts(2) in simp)
    with Some RotRotating run show ?thesis by (simp add: task_rotated_def del: rotation_loop.simps)
  qed (use Some inv in \<open>simp_all add: task_rotated_def\<close>)
qed (simp add: task_rotated_def inv)

text \<open>Publishing: what \<open>start_service\<close> returns, with the task it spawned.\<close>

lemma publish_cases:
  assumes "publish_service X opts fresh now mt g = g'"
  obtains (refused) "g' = g"
  | (duplicate) nxt where "checked_inc (nd_session_next (hg_node g)) = Some nxt"
      "g' = g\<lparr>hg_node := (hg_node g)\<lparr>nd_session_next := nxt\<rparr>\<rparr>"
  | (published) nxt resolved where "checked_inc (nd_session_next (hg_node g)) = Some nxt"
      "lookup_service (hg_node g) (so_service_id opts) = None"
      "resolve_token_state (so_token_refresh opts) (so_token_state opts) fresh now mt = Inr resolved"
      "g' = g\<lparr>hg_node := with_new_service (new_service opts resolved (nd_session_next (hg_node g)))
                            ((hg_node g)\<lparr>nd_session_next := nxt\<rparr>),
               hg_tasks := hg_tasks g @ spawned_task (so_service_id opts) (nd_session_next (hg_node g))
                 (length (nd_objects (hg_node g))) resolved\<rparr>"
proof -
  obtain r n' where run: "start_service X opts fresh now mt (hg_node g) = (r, n')" by force
  then show thesis
  proof (cases rule: start_service_cases)
    case (refused e)
    with run assms have "g' = g" by (simp add: publish_service_def)
    with that(1) show thesis .
  next
    case (duplicate nxt)
    with run assms have "g' = g\<lparr>hg_node := (hg_node g)\<lparr>nd_session_next := nxt\<rparr>\<rparr>" by (simp add: publish_service_def)
    with that(2) duplicate(2) show thesis .
  next
    case (started nxt resolved)
    show thesis
      by (rule that(3) [OF started(2,3,5)])
        (use run assms started in \<open>simp add: publish_service_def Let_def\<close>)
  qed
qed

lemma resolved_refresh:
  assumes "resolve_token_state policy saved fresh now mt = Inr r" "rt_refresh r = Some p"
  shows "policy = PolicyAfter p \<and> (\<exists>d m. rt_deadline r = Some d \<and> rt_deadline_monotonic r = Some m)"
proof (cases policy)
  case (PolicyAfter q)
  with assms resolve_after [of q saved fresh now mt r] show ?thesis by simp
qed (use assms in \<open>auto simp: resolve_token_state_def\<close>)

lemma spawned_task_ok:
  assumes "k \<in> set (spawned_task sid gen i r)"
  shows "rk_service_id k = sid \<and> rk_generation k = gen \<and> rk_object k = i \<and> rk_pc k = RotWaiting
    \<and> rt_refresh r = Some (rs_period (rk_schedule k))"
  using assms by (auto simp: spawned_task_def schedule_new_def split: option.splits)

lemma spawned_task_Some:
  assumes "resolve_token_state policy saved fresh now mt = Inr r" "rt_refresh r = Some p"
  shows "i \<in> rk_object ` set (spawned_task sid gen i r)"
  using resolved_refresh [OF assms] assms(2) by (auto simp: spawned_task_def)

lemma spawned_task_objects: "map rk_object (spawned_task sid gen i r) \<in> {[], [i]}"
  by (auto simp: spawned_task_def split: option.splits)

lemma new_service_meta: "object_meta (new_service opts r gen) = (so_service_id opts, gen, rt_refresh r)"
  by (simp add: object_meta_def) (simp add: new_service_def Let_def)

lemma publish_inv:
  assumes inv: "hosting_inv remote g"
  shows "hosting_inv remote (publish_service X opts fresh now mt g)"
proof -
  note parts = hosting_inv_parts [OF inv]
  have node: "node_inv remote (hg_node (publish_service X opts fresh now mt g))"
    using start_service_inv [OF parts(1)]
    by (auto simp: publish_service_def Let_def split: prod.splits sum.splits) (metis snd_conv)+
  show ?thesis
  proof (cases rule: publish_cases [OF refl, of X opts fresh now mt g])
    case 1
    with inv show ?thesis by simp
  next
    case (2 nxt)
    have "task_ok (hg_node (publish_service X opts fresh now mt g)) k" if "k \<in> set (hg_tasks g)" for k
      using parts(3) [OF that] 2 by (simp add: task_ok_def)
    with node 2 parts show ?thesis by (simp add: hosting_inv_def)
  next
    case (3 nxt resolved)
    let ?m = "length (nd_objects (hg_node g))"
    have old: "task_ok (hg_node (publish_service X opts fresh now mt g)) k" if "k \<in> set (hg_tasks g)" for k
      using parts(3) [OF that] 3(4) by (auto simp: task_ok_def with_new_service_def nth_append)
    have new: "task_ok (hg_node (publish_service X opts fresh now mt g)) k"
      if "k \<in> set (spawned_task (so_service_id opts) (nd_session_next (hg_node g)) ?m resolved)" for k
      using spawned_task_ok [OF that] 3(4) by (simp add: task_ok_def with_new_service_def nth_append new_service_meta)
    have "\<forall>k \<in> set (hg_tasks g). rk_object k < ?m" using parts(3) by (auto simp: task_ok_def)
    moreover define sp where "sp = spawned_task (so_service_id opts) (nd_session_next (hg_node g)) ?m resolved"
    moreover have "map rk_object sp = [] \<or> map rk_object sp = [?m]"
      using spawned_task_objects [of "so_service_id opts" "nd_session_next (hg_node g)" ?m resolved]
      by (simp add: sp_def)
    ultimately have "distinct (map rk_object (hg_tasks g @ sp))"
      using parts(2) unfolding map_append distinct_append by fastforce
    with node old new 3(4) show ?thesis by (auto simp: hosting_inv_def sp_def)
  qed
qed

lemma hosting_step_inv:
  assumes "hosting_inv remote g"
  shows "hosting_inv remote (hosting_step X remote g l)"
proof (cases l)
  case HgDropped
  with assms show ?thesis by (simp add: hosting_inv_def)
qed (use assms in \<open>auto intro: others_inv publish_inv due_inv rotated_inv reported_inv reset_inv closed_inv\<close>)

lemma hosting_start_inv: "hosting_start g \<Longrightarrow> hosting_inv remote g"
  by (auto simp: hosting_start_def hosting_new_def hosting_inv_def node_start_inv)

interpretation hosting_sys: invariant_system hosting_start "hosting_step X remote" "hosting_inv remote" for X remote
  by unfold_locales (simp_all add: hosting_start_inv hosting_step_inv)

end
