(* ===== verification/Rotation_Properties.thy ===== *)
theory Rotation_Properties
  imports Rotation_Task
begin

text \<open>
  What the rotation tasks achieve: every published service that asked for a refresh period has
  exactly one task of its own session as long as the clocks stay representable (\<open>covered\<close>), a due
  task replaces the token of its service, and a task that outlived its service changes nothing
  and ends.
\<close>

section \<open>Every service keeps its task\<close>

definition published :: "hosting \<Rightarrow> nat \<Rightarrow> bool" where
  "published g i \<longleftrightarrow> (\<exists>sid. lookup_service (hg_node g) sid = Some i)"

definition covered :: "duration \<Rightarrow> hosting \<Rightarrow> bool" where
  "covered P g \<longleftrightarrow> (hg_alive g \<longrightarrow>
     (\<forall>i p. published g i \<and> sv_token_refresh (nd_objects (hg_node g) ! i) = Some p \<longrightarrow>
        p \<le> P \<and> i \<in> rk_object ` set (hg_tasks g)))"

text \<open>Periods of at most \<open>P\<close>, and clocks that stay at least \<open>P\<close> below the largest time.\<close>

fun timely :: "duration \<Rightarrow> hosting_label \<Rightarrow> bool" where
  "timely P (HgPublish opts fresh now mt) \<longleftrightarrow> (\<forall>p. so_token_refresh opts = PolicyAfter p \<longrightarrow> p \<le> P)"
| "timely P (HgRotated i now mt) \<longleftrightarrow> now + int P \<le> time_max \<and> mt + int P \<le> time_max"
| "timely P (HgReset i now mt) \<longleftrightarrow> now + int P \<le> time_max \<and> mt + int P \<le> time_max"
| "timely P _ \<longleftrightarrow> True"

lemma covered_node:
  assumes "covered P g" "node_shrinks (hg_node g) n'" "node_inv remote n'"
  shows "covered P (g\<lparr>hg_node := n'\<rparr>)"
proof -
  have "published g i \<and> sv_token_refresh (nd_objects (hg_node g) ! i) = sv_token_refresh (nd_objects n' ! i)"
    if "lookup_service n' sid = Some i" for sid i
  proof -
    have "i < length (nd_objects n')" using lookup_bound [OF assms(3) that] by simp
    moreover have "length (nd_objects n') = length (nd_objects (hg_node g))"
      using assms(2) unfolding node_shrinks_def by (metis length_map)
    ultimately show ?thesis
      using node_shrinks_meta [OF assms(2), of i] assms(2) that
      by (auto simp: published_def node_shrinks_def object_meta_def)
  qed
  with assms(1) show ?thesis unfolding covered_def published_def by simp metis
qed

lemma published_shrinks: "node_shrinks (hg_node g) n' \<Longrightarrow> published (g\<lparr>hg_node := n'\<rparr>) i \<Longrightarrow> published g i"
  by (auto simp: published_def node_shrinks_def)

lemma objects_on_task:
  "(\<And>k. rk_object (f k) = rk_object k) \<Longrightarrow>
     rk_object ` set (hg_tasks (on_rotation_task i f g)) = rk_object ` set (hg_tasks g)"
  by (metis list.set_map on_task_objects)

lemma published_simps [simp]:
  "published (on_rotation_task i f g) j = published g j" "published (drop_rotation_task i g) j = published g j"
  by (simp_all add: published_def)

lemma covered_on_task:
  "covered P g \<Longrightarrow> (\<And>k. rk_object (f k) = rk_object k) \<Longrightarrow> covered P (on_rotation_task i f g)"
  by (simp add: covered_def objects_on_task)

lemma covered_drop: "covered P g \<Longrightarrow> \<not> (hg_alive g \<and> published g i) \<Longrightarrow> covered P (drop_rotation_task i g)"
  unfolding covered_def by (auto simp: image_iff)

lemma covered_turn:
  assumes "covered P g" "fst r = None \<Longrightarrow> \<not> (hg_alive g \<and> published g i)"
  shows "covered P (after_turn i r g)"
  using assms by (cases "(i, r, g)" rule: after_turn.cases) (simp_all add: covered_drop covered_on_task)

text \<open>A turn that ends the task of a published service ran into the end of the clock.\<close>

lemma schedule_reset_representable:
  "now + int (rs_period s) \<le> time_max \<Longrightarrow> mt + int (rs_period s) \<le> time_max \<Longrightarrow>
     schedule_reset s now mt = (True, s\<lparr>rs_deadline := now + int (rs_period s),
       rs_deadline_monotonic := mt + int (rs_period s), rs_failure_count := 0\<rparr>)"
  by (simp add: schedule_reset_def time_checked_add_def)

lemma turn_ends:
  assumes "fst (rotation_loop s (TurnSlept now mt r now' mt')) = None"
    and "now' + int (rs_period s) \<le> time_max" "mt' + int (rs_period s) \<le> time_max"
  shows "r = Inl ServiceNotFound"
  using assms
  by (auto simp: after_reset_def schedule_reset_representable Let_def
      split: if_splits sum.splits sculk_node_error.splits)

lemma task_period_bound:
  assumes "hosting_inv remote g" "covered P g" "k \<in> set (hg_tasks g)" "hg_alive g" "published g (rk_object k)"
  shows "rs_period (rk_schedule k) \<le> P"
proof -
  have "sv_token_refresh (nd_objects (hg_node g) ! rk_object k) = Some (rs_period (rk_schedule k))"
    using task_ok_fields [OF hosting_inv_parts(3) [OF assms(1,3)]] by simp
  with assms(2,4,5) show ?thesis by (auto simp: covered_def)
qed

lemma published_sid:
  assumes "hosting_inv remote g" "k \<in> set (hg_tasks g)"
  shows "published g (rk_object k) \<longleftrightarrow> lookup_service (hg_node g) (rk_service_id k) = Some (rk_object k)"
  using lookup_bound [OF hosting_inv_parts(1) [OF assms(1)]] task_ok_fields [OF hosting_inv_parts(3) [OF assms]]
  by (auto simp: published_def)

lemma begin_not_found:
  assumes "rotate_begin X sid (Some gen) reset fresh created n = (Inl ServiceNotFound, n')"
    and "lookup_service n sid = Some i" "sv_session_generation (nd_objects n ! i) = gen"
  shows False
  using assms by (auto simp: rotate_begin_def Let_def rotation_deadline_def split: if_splits sum.splits option.splits)

lemma covered_due:
  assumes inv: "hosting_inv remote g" and cov: "covered P g"
  shows "covered P (task_due X i now mt fresh created g)"
proof (cases "rotation_task_of g i")
  case (Some k)
  have kk: "k \<in> set (hg_tasks g)" "rk_object k = i" using rotation_task_of_Some [OF Some] by auto
  note ok = task_ok_fields [OF hosting_inv_parts(3) [OF inv kk(1)]]
  obtain r n' where run:
      "rotate_begin X (rk_service_id k) (Some (rk_generation k)) False fresh created (hg_node g) = (r, n')" by force
  have n': "n' = snd (rotate_begin X (rk_service_id k) (Some (rk_generation k)) False fresh created (hg_node g))"
    by (simp add: run)
  have cov': "covered P (g\<lparr>hg_node := n'\<rparr>)"
    unfolding n' by (rule covered_node [OF cov node_shrinks_begin rotate_begin_inv [OF hosting_inv_parts(1) [OF inv]]])
  have gone: "\<not> published (g\<lparr>hg_node := n'\<rparr>) i" if "r = Inl ServiceNotFound"
  proof
    assume "published (g\<lparr>hg_node := n'\<rparr>) i"
    then have "published g i" unfolding n' by (rule published_shrinks [OF node_shrinks_begin])
    then show False
      using begin_not_found [OF run [unfolded that]] published_sid [OF inv kk(1)] ok kk(2) by metis
  qed
  have "covered P (after_turn i (rotation_loop (rk_schedule k) (TurnSlept now mt (Inl e) now mt)) (g\<lparr>hg_node := n'\<rparr>))"
    if "r = Inl e" for e
    by (rule covered_turn [OF cov']) (use gone that in \<open>auto simp: Let_def split: if_splits sculk_node_error.splits\<close>)
  with Some run cov cov' show ?thesis
    by (auto simp: task_due_def covered_drop covered_on_task simp del: rotation_loop.simps split: sum.split)
qed (simp add: task_due_def cov)

lemma covered_rotated:
  assumes inv: "hosting_inv remote g" and cov: "covered P g"
    and clock: "now' + int P \<le> time_max" "mt' + int P \<le> time_max"
  shows "covered P (task_rotated i now' mt' g)"
proof (cases "rotation_task_of g i")
  case (Some k)
  have kk: "k \<in> set (hg_tasks g)" "rk_object k = i" using rotation_task_of_Some [OF Some] by auto
  show ?thesis
  proof (cases "rk_pc k")
    case (RotRotating pr now mt)
    note pr = task_ok_pending [OF hosting_inv_parts(3) [OF inv kk(1)] RotRotating]
    obtain r n' where run: "rotate_finish pr (hg_node g) = (r, n')" by force
    have n': "n' = snd (rotate_finish pr (hg_node g))" by (simp add: run)
    have cov': "covered P (g\<lparr>hg_node := n'\<rparr>)"
      unfolding n'
      by (rule covered_node [OF cov node_shrinks_finish]) (use pr hosting_inv_parts(1) [OF inv] in \<open>auto intro: rotate_finish_inv\<close>)
    have "covered P (after_turn i (rotation_loop (rk_schedule k) (TurnSlept now mt r now' mt')) (g\<lparr>hg_node := n'\<rparr>))"
    proof (rule covered_turn [OF cov'], rule notI)
      assume ended: "fst (rotation_loop (rk_schedule k) (TurnSlept now mt r now' mt')) = None"
        and live: "hg_alive (g\<lparr>hg_node := n'\<rparr>) \<and> published (g\<lparr>hg_node := n'\<rparr>) i"
      then have pub: "hg_alive g" "published g i"
        using published_shrinks [OF node_shrinks_finish] by (auto simp: n')
      then have "rs_period (rk_schedule k) \<le> P" using task_period_bound [OF inv cov kk(1)] kk(2) by simp
      with clock have "r = Inl ServiceNotFound" by (intro turn_ends [OF ended]) linarith+
      with run have "lookup_service (hg_node g) (pr_service_id pr) \<noteq> Some (pr_object pr)"
        by (auto simp: rotate_finish_alt split: if_splits)
      with pub(2) pr published_sid [OF inv kk(1)] kk(2) show False by simp
    qed
    with Some RotRotating run show ?thesis by (simp add: task_rotated_def del: rotation_loop.simps)
  qed (use Some cov in \<open>simp_all add: task_rotated_def\<close>)
qed (simp add: task_rotated_def cov)

lemma covered_reset:
  assumes inv: "hosting_inv remote g" and cov: "covered P g"
    and clock: "now + int P \<le> time_max" "mt + int P \<le> time_max"
  shows "covered P (task_reset i now mt g)"
proof (cases "rotation_task_of g i")
  case (Some k)
  have kk: "k \<in> set (hg_tasks g)" "rk_object k = i" using rotation_task_of_Some [OF Some] by auto
  define g1 where "g1 = on_rotation_task i (\<lambda>k. k\<lparr>rk_seen := sv_rotation (nd_objects (hg_node g) ! i)\<rparr>) g"
  have cov1: "covered P g1" unfolding g1_def by (rule covered_on_task [OF cov]) simp
  have "covered P (after_turn i (rotation_loop (rk_schedule k) (TurnReset now mt)) g1)"
  proof (rule covered_turn [OF cov1], rule notI)
    assume ended: "fst (rotation_loop (rk_schedule k) (TurnReset now mt)) = None"
      and live: "hg_alive g1 \<and> published g1 i"
    then have "rs_period (rk_schedule k) \<le> P"
      using task_period_bound [OF inv cov kk(1)] kk(2) by (simp add: g1_def)
    with clock ended show False by (simp add: schedule_reset_representable after_reset_def)
  qed
  with Some cov show ?thesis
    by (simp add: task_reset_def Let_def g1_def [symmetric] del: rotation_loop.simps)
qed (simp add: task_reset_def cov)

lemma covered_closed:
  assumes cov: "covered P g"
  shows "covered P (task_closed i g)"
proof -
  have "\<not> (hg_alive g \<and> published g i)" if "sender_dropped i g"
    using that by (force simp: sender_dropped_def published_def lookup_service_def dest: map_of_SomeD)
  with cov show ?thesis
    by (auto simp: task_closed_def covered_drop split: option.splits)
qed

lemma covered_publish:
  assumes inv: "hosting_inv remote g" and cov: "covered P g" and "\<forall>p. so_token_refresh opts = PolicyAfter p \<longrightarrow> p \<le> P"
  shows "covered P (publish_service X opts fresh now mt g)"
proof (cases rule: publish_cases [OF refl, of X opts fresh now mt g])
  case (2 nxt)
  with cov show ?thesis by (simp add: covered_def published_def lookup_service_def)
next
  case (3 nxt resolved)
  let ?m = "length (nd_objects (hg_node g))"
  let ?g' = "publish_service X opts fresh now mt g"
  have look: "lookup_service (hg_node ?g') sid =
      (if sid = so_service_id opts then Some ?m else lookup_service (hg_node g) sid)" for sid
    unfolding 3(4) by (simp add: with_new_service_def lookup_service_def update_conv')
  have "p \<le> P \<and> i \<in> rk_object ` set (hg_tasks ?g')"
    if alive: "hg_alive ?g'" and pub: "lookup_service (hg_node ?g') sid = Some i"
      and per: "sv_token_refresh (nd_objects (hg_node ?g') ! i) = Some p" for sid i p
  proof (cases "sid = so_service_id opts")
    case True
    with pub look have i: "i = ?m" by simp
    with per 3(4) have "rt_refresh resolved = Some p"
      using new_service_meta [of opts resolved "nd_session_next (hg_node g)"]
      by (simp add: with_new_service_def nth_append object_meta_def)
    with resolved_refresh [OF 3(3)] spawned_task_Some [OF 3(3)] assms(3) i show ?thesis
      unfolding 3(4) by (auto simp: image_Un)
  next
    case False
    with pub look have old: "lookup_service (hg_node g) sid = Some i" by simp
    moreover from this have "i < ?m" using lookup_bound [OF hosting_inv_parts(1) [OF inv]] by blast
    ultimately show ?thesis using cov per alive unfolding 3(4)
      by (auto simp: covered_def published_def with_new_service_def nth_append)
  qed
  then show ?thesis by (auto simp: covered_def published_def)
qed (simp add: cov)

lemma covered_step:
  assumes inv: "hosting_inv remote g" and cov: "covered P g" and "timely P l"
  shows "covered P (hosting_step X remote g l)"
proof (cases l)
  case (HgNode nl)
  have "covered P (g\<lparr>hg_node := node_step X remote (hg_node g) nl\<rparr>)" if "others_label g nl"
    by (rule covered_node [OF cov others_shrink [OF that] node_step_inv [OF hosting_inv_parts(1) [OF inv]]])
  with HgNode cov show ?thesis by simp
next
  case (HgReported i)
  have "covered P (g\<lparr>hg_node := record_rotation_failure sid gen c d (hg_node g)\<rparr>)" for sid gen c d
    by (rule covered_node [OF cov node_shrinks_failure record_rotation_failure_inv [OF hosting_inv_parts(1) [OF inv]]])
  with HgReported cov show ?thesis
    by (auto simp: task_reported_def intro!: covered_on_task split: option.splits rotation_pc.splits)
next
  case HgDropped
  then show ?thesis by (simp add: covered_def)
qed (use assms in \<open>auto intro: covered_publish covered_due covered_rotated covered_reset covered_closed\<close>)

lemma covered_run:
  assumes "hosting_inv remote g" "covered P g" "\<forall>l \<in> set ls. timely P l"
  shows "covered P (run_steps (hosting_step X remote) g ls)"
  using assms by (induction ls arbitrary: g) (auto intro: covered_step hosting_step_inv)

lemma covered_start: "hosting_start g \<Longrightarrow> covered P g"
  by (auto simp: hosting_start_def hosting_new_def covered_def published_def node_start_def node_bind_def lookup_service_def)

lemma distinct_generations:
  assumes "hosting_inv remote g"
  shows "distinct (map rk_generation (hg_tasks g))"
proof -
  have tasks: "distinct (hg_tasks g)" "inj_on rk_object (set (hg_tasks g))"
    using hosting_inv_parts(2) [OF assms] by (simp_all add: distinct_map)
  have "inj_on rk_generation (set (hg_tasks g))"
  proof (rule inj_onI)
    fix k k' assume k: "k \<in> set (hg_tasks g)" "k' \<in> set (hg_tasks g)" "rk_generation k = rk_generation k'"
    note f = task_ok_fields [OF hosting_inv_parts(3) [OF assms k(1)]] task_ok_fields [OF hosting_inv_parts(3) [OF assms k(2)]]
    have "rk_object k = rk_object k'"
      by (rule generation_unique [OF hosting_inv_parts(1) [OF assms]]) (simp_all add: f k(3))
    with tasks(2) k(1,2) show "k = k'" by (simp add: inj_on_eq_iff)
  qed
  with tasks(1) show ?thesis by (simp add: distinct_map)
qed

text \<open>
  C12. Automatic rotation is never lost and never duplicated. In every interleaving each rotation
  task belongs to one session of one service, with that session's refresh period, and no two to
  the same session; and while the Node is in use, every published service that asked for a
  refresh period has its task, as long as the clocks stay one period below the largest
  representable time.
\<close>

theorem rotation_tasks_follow_services:
  assumes "hosting_start g0" and "\<forall>l \<in> set ls. timely P l" and "g = run_steps (hosting_step X remote) g0 ls"
  shows "distinct (map rk_generation (hg_tasks g))
    \<and> (\<forall>k \<in> set (hg_tasks g).
         sv_service_id (nd_objects (hg_node g) ! rk_object k) = rk_service_id k
         \<and> sv_session_generation (nd_objects (hg_node g) ! rk_object k) = rk_generation k
         \<and> sv_token_refresh (nd_objects (hg_node g) ! rk_object k) = Some (rs_period (rk_schedule k)))
    \<and> (hg_alive g \<longrightarrow> (\<forall>sid i p. lookup_service (hg_node g) sid = Some i
         \<and> sv_token_refresh (nd_objects (hg_node g) ! i) = Some p \<longrightarrow>
           (\<exists>k \<in> set (hg_tasks g). rk_object k = i \<and> rk_service_id k = sid \<and> rs_period (rk_schedule k) = p)))"
proof -
  have inv: "hosting_inv remote g" unfolding assms(3) by (rule hosting_sys.inv_reachable [OF assms(1)])
  have cov: "covered P g"
    unfolding assms(3) by (rule covered_run [OF hosting_start_inv [OF assms(1)] covered_start [OF assms(1)] assms(2)])
  note fields = task_ok_fields [OF hosting_inv_parts(3) [OF inv]]
  have "\<exists>k \<in> set (hg_tasks g). rk_object k = i \<and> rk_service_id k = sid \<and> rs_period (rk_schedule k) = p"
    if "hg_alive g" "lookup_service (hg_node g) sid = Some i" "sv_token_refresh (nd_objects (hg_node g) ! i) = Some p" for sid i p
  proof -
    from cov that obtain k where k: "k \<in> set (hg_tasks g)" "rk_object k = i" by (auto simp: covered_def published_def)
    with fields [OF k(1)] that lookup_bound [OF hosting_inv_parts(1) [OF inv] that(2)] show ?thesis by auto
  qed
  with distinct_generations [OF inv] fields show ?thesis by blast
qed

section \<open>A due rotation takes effect\<close>

lemma task_rotates:
  assumes inv: "hosting_inv remote g" and k: "rotation_task_of g i = Some k"
    and due: "rk_pc k = RotWaiting" "should_rotate (rk_schedule k) now mt" "hg_alive g"
    and free: "lookup_service (hg_node g) (rk_service_id k) = Some i" "\<not> sv_rotating (nd_objects (hg_node g) ! i)"
    and ok: "is_ok (expose_secret_uri X (node_join_uri_value (hg_node g) (rk_service_id k) fresh))"
    and clock: "created + int (rs_period (rk_schedule k)) \<le> time_max"
  obtains pr where "pr_object pr = i" "pr_service_id pr = rk_service_id k" "pr_token pr = fresh" "pr_created_at pr = created"
      "pr_next_at pr = Some (created + int (rs_period (rk_schedule k)))" "\<not> pr_reset_timer pr"
      "task_due X i now mt fresh created g = on_rotation_task i (\<lambda>k. k\<lparr>rk_pc := RotRotating pr now mt\<rparr>)
         (g\<lparr>hg_node := update_object i (\<lambda>s. s\<lparr>sv_rotating := True\<rparr>) ((hg_node g)\<lparr>nd_rotations := pr # nd_rotations (hg_node g)\<rparr>)\<rparr>)"
proof -
  define pr where "pr = \<lparr>pr_object = i, pr_service_id = rk_service_id k, pr_token = fresh, pr_created_at = created,
      pr_next_at = Some (created + int (rs_period (rk_schedule k))), pr_reset_timer = False\<rparr>"
  have kk: "k \<in> set (hg_tasks g)" "rk_object k = i" using rotation_task_of_Some [OF k] by auto
  note f = task_ok_fields [OF hosting_inv_parts(3) [OF inv kk(1)]]
  obtain txt' where "expose_secret_uri X (node_join_uri_value (hg_node g) (rk_service_id k) fresh) = Inr txt'"
    using ok by (cases "expose_secret_uri X (node_join_uri_value (hg_node g) (rk_service_id k) fresh)") auto
  with free f kk(2) clock have "rotate_begin X (rk_service_id k) (Some (rk_generation k)) False fresh created (hg_node g)
      = (Inr pr, update_object i (\<lambda>s. s\<lparr>sv_rotating := True\<rparr>) ((hg_node g)\<lparr>nd_rotations := pr # nd_rotations (hg_node g)\<rparr>))"
    by (simp add: rotate_begin_def Let_def rotation_deadline_def time_checked_add_def pr_def)
  with k due show thesis by (intro that [of pr]) (simp_all add: task_due_def pr_def)
qed

text \<open>Both halves of a rotation, with nothing in between.\<close>

definition rotating_node :: "pending_rotation \<Rightarrow> node \<Rightarrow> node" where
  "rotating_node pr n = update_object (pr_object pr) (\<lambda>s. s\<lparr>sv_rotating := True\<rparr>) (n\<lparr>nd_rotations := pr # nd_rotations n\<rparr>)"

lemma rotating_node_nth:
  "j < length (nd_objects n) \<Longrightarrow> nd_objects (rotating_node pr n) ! j =
     (if j = pr_object pr then (nd_objects n ! j)\<lparr>sv_rotating := True\<rparr> else nd_objects n ! j)"
  by (simp add: rotating_node_def nth_update_object)

lemma rotating_node_simps [simp]:
  "lookup_service (rotating_node pr n) sid = lookup_service n sid"
  "length (nd_objects (rotating_node pr n)) = length (nd_objects n)"
  "node_join_uri_value (rotating_node pr n) sid t = node_join_uri_value n sid t"
  by (simp_all add: rotating_node_def) (simp_all add: lookup_service_def node_join_uri_value_def)

lemma rotation_finishes:
  assumes "lookup_service n sid = Some i" "i < length (nd_objects n)" "sv_service_id (nd_objects n ! i) = sid"
    and "pr_object pr = i" "pr_service_id pr = sid" "service_status (nd_objects n ! i) = Some st"
  obtains n' where "rotate_finish pr (rotating_node pr n) = (Inr (node_join_uri_value n sid (pr_token pr)), n')"
    "handle_join_uri sid n' = Some (Inr (node_join_uri_value n sid (pr_token pr)))"
    "handle_status sid n' = Inr (st\<lparr>st_uri_generation := saturating_inc (st_uri_generation st),
        st_token_created_at := pr_created_at pr, st_next_rotation_at := pr_next_at pr\<rparr>)"
    "\<forall>j < length (nd_objects n). j \<noteq> i \<longrightarrow> nd_objects n' ! j = nd_objects n ! j"
proof -
  define n' where "n' = release_rotation pr (update_object i (apply_rotation pr) (rotating_node pr n))"
  have objs: "nd_objects n' ! j = (if j = i then (apply_rotation pr ((nd_objects n ! i)\<lparr>sv_rotating := True\<rparr>))\<lparr>sv_rotating := False\<rparr>
      else nd_objects n ! j)" if "j < length (nd_objects n)" for j
    using that by (simp add: n'_def release_nth nth_update_object assms(4) rotating_node_nth)
  have uri: "node_join_uri_value n' s t = node_join_uri_value n s t" for s t
    by (rule node_uri_cong) (simp_all add: n'_def rotating_node_def)
  show thesis
  proof (rule that [of n'])
    show "rotate_finish pr (rotating_node pr n) = (Inr (node_join_uri_value n sid (pr_token pr)), n')"
      using assms by (simp add: rotate_finish_alt rotating_node_nth n'_def)
    show "handle_join_uri sid n' = Some (Inr (node_join_uri_value n sid (pr_token pr)))"
      using assms objs [OF assms(2)] uri by (simp add: handle_join_uri_def n'_def [THEN arg_cong, of "\<lambda>m. lookup_service m sid"])
    show "handle_status sid n' = Inr (st\<lparr>st_uri_generation := saturating_inc (st_uri_generation st),
        st_token_created_at := pr_created_at pr, st_next_rotation_at := pr_next_at pr\<rparr>)"
      using assms objs [OF assms(2)] apply_rotation_status [of "(nd_objects n ! i)\<lparr>sv_rotating := True\<rparr>" st pr]
      by (simp add: handle_status_def n'_def [THEN arg_cong, of "\<lambda>m. lookup_service m sid"])
  qed (simp add: objs)
qed

text \<open>
  C5. A due automatic rotation takes effect: when the sleep of a task is over, its service is
  published and no other rotation holds the mutex, the task's two halves of the rotation put the
  fresh token in force, announce the next deadline one period after the token was created,
  leave every other service alone, and arm the schedule again one period after they are done.
\<close>

theorem due_rotation_takes_effect:
  assumes "hosting_start g0" and "g = run_steps (hosting_step X remote) g0 ls"
    and "rotation_task_of g i = Some k" and "rk_pc k = RotWaiting" and "should_rotate (rk_schedule k) now mt"
    and "hg_alive g" and "lookup_service (hg_node g) (rk_service_id k) = Some i"
    and "\<not> sv_rotating (nd_objects (hg_node g) ! i)" and "service_status (nd_objects (hg_node g) ! i) = Some st"
    and "is_ok (expose_secret_uri X (node_join_uri_value (hg_node g) (rk_service_id k) fresh))"
    and "period = int (rs_period (rk_schedule k))"
    and "created + period \<le> time_max" and "now' + period \<le> time_max" and "mt' + period \<le> time_max"
    and "g' = run_steps (hosting_step X remote) g [HgDue i now mt fresh created, HgRotated i now' mt']"
  shows "handle_join_uri (rk_service_id k) (hg_node g') = Some (Inr (node_join_uri_value (hg_node g) (rk_service_id k) fresh))
    \<and> handle_status (rk_service_id k) (hg_node g') =
        Inr (st\<lparr>st_uri_generation := saturating_inc (st_uri_generation st), st_token_created_at := created,
                st_next_rotation_at := Some (created + period)\<rparr>)
    \<and> rotation_task_of g' i = Some (k\<lparr>rk_schedule := (rk_schedule k)\<lparr>rs_deadline := now' + period,
        rs_deadline_monotonic := mt' + period, rs_failure_count := 0\<rparr>\<rparr>)
    \<and> (\<forall>j < length (nd_objects (hg_node g)). j \<noteq> i \<longrightarrow> nd_objects (hg_node g') ! j = nd_objects (hg_node g) ! j)"
proof -
  have inv: "hosting_inv remote g" unfolding assms(2) by (rule hosting_sys.inv_reachable [OF assms(1)])
  have kk: "k \<in> set (hg_tasks g)" "rk_object k = i" using rotation_task_of_Some [OF assms(3)] by auto
  have i: "i < length (nd_objects (hg_node g))" "sv_service_id (nd_objects (hg_node g) ! i) = rk_service_id k"
    using task_ok_fields [OF hosting_inv_parts(3) [OF inv kk(1)]] kk(2) by auto
  have clock: "created + int (rs_period (rk_schedule k)) \<le> time_max" using assms(11,12) by simp
  from task_rotates [OF inv assms(3-8,10) clock] obtain pr where
    pr: "pr_object pr = i" "pr_service_id pr = rk_service_id k" "pr_token pr = fresh" "pr_created_at pr = created"
      "pr_next_at pr = Some (created + int (rs_period (rk_schedule k)))"
    and due: "task_due X i now mt fresh created g =
        on_rotation_task i (\<lambda>k. k\<lparr>rk_pc := RotRotating pr now mt\<rparr>) (g\<lparr>hg_node := rotating_node pr (hg_node g)\<rparr>)"
    by (metis rotating_node_def)
  define g1 where "g1 = on_rotation_task i (\<lambda>k. k\<lparr>rk_pc := RotRotating pr now mt\<rparr>) (g\<lparr>hg_node := rotating_node pr (hg_node g)\<rparr>)"
  have find1: "rotation_task_of g1 i = Some (k\<lparr>rk_pc := RotRotating pr now mt\<rparr>)"
    unfolding g1_def using assms(3) by (subst find_map_update) (simp_all add: rotation_task_of_def)
  have node1: "hg_node g1 = rotating_node pr (hg_node g)" by (simp add: g1_def)
  obtain n' where n': "rotate_finish pr (rotating_node pr (hg_node g))
        = (Inr (node_join_uri_value (hg_node g) (rk_service_id k) (pr_token pr)), n')"
      "handle_join_uri (rk_service_id k) n' = Some (Inr (node_join_uri_value (hg_node g) (rk_service_id k) (pr_token pr)))"
      "handle_status (rk_service_id k) n' = Inr (st\<lparr>st_uri_generation := saturating_inc (st_uri_generation st),
        st_token_created_at := pr_created_at pr, st_next_rotation_at := pr_next_at pr\<rparr>)"
      "\<forall>j < length (nd_objects (hg_node g)). j \<noteq> i \<longrightarrow> nd_objects n' ! j = nd_objects (hg_node g) ! j"
    by (rule rotation_finishes [OF assms(7) i pr(1,2) assms(9)])
  have g': "g' = on_rotation_task i (\<lambda>k'. k'\<lparr>rk_schedule := (rk_schedule k)\<lparr>rs_deadline := now' + period,
        rs_deadline_monotonic := mt' + period, rs_failure_count := 0\<rparr>, rk_pc := RotWaiting\<rparr>) (g1\<lparr>hg_node := n'\<rparr>)"
    using assms(5,11,13,14) find1 n'(1)
    by (simp add: assms(15) node1 due [folded g1_def] task_rotated_def schedule_reset_representable after_reset_def)
  have "rotation_task_of g' i = Some (k\<lparr>rk_schedule := (rk_schedule k)\<lparr>rs_deadline := now' + period,
        rs_deadline_monotonic := mt' + period, rs_failure_count := 0\<rparr>\<rparr>)"
    using find1 assms(4) unfolding g' by (subst find_map_update) (simp_all add: rotation_task_of_def)
  with n'(2-4) show ?thesis by (simp add: g' pr assms(11))
qed

section \<open>A task stays with its own service\<close>

fun task_label :: "hosting_label \<Rightarrow> nat option" where
  "task_label (HgDue i _ _ _ _) = Some i"
| "task_label (HgRotated i _ _) = Some i"
| "task_label (HgReported i) = Some i"
| "task_label (HgReset i _ _) = Some i"
| "task_label (HgClosed i) = Some i"
| "task_label _ = None"

text \<open>What a step of the task of object \<open>i\<close> may change: that object, and if it is unpublished only its mutex.\<close>

definition only_object :: "nat \<Rightarrow> bool \<Rightarrow> node \<Rightarrow> node \<Rightarrow> bool" where
  "only_object i live n n' \<longleftrightarrow> nd_services n' = nd_services n \<and> length (nd_objects n') = length (nd_objects n)
     \<and> (\<forall>j < length (nd_objects n). j \<noteq> i \<longrightarrow> nd_objects n' ! j = nd_objects n ! j)
     \<and> (\<not> live \<longrightarrow> (\<forall>j < length (nd_objects n). (nd_objects n' ! j)\<lparr>sv_rotating := False\<rparr> = (nd_objects n ! j)\<lparr>sv_rotating := False\<rparr>))"

lemma only_object_refl [simp]: "only_object i live n n"
  by (simp add: only_object_def)

lemma only_object_begin:
  assumes "node_inv remote n" "task_ok n k"
    and "rotate_begin X (rk_service_id k) (Some (rk_generation k)) False fresh created n = (r, n')"
  shows "only_object (rk_object k) live n n'"
  using assms(3)
proof (cases rule: rotate_begin_cases)
  case (begun pr j)
  have "j = rk_object k" using task_begins_own [OF assms(1,2) assms(3) [unfolded begun(1)]] begun(2) by simp
  with begun(8) show ?thesis by (simp add: only_object_def nth_update_object)
qed simp

lemma only_object_finish:
  assumes "pr_object pr = i" "lookup_service n (pr_service_id pr) = Some i \<Longrightarrow> live"
  shows "only_object i live n (snd (rotate_finish pr n))"
  using assms by (auto simp: only_object_def rotate_finish_alt release_nth nth_update_object)

lemma only_object_failure:
  assumes "\<And>j. lookup_service n sid = Some j \<Longrightarrow> sv_session_generation (nd_objects n ! j) = gen \<Longrightarrow> j = i \<and> live"
  shows "only_object i live n (record_rotation_failure sid gen c d n)"
  using assms by (auto simp: only_object_def record_rotation_failure_def nth_update_object split: option.splits)

lemma after_turn_others:
  "k \<in> set (hg_tasks g) \<Longrightarrow> rk_object k \<noteq> i \<Longrightarrow> k \<in> set (hg_tasks (after_turn i r g))"
  by (cases "(i, r, g)" rule: after_turn.cases) (auto simp: on_rotation_task_def drop_rotation_task_def)

lemma on_task_others: "k \<in> set (hg_tasks g) \<Longrightarrow> rk_object k \<noteq> i \<Longrightarrow> k \<in> set (hg_tasks (on_rotation_task i f g))"
  by (auto simp: on_rotation_task_def)

lemma task_step_home:
  assumes inv: "hosting_inv remote g" and l: "task_label l = Some i" and k: "rotation_task_of g i = Some k"
  shows "only_object i (lookup_service (hg_node g) (rk_service_id k) = Some i) (hg_node g) (hg_node (hosting_step X remote g l))
    \<and> (\<forall>k' \<in> set (hg_tasks g). rk_object k' \<noteq> i \<longrightarrow> k' \<in> set (hg_tasks (hosting_step X remote g l)))"
proof -
  have kk: "k \<in> set (hg_tasks g)" "rk_object k = i" using rotation_task_of_Some [OF k] by auto
  note ok = hosting_inv_parts(3) [OF inv kk(1)] and node = hosting_inv_parts(1) [OF inv]
  note simps = k after_turn_others on_task_others
  show ?thesis
  proof (cases l)
    case (HgDue i' now mt fresh created)
    obtain r n' where run:
      "rotate_begin X (rk_service_id k) (Some (rk_generation k)) False fresh created (hg_node g) = (r, n')" by force
    with only_object_begin [OF node ok run] HgDue l show ?thesis
      by (auto simp: task_due_def simps kk drop_rotation_task_def simp del: rotation_loop.simps split: sum.splits)
  next
    case (HgRotated i' now mt)
    have "only_object i (lookup_service (hg_node g) (rk_service_id k) = Some i) (hg_node g) (snd (rotate_finish pr (hg_node g)))"
      if "rk_pc k = RotRotating pr t u" for pr t u
      by (rule only_object_finish) (use task_ok_pending [OF ok that] kk in auto)
    with HgRotated l show ?thesis
      by (auto simp: task_rotated_def simps simp del: rotation_loop.simps split: rotation_pc.splits prod.splits)
  next
    case (HgReported i')
    have "j = i \<and> lookup_service (hg_node g) (rk_service_id k) = Some i"
      if "lookup_service (hg_node g) (rk_service_id k) = Some j" "sv_session_generation (nd_objects (hg_node g) ! j) = rk_generation k" for j
      using generation_unique [OF node, of j i] lookup_bound [OF node that(1)] task_ok_fields [OF ok] that kk(2) by auto
    from only_object_failure [OF this] HgReported l show ?thesis
      by (auto simp: task_reported_def simps split: rotation_pc.splits)
  qed (use l in \<open>auto simp: task_reset_def task_closed_def Let_def simps simp del: rotation_loop.simps\<close>)
qed

text \<open>
  C18. A rotation task cannot touch what is not its own: no step of it changes another service, the
  registry or another task. Once its service is unpublished, even if the same id was published
  again, it changes nothing of the old service but releases the mutex it may hold, and when it
  is next due it ends without a trace.
\<close>

theorem rotation_tasks_stay_home:
  assumes "hosting_start g0" and "g = run_steps (hosting_step X remote) g0 ls"
    and "rotation_task_of g i = Some k" and "task_label l = Some i" and "g' = hosting_step X remote g l"
  shows "nd_services (hg_node g') = nd_services (hg_node g)
    \<and> (\<forall>j < length (nd_objects (hg_node g)). j \<noteq> i \<longrightarrow> nd_objects (hg_node g') ! j = nd_objects (hg_node g) ! j)
    \<and> (\<forall>k' \<in> set (hg_tasks g). rk_object k' \<noteq> i \<longrightarrow> k' \<in> set (hg_tasks g'))
    \<and> (lookup_service (hg_node g) (rk_service_id k) \<noteq> Some i \<longrightarrow>
         (nd_objects (hg_node g') ! i)\<lparr>sv_rotating := False\<rparr> = (nd_objects (hg_node g) ! i)\<lparr>sv_rotating := False\<rparr>
         \<and> (rk_pc k = RotWaiting \<and> should_rotate (rk_schedule k) now mt \<longrightarrow>
              hosting_step X remote g (HgDue i now mt fresh created) = drop_rotation_task i g))"
proof -
  have inv: "hosting_inv remote g" unfolding assms(2) by (rule hosting_sys.inv_reachable [OF assms(1)])
  have kk: "k \<in> set (hg_tasks g)" "rk_object k = i" using rotation_task_of_Some [OF assms(3)] by auto
  note ok = hosting_inv_parts(3) [OF inv kk(1)] and node = hosting_inv_parts(1) [OF inv]
  have i: "i < length (nd_objects (hg_node g))" using task_ok_fields [OF ok] kk(2) by simp
  have refused: "rotate_begin X (rk_service_id k) (Some (rk_generation k)) False fresh created (hg_node g)
      = (Inl ServiceNotFound, hg_node g)" if gone: "lookup_service (hg_node g) (rk_service_id k) \<noteq> Some i"
  proof (cases "lookup_service (hg_node g) (rk_service_id k)")
    case (Some j)
    with gone have "sv_session_generation (nd_objects (hg_node g) ! j) \<noteq> rk_generation k"
      using generation_unique [OF node, of j i] lookup_bound [OF node Some] task_ok_fields [OF ok] kk(2) by auto
    with Some show ?thesis by (simp add: rotate_begin_def)
  qed (simp add: rotate_begin_def)
  have "hosting_step X remote g (HgDue i now mt fresh created) = drop_rotation_task i g"
    if "lookup_service (hg_node g) (rk_service_id k) \<noteq> Some i" "rk_pc k = RotWaiting" "should_rotate (rk_schedule k) now mt"
    using refused [OF that(1)] that assms(3) by (simp add: task_due_def)
  with task_step_home [OF inv assms(4,3)] i show ?thesis by (simp add: assms(5) only_object_def)
qed

section \<open>A concrete Node that rotates every hour\<close>

definition hourly_options :: hosted_service_options where
  "hourly_options = demo_options\<lparr>so_token_refresh := PolicyAfter (from_secs 3600)\<rparr>"

definition hourly_schedule :: rotation_schedule where
  "hourly_schedule = schedule_new (from_secs 3600) (int (from_secs 3600)) (int (from_secs 3600))"

definition hourly_task :: rotation_task where
  "hourly_task = \<lparr>rk_service_id = service_filled 1, rk_generation = 1, rk_object = 0, rk_schedule = hourly_schedule,
     rk_seen = 0, rk_pc = RotWaiting\<rparr>"

definition hourly_labels :: "hosting_label list" where
  "hourly_labels = [HgPublish hourly_options (token_filled 2) 0 0]"

definition hourly :: hosting where
  "hourly = run_steps (hosting_step host_ref_crates demo_remote) (hosting_new demo_bound) hourly_labels"

lemma hourly_start: "hosting_start (hosting_new demo_bound)"
  using demo_start by (auto simp: hosting_start_def)

lemma hourly_state:
  "hg_tasks hourly = [hourly_task]" "hg_alive hourly" "nd_relay_url (hg_node hourly) = None"
  "lookup_service (hg_node hourly) (service_filled 1) = Some 0" "length (nd_objects (hg_node hourly)) = 1"
  "\<not> sv_rotating (nd_objects (hg_node hourly) ! 0)" "\<exists>st. service_status (nd_objects (hg_node hourly) ! 0) = Some st"
  "sv_token_refresh (nd_objects (hg_node hourly) ! 0) = Some (from_secs 3600)"
proof -
  define r where "r = \<lparr>rt_state = token_state_new (token_filled 2) 0, rt_refresh = Some (from_secs 3600),
     rt_deadline = Some (int (from_secs 3600)), rt_deadline_monotonic = Some (int (from_secs 3600))\<rparr>"
  have res: "resolve_token_state (PolicyAfter (from_secs 3600)) None (token_filled 2) 0 0 = Inr r"
    by (simp add: resolve_token_state_def Let_def token_state_generate_def token_state_new_def time_checked_add_def
        duration_since_def time_max_def from_secs_def nanos_per_sec_def r_def)
  obtain s where s: "expose_secret_uri host_ref_crates (node_join_uri_value demo_bound (service_filled 1) (token_filled 2)) = Inr s"
    using demo_exposes [of demo_bound] by (auto simp: demo_bound_def)
  define n where "n = demo_bound\<lparr>nd_session_next := 2, nd_objects := [new_service hourly_options r 1],
      nd_services := [(service_filled 1, 0)]\<rparr>"
  have start: "start_service host_ref_crates hourly_options (token_filled 2) 0 0 demo_bound = (Inr (service_filled 1), n)"
    using res s by (simp add: start_service_def hourly_options_def demo_options_def validate_target_def n_def
        demo_bound_def lookup_service_def checked_inc_def r_def token_state_new_def)
  have eq: "hourly = \<lparr>hg_node = n, hg_tasks = [hourly_task], hg_alive = True\<rparr>"
    using start res by (simp add: hourly_def hourly_labels_def hosting_new_def publish_service_def)
      (simp add: hourly_options_def demo_options_def spawned_task_def hourly_task_def hourly_schedule_def demo_bound_def r_def)
  show "hg_tasks hourly = [hourly_task]" "hg_alive hourly" "nd_relay_url (hg_node hourly) = None"
    "lookup_service (hg_node hourly) (service_filled 1) = Some 0" "length (nd_objects (hg_node hourly)) = 1"
    "\<not> sv_rotating (nd_objects (hg_node hourly) ! 0)" "\<exists>st. service_status (nd_objects (hg_node hourly) ! 0) = Some st"
    "sv_token_refresh (nd_objects (hg_node hourly) ! 0) = Some (from_secs 3600)"
    by (simp_all add: eq n_def lookup_service_def demo_bound_def)
      (simp_all add: service_status_def new_service_def Let_def host_world_new_def host_context_new_def r_def)
qed

theorem rotation_tasks_follow_services_witness:
  "\<exists>k \<in> set (hg_tasks hourly). rk_object k = 0 \<and> rk_service_id k = service_filled 1 \<and> rs_period (rk_schedule k) = from_secs 3600"
proof -
  have "\<forall>l \<in> set hourly_labels. timely (from_secs 3600) l"
    by (simp add: hourly_labels_def hourly_options_def)
  from rotation_tasks_follow_services [OF hourly_start this hourly_def] hourly_state(2,4,8) show ?thesis by blast
qed

lemma hourly_found: "rotation_task_of hourly 0 = Some hourly_task"
  by (simp add: rotation_task_of_def hourly_state(1)) (simp add: hourly_task_def)

lemma hourly_due: "should_rotate (rk_schedule hourly_task) (int (from_secs 3600)) (int (from_secs 3600))"
  by (simp add: hourly_task_def hourly_schedule_def schedule_new_def should_rotate_def)

theorem due_rotation_takes_effect_witness:
  "handle_join_uri (service_filled 1) (hg_node (run_steps (hosting_step host_ref_crates demo_remote) hourly
      [HgDue 0 (int (from_secs 3600)) (int (from_secs 3600)) (token_filled 3) 3600000000001,
       HgRotated 0 3600000000002 3600000000002]))
     = Some (Inr (node_join_uri_value (hg_node hourly) (service_filled 1) (token_filled 3)))"
proof -
  obtain st where st: "service_status (nd_objects (hg_node hourly) ! 0) = Some st" using hourly_state(7) by blast
  have sid: "rk_service_id hourly_task = service_filled 1" "rk_pc hourly_task = RotWaiting"
    "rs_period (rk_schedule hourly_task) = from_secs 3600"
    by (simp_all add: hourly_task_def hourly_schedule_def schedule_new_def)
  have ok: "is_ok (expose_secret_uri host_ref_crates (node_join_uri_value (hg_node hourly) (rk_service_id hourly_task) (token_filled 3)))"
    using demo_exposes [OF hourly_state(3)] by (metis result_simps(1))
  have look: "lookup_service (hg_node hourly) (rk_service_id hourly_task) = Some 0" using hourly_state(4) sid(1) by simp
  show ?thesis
    using due_rotation_takes_effect [OF hourly_start hourly_def hourly_found sid(2) hourly_due hourly_state(2) look
        hourly_state(6) st ok refl _ _ _ refl] sid
    by (simp add: time_max_def from_secs_def nanos_per_sec_def)
qed

theorem rotation_tasks_stay_home_witness:
  "nd_services (hg_node (hosting_step host_ref_crates demo_remote hourly (HgClosed 0))) = nd_services (hg_node hourly)"
  using rotation_tasks_stay_home [OF hourly_start hourly_def hourly_found, of "HgClosed 0"] by simp

end
