(* ===== verification/Node_Objects.thy ===== *)
theory Node_Objects
  imports Node_Properties
begin

text \<open>
  How one service of a Node (\<^verbatim>\<open>core/src/tunnel/iroh/node.rs\<close>) can change: a step relation on service
  objects whose moves are the effects that the tasks and operations of the Node have on them.
  Every step of the Node moves each object along it, apart from the write at the end of a
  rotation, so what a service keeps is proved on the moves instead of on the Node.
\<close>

section \<open>The moves of one object\<close>

definition rotation_failed :: "error_category \<Rightarrow> duration \<Rightarrow> host_world \<Rightarrow> host_world" where
  "rotation_failed cat retry_in w =
     (let w1 = on_status (set_error cat) w
      in w1\<lparr>hw_events := emit_event (hw_events w1) (TokenRotationFailed retry_in)\<rparr>)"

inductive object_move :: "crates \<Rightarrow> (conn_id \<Rightarrow> endpoint_id) \<Rightarrow> hosted_service \<Rightarrow> hosted_service \<Rightarrow> bool"
  for X remote where
  move_admit: "host_look X remote c (sv_world sv) = Some w \<Longrightarrow> object_move X remote sv (on_world (\<lambda>_. w) sv)"
| move_full: "object_move X remote sv (on_world (host_reject_full X remote c) sv)"
| move_task: "service_label l \<Longrightarrow> object_move X remote sv (on_world (\<lambda>w. host_step X remote w l) sv)"
| move_stop: "object_move X remote sv (stop_object net reason sv)"
| move_rotating: "object_move X remote sv (sv\<lparr>sv_rotating := b\<rparr>)"
| move_failure: "object_move X remote sv (on_world (rotation_failed cat d) sv)"

lemmas object_moves = object_move.intros

text \<open>A reflexive and transitive relation that every move is in holds along all of them.\<close>

lemma moves_rel:
  assumes "(object_move X remote)\<^sup>*\<^sup>* a b" and "\<And>sv sv'. object_move X remote sv sv' \<Longrightarrow> R sv sv'"
    and "\<And>sv. R sv sv" "\<And>a b c. R a b \<Longrightarrow> R b c \<Longrightarrow> R a c"
  shows "R a b"
  using assms(1) by (induction rule: rtranclp_induct) (use assms(2-) in blast)+

section \<open>Every step of a Node moves its objects\<close>

definition related :: "(hosted_service \<Rightarrow> hosted_service \<Rightarrow> bool) \<Rightarrow> node \<Rightarrow> node \<Rightarrow> bool" where
  "related R n n' \<longleftrightarrow>
     (\<forall>i < length (nd_objects n). i < length (nd_objects n') \<and> R (nd_objects n ! i) (nd_objects n' ! i))"

lemma related_mono: "related R n n' \<Longrightarrow> (\<And>a b. R a b \<Longrightarrow> S a b) \<Longrightarrow> related S n n'"
  by (simp add: related_def)

lemma related_trans:
  "related R a b \<Longrightarrow> related R b c \<Longrightarrow> (\<And>x y z. R x y \<Longrightarrow> R y z \<Longrightarrow> R x z) \<Longrightarrow> related R a c"
  unfolding related_def by meson

abbreviation moved :: "crates \<Rightarrow> (conn_id \<Rightarrow> endpoint_id) \<Rightarrow> node \<Rightarrow> node \<Rightarrow> bool" where
  "moved X remote \<equiv> related (object_move X remote)\<^sup>*\<^sup>*"

lemma moved_trans: "moved X remote a b \<Longrightarrow> moved X remote b c \<Longrightarrow> moved X remote a c"
  by (rule related_trans) (auto intro: rtranclp_trans)

lemma moved_same: "nd_objects n' = nd_objects n \<Longrightarrow> moved X remote n n'"
  by (simp add: related_def)

lemma moved_fields [simp]:
  "moved X remote n n" "moved X remote n (set_node_task c t n)" "moved X remote n (end_node_task c n)"
  "moved X remote n (close_unauthenticated c n)" "moved X remote n (n\<lparr>nd_services := svs\<rparr>)"
  "moved X remote n (n\<lparr>nd_rotations := rs\<rparr>)" "moved X remote n (n\<lparr>nd_open := b\<rparr>)"
  by (rule moved_same; simp add: set_node_task_def end_node_task_def close_unauthenticated_def)+

lemma moved_end: "moved X remote n m \<Longrightarrow> moved X remote n (end_node_task c m)"
  by (rule moved_trans [OF _ moved_fields(3)])

lemma moved_update_at:
  "(i < length (nd_objects n) \<Longrightarrow> object_move X remote (nd_objects n ! i) (f (nd_objects n ! i)))
     \<Longrightarrow> moved X remote n (update_object i f n)"
  by (auto simp: related_def nth_update_object)

lemma moved_update: "(\<And>sv. object_move X remote sv (f sv)) \<Longrightarrow> moved X remote n (update_object i f n)"
  by (rule moved_update_at)

lemma moved_admit:
  "moved X remote n (admit_first_look X remote c i n)" "moved X remote n (admit_second_look X remote c i n)"
proof -
  show "moved X remote n (admit_first_look X remote c i n)"
    by (auto simp: admit_first_look_def intro!: moved_end moved_update_at intro: move_admit split: option.split)
  have "object_move X remote sv (on_world (\<lambda>w. case host_look X remote c w of Some w' \<Rightarrow> w' | None \<Rightarrow> host_reject_full X remote c w) sv)" for sv
  proof (cases "host_look X remote c (sv_world sv)")
    case None
    with move_full [of X remote sv c] show ?thesis by (simp add: on_world_def)
  next
    case (Some w)
    with move_admit [OF Some] show ?thesis by (simp add: on_world_def)
  qed
  then show "moved X remote n (admit_second_look X remote c i n)"
    unfolding admit_second_look_def by (intro moved_end moved_update)
qed

lemma moved_release: "moved X remote n (release_rotation pr n)"
  unfolding release_rotation_def by (rule moved_trans [OF moved_fields(6) moved_update]) (rule move_rotating)

lemma moved_begin: "moved X remote n (snd (rotate_begin X sid expected reset fresh now n))"
proof -
  obtain r n' where run: "rotate_begin X sid expected reset fresh now n = (r, n')" by force
  then show ?thesis
  proof (cases rule: rotate_begin_cases)
    case (begun pr i)
    with run show ?thesis by simp (rule moved_trans [OF moved_fields(6) moved_update], rule move_rotating)
  qed (simp add: run)
qed

lemma moved_stop: "moved X remote n (snd (stop_service net sid n))"
  by (auto simp: stop_service_def split: option.split
      intro!: moved_trans [OF moved_fields(5) moved_update] move_stop)

lemma moved_stop_all: "moved X remote n (stop_all net svs n)"
proof (induction svs arbitrary: n)
  case (Cons p svs)
  have "moved X remote n (update_object (snd p) (stop_object net ''node stopped'') n)" by (rule moved_update) (rule move_stop)
  from moved_trans [OF this Cons] show ?case by simp
qed simp

lemma moved_close: "moved X remote n (node_close net n)"
proof -
  have "moved X remote n ((stop_all net (nd_services n) (n\<lparr>nd_services := []\<rparr>))\<lparr>nd_open := False\<rparr>)"
    by (rule moved_trans [OF moved_trans [OF moved_fields(5) moved_stop_all] moved_fields(7)])
  then show ?thesis by (simp add: node_close_def Let_def stop_all_def)
qed

lemma moved_failure: "moved X remote n (record_rotation_failure sid gen cat d n)"
proof -
  have "record_rotation_failure sid gen cat d n = (case lookup_service n sid of
      None \<Rightarrow> n
    | Some i \<Rightarrow> if sv_session_generation (nd_objects n ! i) \<noteq> gen then n
        else update_object i (on_world (rotation_failed cat d)) n)"
    by (simp add: record_rotation_failure_def rotation_failed_def [abs_def] split: option.split)
  then show ?thesis by (auto intro: moved_update move_failure split: option.split)
qed

lemma moved_start: "moved X remote n (snd (start_service X opts fresh now mt n))"
proof -
  obtain r n' where run: "start_service X opts fresh now mt n = (r, n')" by force
  then show ?thesis
    by (cases rule: start_service_cases) (simp_all add: run related_def with_new_service_def nth_append)
qed

lemma moved_step:
  assumes "\<And>pr. l \<noteq> NodeRotateFinish pr"
  shows "moved X remote n (node_step X remote n l)"
proof (cases l)
  case (NodeService i hl)
  then show ?thesis by (auto intro!: moved_update move_task)
next
  case (NodeRequest c accepted)
  then show ?thesis by (auto intro!: moved_end split: sum.splits)
next
  case (NodeResponded c r)
  then show ?thesis by (auto intro!: moved_end moved_admit split: sum.splits option.splits node_task.splits bool.splits)
qed (use assms in \<open>auto intro: moved_start moved_stop moved_begin moved_release moved_close moved_failure moved_admit
    split: option.splits node_task.splits\<close>)

text \<open>The end of a rotation is one write of the service it names.\<close>

definition rotation_written :: "pending_rotation \<Rightarrow> node \<Rightarrow> node" where
  "rotation_written pr n = (if lookup_service n (pr_service_id pr) = Some (pr_object pr)
     then update_object (pr_object pr) (apply_rotation pr) n else n)"

lemma rotate_finish_moved: "moved X remote (rotation_written pr n) (snd (rotate_finish pr n))"
  by (simp add: rotate_finish_alt rotation_written_def moved_release)

lemma moved_related:
  assumes "moved X remote n n'" and "\<And>sv sv'. object_move X remote sv sv' \<Longrightarrow> R sv sv'"
    and "\<And>sv. R sv sv" "\<And>a b c. R a b \<Longrightarrow> R b c \<Longrightarrow> R a c"
  shows "related R n n'"
  using assms(1) by (rule related_mono) (rule moves_rel [where R = R, OF _ assms(2-4)])

text \<open>So a relation that holds along the moves and for that write holds for every step.\<close>

lemma related_step:
  assumes moves: "\<And>sv sv'. object_move X remote sv sv' \<Longrightarrow> R sv sv'" and rotation: "\<And>pr sv. R sv (apply_rotation pr sv)"
    and refl: "\<And>sv. R sv sv" and trans: "\<And>a b c. R a b \<Longrightarrow> R b c \<Longrightarrow> R a c"
  shows "related R n (node_step X remote n l)"
proof -
  have moved: "moved X remote n n' \<Longrightarrow> related R n n'" for n n'
    by (rule moved_related [where R = R, OF _ moves refl trans])
  have "related R n (snd (rotate_finish pr n))" for pr
  proof (rule related_trans [OF _ moved [OF rotate_finish_moved] trans])
    show "related R n (rotation_written pr n)"
      using rotation refl by (auto simp: related_def rotation_written_def nth_update_object)
  qed
  then have "related R n (node_step X remote n (NodeRotateFinish pr))" for pr
    by (simp add: moved)
  moreover have "related R n (node_step X remote n l)" if "\<And>pr. l \<noteq> NodeRotateFinish pr"
    by (rule moved [OF moved_step]) (rule that)
  ultimately show ?thesis by blast
qed

text \<open>The endpoint and the relay never change.\<close>

definition node_identity :: "node \<Rightarrow> endpoint_id \<times> relay_url option" where
  "node_identity n = (nd_endpoint_id n, nd_relay_url n)"

lemma node_identity_fields [simp]:
  "node_identity (update_object i f n) = node_identity n" "node_identity (end_node_task c n) = node_identity n"
  "node_identity (set_node_task c t n) = node_identity n" "node_identity (close_unauthenticated c n) = node_identity n"
  "node_identity (release_rotation pr n) = node_identity n"
  "node_identity (n\<lparr>nd_services := svs\<rparr>) = node_identity n" "node_identity (n\<lparr>nd_rotations := rs\<rparr>) = node_identity n"
  "node_identity (n\<lparr>nd_open := b\<rparr>) = node_identity n" "node_identity (n\<lparr>nd_session_next := g\<rparr>) = node_identity n"
  "node_identity (with_new_service sv n) = node_identity n"
  by (simp_all add: node_identity_def update_object_def end_node_task_def set_node_task_def close_unauthenticated_def
      release_rotation_def with_new_service_def)

lemma node_identity_close [simp]: "node_identity (node_close net n) = node_identity n"
proof -
  have "node_identity (stop_all net svs m) = node_identity m" for svs m by (induction svs arbitrary: m) simp_all
  then show ?thesis by (simp add: node_close_def Let_def flip: stop_all_def)
qed

lemma node_identity_begin [simp]: "node_identity (snd (rotate_begin X sid expected reset fresh now n)) = node_identity n"
proof -
  obtain r n' where run: "rotate_begin X sid expected reset fresh now n = (r, n')" by force
  then show ?thesis by (cases rule: rotate_begin_cases) (simp_all add: run)
qed

lemma node_identity_start [simp]: "node_identity (snd (start_service X opts fresh now mt n)) = node_identity n"
proof -
  obtain r n' where run: "start_service X opts fresh now mt n = (r, n')" by force
  then show ?thesis by (cases rule: start_service_cases) (simp_all add: run)
qed

lemma node_identity_step [simp]: "node_identity (node_step X remote n l) = node_identity n"
  by (cases l)
    (auto simp: stop_service_def rotate_finish_alt record_rotation_failure_def admit_first_look_def admit_second_look_def
      split: option.split node_task.split sum.split bool.split)

lemma node_identity_uri: "node_identity m = node_identity n \<Longrightarrow> node_join_uri_value m = node_join_uri_value n"
  by (simp add: fun_eq_iff node_identity_def node_join_uri_value_def)

end
