(* ===== verification/Status_Watch.thy ===== *)
theory Status_Watch
  imports Rotation_Task Node_Objects
begin

text \<open>
  Status subscriptions of a Node's services (\<^verbatim>\<open>core/src/tunnel/iroh/node.rs\<close>,
  \<^verbatim>\<open>HostedServiceHandle::subscribe_status\<close> and \<^verbatim>\<open>HostedServiceStatusSubscription::recv\<close>): a
  watch channel hands every receiver the latest value and skips the ones in between. What such
  a subscriber can rely on is proved once for any versioned value (\<open>watch_source\<close>) and holds for
  the status of every service in every interleaving of the Node.
\<close>

section \<open>Handles\<close>

definition object_watch :: "nat \<Rightarrow> node \<Rightarrow> hosted_status option" where
  "object_watch i n = (if i < length (nd_objects n) then ct_status (hw_ctx (sv_world (nd_objects n ! i))) else None)"

definition handle_subscribe_status :: "service_id \<Rightarrow> node \<Rightarrow> sculk_node_error + status_subscription" where
  "handle_subscribe_status sid n =
     ok_or ServiceNotFound (Option.bind (lookup_service n sid) (\<lambda>i. map_option status_subscribe (object_watch i n)))"

text \<open>\<^verbatim>\<open>subscribe\<close>: a receiver is named by the service whose events it is given.\<close>

definition handle_subscribe :: "service_id \<Rightarrow> node \<Rightarrow> sculk_node_error + nat" where
  "handle_subscribe sid n = ok_or ServiceNotFound (lookup_service n sid)"

section \<open>Receiving the latest value\<close>

text \<open>\<^verbatim>\<open>recv\<close> over any watch channel; for a hosted status it is \<open>status_recv\<close>.\<close>

definition watch_recv :: "'v \<Rightarrow> nat \<Rightarrow> bool \<Rightarrow> status_subscription \<Rightarrow> 'v option option \<times> status_subscription" where
  "watch_recv val version sender_alive s =
     (if ss_initial_pending s then (Some (Some val), s\<lparr>ss_initial_pending := False\<rparr>)
      else if ss_seen s \<noteq> version then (Some (Some val), s\<lparr>ss_seen := version\<rparr>)
      else if \<not> sender_alive then (Some None, s)
      else (None, s))"

lemma status_recv_watch: "status_recv h alive s = watch_recv (hx_published h) (hx_version h) alive s"
  by (simp add: status_recv_def watch_recv_def)

text \<open>
  The source takes a step, or the subscriber calls \<^verbatim>\<open>recv\<close> (the flag says whether the sender still
  exists); the list collects what it was given.
\<close>

definition watch_step ::
  "('s \<Rightarrow> 'l \<Rightarrow> 's) \<Rightarrow> ('s \<Rightarrow> 'v) \<Rightarrow> ('s \<Rightarrow> nat) \<Rightarrow> 's \<times> status_subscription \<times> 'v list
     \<Rightarrow> 'l + bool \<Rightarrow> 's \<times> status_subscription \<times> 'v list" where
  "watch_step step val version x l =
     (case (x, l) of
        ((s, sub, seen), Inl a) \<Rightarrow> (step s a, sub, seen)
      | ((s, sub, seen), Inr alive) \<Rightarrow>
          (case watch_recv (val s) (version s) alive sub of
             (Some (Some v), sub') \<Rightarrow> (s, sub', seen @ [v])
           | (_, sub') \<Rightarrow> (s, sub', seen)))"

locale watch_source =
  fixes step :: "'s \<Rightarrow> 'l \<Rightarrow> 's"
    and val :: "'s \<Rightarrow> 'v"
    and version :: "'s \<Rightarrow> nat"
    and ok :: "'s \<Rightarrow> bool"
  assumes ok_step: "ok s \<Longrightarrow> ok (step s l)"
    and version_step: "ok s \<Longrightarrow> version s \<le> version (step s l)"
    and value_step: "ok s \<Longrightarrow> version (step s l) = version s \<Longrightarrow> val (step s l) = val s"
begin

definition seen_ok :: "'s \<times> status_subscription \<times> 'v list \<Rightarrow> bool" where
  "seen_ok x \<longleftrightarrow> (case x of (s, sub, seen) \<Rightarrow> ok s \<and> ss_seen sub \<le> version s
     \<and> (seen = [] \<longleftrightarrow> ss_initial_pending sub)
     \<and> (seen \<noteq> [] \<longrightarrow> ss_seen sub = version s \<longrightarrow> last seen = val s))"

lemma watch_step_ok:
  assumes "seen_ok x"
  shows "seen_ok (watch_step step val version x l)"
proof -
  obtain s sub seen where x: "x = (s, sub, seen)" by (cases x)
  show ?thesis
  proof (cases l)
    case (Inl a)
    from assms x have s: "ok s" "ss_seen sub \<le> version s" by (simp_all add: seen_ok_def)
    have "last seen = val (step s a)" if "seen \<noteq> []" "ss_seen sub = version (step s a)"
    proof -
      have same: "version (step s a) = version s" using version_step [OF s(1), of a] s(2) that(2) by linarith
      with assms x that value_step [OF s(1) same] show ?thesis by (simp add: seen_ok_def)
    qed
    with Inl x assms s ok_step [OF s(1), of a] version_step [OF s(1), of a] show ?thesis
      by (auto simp: watch_step_def seen_ok_def)
  next
    case (Inr alive)
    with x assms show ?thesis by (auto simp: watch_step_def watch_recv_def seen_ok_def)
  qed
qed

lemma watch_run_ok: "seen_ok x \<Longrightarrow> seen_ok (run_steps (watch_step step val version) x ls)"
  by (induction ls arbitrary: x) (simp_all add: watch_step_ok)

text \<open>A subscriber that would have to wait has been given the latest value.\<close>

lemma waiting_is_current:
  assumes "seen_ok (s, sub, seen)" "fst (watch_recv (val s) (version s) alive sub) \<in> {None, Some None}"
  shows "seen \<noteq> [] \<and> last seen = val s"
  using assms by (auto simp: seen_ok_def watch_recv_def split: if_splits)

lemma source_runs:
  "fst (run_steps (watch_step step val version) (s, sub, seen) ls)
     = run_steps step s (List.map_filter (\<lambda>l. case l of Inl a \<Rightarrow> Some a | Inr _ \<Rightarrow> None) ls)"
proof (induction ls arbitrary: s sub seen)
  case (Cons l ls)
  obtain s' sub' seen' where w: "watch_step step val version (s, sub, seen) l = (s', sub', seen')"
    by (cases "watch_step step val version (s, sub, seen) l")
  have "s' = (case l of Inl a \<Rightarrow> step s a | Inr _ \<Rightarrow> s)"
    using w by (auto simp: watch_step_def split: sum.splits prod.splits option.splits)
  with Cons w show ?case by (cases l) (simp_all add: List.map_filter_def)
qed (simp add: List.map_filter_def)

end

section \<open>The status of a service is such a source\<close>

text \<open>Later: at least as many changes, and unchanged if there was none.\<close>

fun watch_later :: "hosted_status option \<Rightarrow> hosted_status option \<Rightarrow> bool" where
  "watch_later None y \<longleftrightarrow> y = None"
| "watch_later (Some h) y \<longleftrightarrow> (\<exists>h'. y = Some h' \<and> hx_version h \<le> hx_version h'
     \<and> (hx_version h' = hx_version h \<longrightarrow> h' = h) \<and> (status_synced h \<longrightarrow> status_synced h'))"

lemma watch_later_refl [simp]: "watch_later x x"
  by (cases x) simp_all

lemma watch_later_trans: "watch_later x y \<Longrightarrow> watch_later y z \<Longrightarrow> watch_later x z"
  by (cases x; cases y) (auto dest: le_antisym)

lemma watch_later_update: "watch_later x (map_option (status_update f) x)"
  by (cases x) (simp_all add: status_synced_update, simp add: status_update_def Let_def)

lemmas watch_later_step = watch_later_trans [OF _ watch_later_update]

abbreviation world_watch :: "host_world \<Rightarrow> hosted_status option" where
  "world_watch w \<equiv> ct_status (hw_ctx w)"

lemma watch_ops:
  "watch_later x (map_option (set_phase p) x)" "watch_later x (map_option (set_connection_count c) x)"
  "watch_later x (map_option bridge_started x)" "watch_later x (map_option bridge_dropped x)"
  "watch_later x (map_option (set_error e) x)" "watch_later x (map_option (rotate_uri t d) x)"
  by (simp_all add: status_ops watch_later_update)

lemma watch_admit: "watch_later (world_watch w) (world_watch (admit_registered X remote c r w))"
  by (auto simp: admit_registered_def Let_def watch_ops split: prod.splits option.splits)

lemma watch_look: "host_look X remote c w = Some w' \<Longrightarrow> watch_later (world_watch w) (world_watch w')"
  using watch_admit [of "with_sessions s' w" X remote c r for s' r]
  by (auto simp: host_look_def split: prod.splits option.splits)

lemma watch_conn_closed: "watch_later (world_watch w) (world_watch (host_conn_closed X remote c g r w))"
  by (auto simp: host_conn_closed_def Let_def watch_ops split: prod.splits)

lemma watch_bridge_ended: "watch_later (world_watch w) (world_watch (host_bridge_ended r w))"
  by (auto simp: host_bridge_ended_def watch_ops intro: watch_later_trans [OF watch_ops(5) watch_ops(4)] split: sum.splits)

lemma watch_host_step: "service_label l \<Longrightarrow> watch_later (world_watch w) (world_watch (host_step X remote w l))"
  by (cases l) (auto simp: watch_conn_closed watch_bridge_ended host_target_unavailable_def host_bridge_started_def watch_ops)

lemma watch_stop: "watch_later (world_watch (sv_world sv)) (world_watch (sv_world (stop_object net r sv)))"
proof -
  have "world_watch (drain_conns net r w) = world_watch w" for w by (simp add: drain_conns_def Let_def)
  then show ?thesis
    by (simp add: stop_object_def) (rule watch_later_trans [OF watch_ops(1) watch_ops(1)])
qed

lemma watch_rotation: "watch_later (world_watch (sv_world sv)) (world_watch (sv_world (apply_rotation pr sv)))"
  by (simp add: apply_rotation_def Let_def watch_ops)

lemma watch_move:
  "object_move X remote sv sv' \<Longrightarrow> watch_later (world_watch (sv_world sv)) (world_watch (sv_world sv'))"
  by (cases rule: object_move.cases) (auto simp: watch_stop watch_look host_reject_full_def watch_host_step rotation_failed_def Let_def watch_ops)

text \<open>Nodes: every object that exists keeps a later status.\<close>

definition node_later :: "node \<Rightarrow> node \<Rightarrow> bool" where
  "node_later n n' \<longleftrightarrow> (\<forall>i < length (nd_objects n). i < length (nd_objects n') \<and> watch_later (object_watch i n) (object_watch i n'))"

lemma node_later_related:
  "related (\<lambda>a b. watch_later (world_watch (sv_world a)) (world_watch (sv_world b))) n n' \<Longrightarrow> node_later n n'"
  by (simp add: related_def node_later_def object_watch_def)

lemma node_later_start: "node_later n (snd (start_service X opts fresh now mt n))"
  by (rule node_later_related, rule moved_related [OF moved_start])
    (auto intro: watch_move watch_later_trans)

lemma node_later_step: "node_later n (node_step X remote n l)"
  by (rule node_later_related, rule related_step)
    (auto intro: watch_move watch_rotation watch_later_trans)

text \<open>The status of a service that exists, and that its channel carries it.\<close>

definition watched :: "nat \<Rightarrow> node \<Rightarrow> bool" where
  "watched i n \<longleftrightarrow> i < length (nd_objects n) \<and> (\<exists>h. object_watch i n = Some h \<and> status_synced h)"

lemma watched_later: "node_later n n' \<Longrightarrow> watched i n \<Longrightarrow> watched i n'"
  by (cases "object_watch i n'") (force simp: node_later_def watched_def)+

definition all_watched :: "node \<Rightarrow> bool" where
  "all_watched n \<longleftrightarrow> (\<forall>i < length (nd_objects n). watched i n)"

lemma new_service_watched:
  "\<exists>h. world_watch (sv_world (new_service opts r g)) = Some h \<and> status_synced h"
  by (simp add: new_service_def Let_def host_world_new_def host_context_new_def status_synced_new)

lemma new_objects_watched:
  assumes "all_watched n" "i < length (nd_objects (snd (start_service X opts fresh now mt n)))"
  shows "watched i (snd (start_service X opts fresh now mt n))"
proof (cases "i < length (nd_objects n)")
  case True
  with assms(1) show ?thesis by (auto simp: all_watched_def intro: watched_later [OF node_later_start])
next
  case False
  obtain r n' where run: "start_service X opts fresh now mt n = (r, n')" by force
  then show ?thesis
  proof (cases rule: start_service_cases)
    case (started nxt resolved)
    with run assms(2) False have "i = length (nd_objects n)" by (simp add: with_new_service_def)
    with run started(7) show ?thesis
      using new_service_watched [of opts resolved "nd_session_next n"]
      by (simp add: watched_def object_watch_def with_new_service_def)
  qed (use run assms(2) False in simp_all)
qed

lemma all_watched_step: "all_watched n \<Longrightarrow> all_watched (node_step X remote n l)"
proof (cases "\<exists>opts fresh now mt. l = NodeStart opts fresh now mt")
  case True
  assume "all_watched n"
  with True new_objects_watched show ?thesis by (force simp: all_watched_def)
next
  case False
  assume all: "all_watched n"
  from False have "map object_meta (nd_objects (node_step X remote n l)) = map object_meta (nd_objects n)"
    using step_shrinks [of l n X remote] by (simp add: node_shrinks_def)
  then have "length (nd_objects (node_step X remote n l)) = length (nd_objects n)" by (rule map_eq_imp_length_eq)
  with all watched_later [OF node_later_step] show ?thesis by (simp add: all_watched_def)
qed

interpretation watched_nodes: invariant_system node_start "node_step X remote" all_watched for X remote
proof unfold_locales
  show "node_start n \<Longrightarrow> all_watched n" for n by (auto simp: node_start_def node_bind_def all_watched_def)
qed (rule all_watched_step)

definition status_value :: "nat \<Rightarrow> node \<Rightarrow> hosted_service_status" where
  "status_value i n = hx_published (the (object_watch i n))"

definition status_version :: "nat \<Rightarrow> node \<Rightarrow> nat" where
  "status_version i n = hx_version (the (object_watch i n))"

interpretation node_watch: watch_source "node_step X remote" "status_value i" "status_version i" "watched i" for X remote i
proof unfold_locales
  fix n l
  assume w: "watched i n"
  then show "watched i (node_step X remote n l)" by (rule watched_later [OF node_later_step])
  have "watch_later (object_watch i n) (object_watch i (node_step X remote n l))"
    using w node_later_step [of n X remote l] by (auto simp: node_later_def watched_def)
  with w show "status_version i n \<le> status_version i (node_step X remote n l)"
    "status_version i (node_step X remote n l) = status_version i n \<Longrightarrow>
       status_value i (node_step X remote n l) = status_value i n"
    by (auto simp: watched_def status_version_def status_value_def)
qed

lemma object_identity_step:
  assumes "i < length (nd_objects n)"
  shows "i < length (nd_objects (node_step X remote n l))
    \<and> sv_service_id (nd_objects (node_step X remote n l) ! i) = sv_service_id (nd_objects n ! i)"
proof (cases "\<exists>opts fresh now mt. l = NodeStart opts fresh now mt")
  case True
  then obtain opts fresh now mt where l: "l = NodeStart opts fresh now mt" by blast
  obtain r n' where run: "start_service X opts fresh now mt n = (r, n')" by force
  then show ?thesis
    by (cases rule: start_service_cases) (use assms in \<open>simp_all add: l run with_new_service_def nth_append\<close>)
next
  case False
  then have "node_shrinks n (node_step X remote n l)" by (intro step_shrinks) auto
  from node_shrinks_meta [OF this assms] show ?thesis by (simp add: object_meta_def)
qed

lemma object_identity_run:
  "i < length (nd_objects n) \<Longrightarrow> i < length (nd_objects (run_steps (node_step X remote) n ls))
    \<and> sv_service_id (nd_objects (run_steps (node_step X remote) n ls) ! i) = sv_service_id (nd_objects n ! i)"
  by (induction ls arbitrary: n) (simp_all add: object_identity_step)

lemma unpublished_stopped:
  assumes "node_inv remote n" "i < length (nd_objects n)" "lookup_service n (sv_service_id (nd_objects n ! i)) \<noteq> Some i"
    and "object_watch i n = Some h"
  shows "st_phase (hx_current h) = Stopped"
proof -
  have "world_phase (sv_world (nd_objects n ! i)) = Some Stopped"
    using assms(1-3) by (simp add: node_inv_def phases_ok_def object_live_def)
  with assms(2,4) show ?thesis by (simp add: object_watch_def world_phase_def)
qed

section \<open>Subscribers see the last status\<close>

text \<open>
  C17. Whoever subscribes to the status of a service and keeps receiving ends with the current
  one: the first call returns at once, and whenever a later call has nothing to return, because
  it would wait or because the service is gone for good, the last status it was given is the
  service's current status, whatever happened in between; once the service is unpublished
  that status says so.
\<close>

theorem subscribers_see_the_last_status:
  assumes "node_start n0" and "n = run_steps (node_step X remote) n0 ls"
    and "lookup_service n sid = Some i" and "handle_subscribe_status sid n = Inr sub"
    and "(m, sub', seen) = run_steps (watch_step (node_step X remote) (status_value i) (status_version i)) (n, sub, []) ws"
    and "object_watch i m = Some h"
  shows "fst (status_recv (the (object_watch i n)) alive sub) = Some (Some (status_snapshot (the (object_watch i n))))
    \<and> (fst (status_recv h alive sub') \<in> {None, Some None} \<longrightarrow>
         seen \<noteq> [] \<and> last seen = status_snapshot h
         \<and> (lookup_service m sid \<noteq> Some i \<longrightarrow> st_phase (last seen) = Stopped))"
proof -
  have inv: "node_inv remote n" unfolding assms(2) by (rule node_sys.inv_reachable [OF assms(1)])
  have i: "i < length (nd_objects n)" "sv_service_id (nd_objects n ! i) = sid" using lookup_bound [OF inv assms(3)] by auto
  have "all_watched n" unfolding assms(2) by (rule watched_nodes.inv_reachable [OF assms(1)])
  with i have w: "watched i n" by (simp add: all_watched_def)
  then obtain h0 where h0: "object_watch i n = Some h0" "status_synced h0" by (auto simp: watched_def)
  have sub: "sub = status_subscribe h0" using assms(3,4) h0(1) by (simp add: handle_subscribe_status_def)
  have m: "m = run_steps (node_step X remote) n (List.map_filter (\<lambda>l. case l of Inl a \<Rightarrow> Some a | Inr _ \<Rightarrow> None) ws)"
    using node_watch.source_runs [of X remote i n sub "[]" ws] by (simp add: assms(5) [symmetric])
  have minv: "node_inv remote m" unfolding m by (rule node_sys.inv_run [OF inv])
  have mi: "i < length (nd_objects m)" "sv_service_id (nd_objects m ! i) = sid"
    unfolding m using object_identity_run [OF i(1)] i(2) by simp_all
  have "node_watch.seen_ok i (n, sub, [])"
    using w h0 by (simp add: node_watch.seen_ok_def sub status_subscribe_def status_version_def)
  from node_watch.watch_run_ok [OF this, of X remote ws] have ok: "node_watch.seen_ok i (m, sub', seen)"
    by (simp only: assms(5) [symmetric])
  then have "watched i m" by (simp add: node_watch.seen_ok_def)
  then have h: "hx_published h = hx_current h" "status_value i m = hx_published h" "status_version i m = hx_version h"
    using assms(6) by (simp_all add: watched_def status_synced_def status_value_def status_version_def)
  have "seen \<noteq> [] \<and> last seen = hx_current h" if "fst (status_recv h alive sub') \<in> {None, Some None}"
    using node_watch.waiting_is_current [OF ok, of alive] that h by (simp add: status_recv_watch)
  moreover have "st_phase (hx_current h) = Stopped" if "lookup_service m sid \<noteq> Some i"
    by (rule unpublished_stopped [OF minv mi(1) _ assms(6)]) (simp add: mi(2) that)
  ultimately show ?thesis
    using h0 by (auto simp: sub status_recv_def status_subscribe_def status_snapshot_def status_synced_def)
qed

theorem subscribers_see_the_last_status_witness:
  "\<exists>h. object_watch 0 demo_node = Some h
     \<and> fst (status_recv h True (status_subscribe h)) = Some (Some (status_snapshot h))
     \<and> last [status_value 0 demo_node] = status_snapshot h"
proof -
  obtain h where h: "object_watch 0 demo_node = Some h"
    using demo_state(3,4) by (auto simp: object_watch_def service_status_def)
  have sub: "handle_subscribe_status (service_filled 1) demo_node = Inr (status_subscribe h)"
    using demo_state(1) h by (simp add: handle_subscribe_status_def)
  define sub' where "sub' = (status_subscribe h)\<lparr>ss_initial_pending := False\<rparr>"
  have "(demo_node, sub', [status_value 0 demo_node]) =
      run_steps (watch_step (node_step host_ref_crates demo_remote) (status_value 0) (status_version 0))
        (demo_node, status_subscribe h, []) [Inr True]"
    by (simp add: watch_step_def watch_recv_def status_subscribe_def sub'_def)
  from subscribers_see_the_last_status [OF demo_start demo_node_def demo_state(1) sub this h, of True] h
  show ?thesis by (simp add: sub'_def status_recv_def status_subscribe_def)
qed

end
