(* ===== verification/Service_Shape.thy ===== *)
theory Service_Shape
  imports Status_Watch
begin

text \<open>
  What a published service is, apart from its traffic: its target, id, token, refresh period, and
  the part of its status that only a rotation writes. Every step of the Node keeps it, or replaces
  token, creation time and deadline together; so every service of a Node is well formed, and so
  is every URI and every deadline that the Node hands out.
\<close>

section \<open>The shape of a service\<close>

definition status_shape :: "hosted_status \<Rightarrow> service_id \<times> u64 \<times> system_time \<times> system_time option" where
  "status_shape h = (st_service_id (hx_current h), st_uri_generation (hx_current h),
     st_token_created_at (hx_current h), st_next_rotation_at (hx_current h))"

lemma status_shape_ops [simp]:
  "status_shape (set_phase p h) = status_shape h" "status_shape (set_connection_count c h) = status_shape h"
  "status_shape (bridge_started h) = status_shape h" "status_shape (bridge_dropped h) = status_shape h"
  "status_shape (set_error e h) = status_shape h"
  "status_shape (rotate_uri t d h) = (st_service_id (hx_current h), saturating_inc (st_uri_generation (hx_current h)), t, d)"
  by (simp_all add: status_shape_def)

definition world_shape :: "host_world \<Rightarrow> service_id \<times> (service_id \<times> u64 \<times> system_time \<times> system_time option) option" where
  "world_shape w = (ct_service_id (hw_ctx w), map_option status_shape (world_watch w))"

lemma world_shape_blocks [simp]:
  "world_shape (host_emit e ev w) = world_shape w" "world_shape (host_emit_error k m w) = world_shape w"
  "world_shape (host_close c x r w) = world_shape w" "world_shape (with_sessions s w) = world_shape w"
  "world_shape (push_conn e c w) = world_shape w"
  "world_shape (on_status (set_connection_count cnt) w) = world_shape w"
  "world_shape (on_status (set_error cat) w) = world_shape w"
  "world_shape (on_status bridge_started w) = world_shape w" "world_shape (on_status bridge_dropped w) = world_shape w"
  "world_shape (on_status (set_phase ph) w) = world_shape w"
  "world_shape (w\<lparr>hw_watchers := ws\<rparr>) = world_shape w" "world_shape (w\<lparr>hw_events := ch\<rparr>) = world_shape w"
  by (simp_all add: world_shape_def option.map_comp comp_def)
    (simp_all add: host_emit_def host_emit_error_def host_close_def with_sessions_def push_conn_def on_status_def)

lemma world_shape_admit [simp]: "world_shape (admit_registered X remote c r w) = world_shape w"
  by (auto simp: admit_registered_def Let_def split: prod.splits option.splits)

lemma world_shape_look: "host_look X remote c w = Some w' \<Longrightarrow> world_shape w' = world_shape w"
  by (auto simp: host_look_def split: prod.splits option.splits)

lemma world_shape_step: "service_label l \<Longrightarrow> world_shape (host_step X remote w l) = world_shape w"
  by (cases l)
    (auto simp: host_conn_closed_def Let_def host_target_unavailable_def host_bridge_started_def
      host_bridge_ended_def split: prod.splits sum.splits)

lemma world_shape_drain [simp]: "world_shape (drain_conns net r w) = world_shape w"
  by (simp add: drain_conns_def Let_def world_shape_def)

definition service_shape :: "hosted_service \<Rightarrow> socket_addr \<times> service_id \<times> access_token \<times> duration option
    \<times> service_id \<times> (service_id \<times> u64 \<times> system_time \<times> system_time option) option" where
  "service_shape sv = (sv_target sv, sv_service_id sv, sv_token sv, sv_token_refresh sv, world_shape (sv_world sv))"

lemma service_shape_on_world [simp]:
  "world_shape (f (sv_world sv)) = world_shape (sv_world sv) \<Longrightarrow> service_shape (on_world f sv) = service_shape sv"
  by (simp add: service_shape_def on_world_def)

lemma service_shape_move: "object_move X remote sv sv' \<Longrightarrow> service_shape sv' = service_shape sv"
  by (cases rule: object_move.cases)
    (auto simp: world_shape_look host_reject_full_def world_shape_step rotation_failed_def Let_def stop_object_def,
     simp add: service_shape_def)

lemma moved_shape:
  assumes "moved X remote n n'" "i < length (nd_objects n)"
  shows "i < length (nd_objects n') \<and> service_shape (nd_objects n' ! i) = service_shape (nd_objects n ! i)"
proof -
  have "related (\<lambda>a b. service_shape b = service_shape a) n n'"
    by (rule moved_related [OF assms(1)]) (simp_all add: service_shape_move)
  with assms(2) show ?thesis by (simp add: related_def)
qed

section \<open>Well-formed services\<close>

text \<open>
  The target is local, the URI of the token can be printed, the deadline is one period after the
  token was created, and the status and the context of the sessions carry the service's id.
\<close>

definition service_formed :: "crates \<Rightarrow> node \<Rightarrow> hosted_service \<Rightarrow> bool" where
  "service_formed X n sv \<longleftrightarrow> validate_target (sv_target sv) = Inr () \<and> sv_token_refresh sv \<noteq> Some 0
     \<and> is_ok (expose_secret_uri X (node_join_uri_value n (sv_service_id sv) (sv_token sv)))
     \<and> ct_service_id (hw_ctx (sv_world sv)) = sv_service_id sv
     \<and> (\<exists>h. world_watch (sv_world sv) = Some h \<and> st_service_id (hx_current h) = sv_service_id sv
          \<and> st_uri_generation (hx_current h) \<noteq> 0
          \<and> rotation_deadline (st_token_created_at (hx_current h)) (sv_token_refresh sv) = Inr (st_next_rotation_at (hx_current h)))"

lemma service_formed_cong:
  assumes "service_shape a = service_shape b" "node_identity m = node_identity n"
  shows "service_formed X m a \<longleftrightarrow> service_formed X n b"
  using assms(1) unfolding service_formed_def node_identity_uri [OF assms(2)]
  by (cases "world_watch (sv_world a)"; cases "world_watch (sv_world b)")
    (simp_all add: service_shape_def world_shape_def status_shape_def)

text \<open>A rotation that was begun and will be written.\<close>

definition pending_formed :: "crates \<Rightarrow> node \<Rightarrow> pending_rotation \<Rightarrow> bool" where
  "pending_formed X n pr \<longleftrightarrow> pr_object pr < length (nd_objects n)
     \<and> is_ok (expose_secret_uri X (node_join_uri_value n (sv_service_id (nd_objects n ! pr_object pr)) (pr_token pr)))
     \<and> rotation_deadline (pr_created_at pr) (sv_token_refresh (nd_objects n ! pr_object pr)) = Inr (pr_next_at pr)"

definition services_formed :: "crates \<Rightarrow> node \<Rightarrow> bool" where
  "services_formed X n \<longleftrightarrow> (\<forall>i < length (nd_objects n). service_formed X n (nd_objects n ! i))
     \<and> (\<forall>pr \<in> set (nd_rotations n). pending_formed X n pr)"

lemma pending_formed_cong:
  assumes "pr_object pr < length (nd_objects n)" "pr_object pr < length (nd_objects m)"
    and "service_shape (nd_objects m ! pr_object pr) = service_shape (nd_objects n ! pr_object pr)"
    and "node_identity m = node_identity n"
  shows "pending_formed X m pr \<longleftrightarrow> pending_formed X n pr"
  using assms(1-3) unfolding pending_formed_def node_identity_uri [OF assms(4)] by (simp add: service_shape_def)

text \<open>Moves keep it; what is left is to look at what is new.\<close>

lemma services_formed_moved:
  assumes "services_formed X n" and "moved Y remote n m" "node_identity m = node_identity n"
    and "\<And>i. length (nd_objects n) \<le> i \<Longrightarrow> i < length (nd_objects m) \<Longrightarrow> service_formed X m (nd_objects m ! i)"
    and "\<And>pr. pr \<in> set (nd_rotations m) \<Longrightarrow> pr \<in> set (nd_rotations n) \<or> pending_formed X m pr"
  shows "services_formed X m"
proof -
  note shape = moved_shape [OF assms(2)]
  have "service_formed X m (nd_objects m ! i)" if "i < length (nd_objects m)" for i
    using that assms(1,4) service_formed_cong [OF _ assms(3)] shape by (cases "i < length (nd_objects n)") (auto simp: services_formed_def)
  moreover have "pending_formed X m pr" if "pr \<in> set (nd_rotations m)" for pr
  proof (rule ccontr)
    assume bad: "\<not> pending_formed X m pr"
    with assms(5) [OF that] assms(1) have ok: "pending_formed X n pr" by (auto simp: services_formed_def)
    then have "pr_object pr < length (nd_objects n)" by (simp add: pending_formed_def)
    with pending_formed_cong [OF this _ _ assms(3)] shape bad ok show False by blast
  qed
  ultimately show ?thesis by (simp add: services_formed_def)
qed

lemma services_formed_start:
  assumes "services_formed X n"
  shows "services_formed X (snd (start_service X opts fresh now mt n))"
proof -
  obtain r n' where run: "start_service X opts fresh now mt n = (r, n')" by force
  have "moved X remote n n'" for remote using moved_start [of X remote n opts fresh now mt] by (simp add: run)
  note ok = services_formed_moved [OF assms this]
  show ?thesis unfolding run snd_conv
  proof (rule ok)
    show ident: "node_identity n' = node_identity n" using node_identity_start [of X opts fresh now mt n] by (simp add: run)
    fix i
    assume i: "length (nd_objects n) \<le> i" "i < length (nd_objects n')"
    from run show "service_formed X n' (nd_objects n' ! i)"
    proof (cases rule: start_service_cases)
      case (started nxt resolved)
      have obj: "nd_objects n' ! i = new_service opts resolved (nd_session_next n)"
        using i started(7) by (auto simp: with_new_service_def nth_append)
      have "rotation_deadline (ts_created_at (rt_state resolved)) (rt_refresh resolved) = Inr (rt_deadline resolved)"
        "rt_refresh resolved \<noteq> Some 0"
        using started(5) by (auto simp: resolve_token_state_def rotation_deadline_def Let_def token_state_generate_def
            token_state_new_def and_then_def map_err_def ok_or_def
            split: token_refresh_policy.splits sum.splits option.splits if_splits)
      with started(4,6) show ?thesis
        unfolding service_formed_def node_identity_uri [OF ident] obj
        by (simp add: new_service_def Let_def host_world_new_def host_context_new_def hosted_status_new_def)
    qed (use i in simp_all)
  next
    show "pr \<in> set (nd_rotations n) \<or> pending_formed X n' pr" if "pr \<in> set (nd_rotations n')" for pr
      using run that by (cases rule: start_service_cases) (simp_all add: with_new_service_def)
  qed
qed

lemma services_formed_begin:
  assumes "services_formed X n" "node_inv remote n"
  shows "services_formed X (snd (rotate_begin X sid expected reset fresh now n))"
proof -
  obtain r n' where run: "rotate_begin X sid expected reset fresh now n = (r, n')" by force
  have m: "moved X remote n n'" using moved_begin [of X remote n sid expected reset fresh now] by (simp add: run)
  have ident: "node_identity n' = node_identity n"
    using node_identity_begin [of X sid expected reset fresh now n] by (simp add: run)
  show ?thesis unfolding run snd_conv
  proof (rule services_formed_moved [OF assms(1) m ident])
    show "service_formed X n' (nd_objects n' ! i)" if "length (nd_objects n) \<le> i" "i < length (nd_objects n')" for i
      using run that by (cases rule: rotate_begin_cases) simp_all
  next
    fix pr'
    assume pr': "pr' \<in> set (nd_rotations n')"
    from run show "pr' \<in> set (nd_rotations n) \<or> pending_formed X n' pr'"
    proof (cases rule: rotate_begin_cases)
      case (begun pr i)
      have i: "pr_object pr < length (nd_objects n)" using lookup_bound [OF assms(2) begun(2)] begun(3) by simp
      have "pending_formed X n pr" using begun i by (simp add: pending_formed_def)
      with pending_formed_cong [OF i _ _ ident] moved_shape [OF m i] have "pending_formed X n' pr" by blast
      with pr' begun(8) show ?thesis by auto
    qed (use pr' in simp)
  qed
qed

lemma apply_rotation_shape:
  "service_shape (apply_rotation pr sv) = (sv_target sv, sv_service_id sv, pr_token pr, sv_token_refresh sv,
     ct_service_id (hw_ctx (sv_world sv)), map_option (\<lambda>h. (st_service_id (hx_current h),
       saturating_inc (st_uri_generation (hx_current h)), pr_created_at pr, pr_next_at pr)) (world_watch (sv_world sv)))"
  by (simp add: apply_rotation_def Let_def service_shape_def world_shape_def on_status_def option.map_comp comp_def)

lemma services_formed_finish:
  assumes "services_formed X n" "pr \<in> set (nd_rotations n)"
  shows "services_formed X (snd (rotate_finish pr n))"
proof -
  from assms have pr: "pending_formed X n pr" by (simp add: services_formed_def)
  have written: "services_formed X (rotation_written pr n)"
  proof (cases "lookup_service n (pr_service_id pr) = Some (pr_object pr)")
    case True
    define m where "m = update_object (pr_object pr) (apply_rotation pr) n"
    have m: "rotation_written pr n = m" using True by (simp add: rotation_written_def m_def)
    have ident: "node_identity m = node_identity n" by (simp add: m_def)
    have len: "length (nd_objects m) = length (nd_objects n)" by (simp add: m_def)
    have obj: "nd_objects m ! i = (if i = pr_object pr then apply_rotation pr (nd_objects n ! i) else nd_objects n ! i)"
      if "i < length (nd_objects n)" for i using that by (simp add: m_def nth_update_object)
    have "service_formed X m (nd_objects m ! i)" if i: "i < length (nd_objects n)" for i
    proof (cases "i = pr_object pr")
      case True
      from assms(1) i have ok: "service_formed X n (nd_objects n ! i)" by (simp add: services_formed_def)
      with pr True show ?thesis
        unfolding service_formed_def pending_formed_def node_identity_uri [OF ident] obj [OF i]
        by (auto simp: apply_rotation_def Let_def on_status_def saturating_inc_pos)
    next
      case False
      with assms(1) i obj show ?thesis using service_formed_cong [OF refl ident] by (simp add: services_formed_def)
    qed
    moreover have "pending_formed X m pr'" if "pr' \<in> set (nd_rotations m)" for pr'
    proof -
      have ok: "pending_formed X n pr'" using that assms(1) by (simp add: services_formed_def m_def)
      then have "pr_object pr' < length (nd_objects n)" by (simp add: pending_formed_def)
      with ok obj show ?thesis
        unfolding pending_formed_def node_identity_uri [OF ident] len
        by (cases "pr_object pr' = pr_object pr") (simp_all add: apply_rotation_def Let_def)
    qed
    ultimately show ?thesis by (simp add: services_formed_def m len)
  qed (use assms(1) in \<open>simp add: rotation_written_def\<close>)
  show ?thesis
  proof (rule services_formed_moved [OF written rotate_finish_moved])
    show "node_identity (snd (rotate_finish pr n)) = node_identity (rotation_written pr n)"
      by (simp add: rotate_finish_alt rotation_written_def)
  qed (auto simp: rotate_finish_alt rotation_written_def split: if_splits dest: set_remove1_subset [THEN subsetD])
qed

lemma services_formed_step:
  assumes "services_formed X n" "node_inv remote n"
  shows "services_formed X (node_step X remote n l)"
proof (cases "\<exists>opts fresh now mt. l = NodeStart opts fresh now mt")
  case True
  with assms(1) services_formed_start show ?thesis by auto
next
  case no_start: False
  then have "length (nd_objects (node_step X remote n l)) = length (nd_objects n)"
    using step_shrinks [of l n X remote] by (auto simp: node_shrinks_def dest: map_eq_imp_length_eq)
  note rest = services_formed_moved [OF assms(1) moved_step node_identity_step, of l X remote]
  show ?thesis
  proof (cases l)
    case (NodeStart opts fresh now mt)
    with no_start show ?thesis by blast
  next
    case (NodeRotate sid expected reset fresh now)
    with assms services_formed_begin show ?thesis by simp
  next
    case (NodeRotateFinish pr)
    with assms(1) services_formed_finish show ?thesis by simp
  qed (rule rest;
      use \<open>length (nd_objects (node_step X remote n l)) = length (nd_objects n)\<close> in
        \<open>auto dest: set_remove1_subset [THEN subsetD] split: sum.splits option.splits node_task.splits bool.splits\<close>)+
qed

interpretation formed_nodes: invariant_system node_start "node_step X remote" "\<lambda>n. node_inv remote n \<and> services_formed X n"
  for X remote
proof unfold_locales
  show "node_inv remote n \<and> services_formed X n" if "node_start n" for n
    using that node_start_inv [OF that] by (auto simp: node_start_def node_bind_def services_formed_def)
  show "node_inv remote (node_step X remote n l) \<and> services_formed X (node_step X remote n l)"
    if "node_inv remote n \<and> services_formed X n" for n l
    using that node_step_inv services_formed_step by blast
qed

lemma rotation_deadline_Inr:
  "rotation_deadline t r = Inr d \<longleftrightarrow>
     (case r of None \<Rightarrow> d = None | Some p \<Rightarrow> \<exists>t'. d = Some t' \<and> time_checked_add t p = Some t')"
  by (auto simp: rotation_deadline_def split: option.splits)

text \<open>
  C11. Everything a Node publishes is well formed, in every interleaving and also while a service is
  being rotated or stopped: a service forwards to a local, non-zero port; its status carries its
  own id and a positive generation; its next rotation is announced exactly when its policy
  has a period, and then for one period after its current token was created; and the URI of
  the token, and so every URI that a handle answers or a rotation is about to publish, can
  be printed.
\<close>

theorem node_services_well_formed:
  assumes "node_start n0" and "n = run_steps (node_step X remote) n0 ls"
  shows "(\<forall>i < length (nd_objects n). let sv = nd_objects n ! i in
        is_loopback (sa_ip (sv_target sv)) \<and> sa_port (sv_target sv) \<noteq> 0
        \<and> (\<exists>st. service_status sv = Some st \<and> st_service_id st = sv_service_id sv \<and> st_uri_generation st \<noteq> 0
            \<and> (case sv_token_refresh sv of
                 None \<Rightarrow> st_next_rotation_at st = None
               | Some period \<Rightarrow> 0 < period
                   \<and> (\<exists>t. st_next_rotation_at st = Some t \<and> time_checked_add (st_token_created_at st) period = Some t)))
        \<and> is_ok (expose_secret_uri X (node_join_uri_value n (sv_service_id sv) (sv_token sv))))
    \<and> (\<forall>sid uri. handle_join_uri sid n = Some (Inr uri) \<longrightarrow> is_ok (expose_secret_uri X uri))
    \<and> (\<forall>pr \<in> set (nd_rotations n).
         is_ok (expose_secret_uri X (node_join_uri_value n (sv_service_id (nd_objects n ! pr_object pr)) (pr_token pr))))"
proof -
  have "node_inv remote n \<and> services_formed X n" unfolding assms(2) by (rule formed_nodes.inv_reachable [OF assms(1)])
  then have inv: "node_inv remote n" and ok: "services_formed X n" by simp_all
  have sv: "service_formed X n (nd_objects n ! i)" if "i < length (nd_objects n)" for i
    using ok that by (simp add: services_formed_def)
  have "is_ok (expose_secret_uri X uri)" if "handle_join_uri sid n = Some (Inr uri)" for sid uri
    using that sv lookup_bound [OF inv] unfolding handle_join_uri_def Let_def
    by (auto simp: service_formed_def split: option.splits if_splits)
  moreover have "let sv = nd_objects n ! i in
        is_loopback (sa_ip (sv_target sv)) \<and> sa_port (sv_target sv) \<noteq> 0
        \<and> (\<exists>st. service_status sv = Some st \<and> st_service_id st = sv_service_id sv \<and> st_uri_generation st \<noteq> 0
            \<and> (case sv_token_refresh sv of
                 None \<Rightarrow> st_next_rotation_at st = None
               | Some period \<Rightarrow> 0 < period
                   \<and> (\<exists>t. st_next_rotation_at st = Some t \<and> time_checked_add (st_token_created_at st) period = Some t)))
        \<and> is_ok (expose_secret_uri X (node_join_uri_value n (sv_service_id sv) (sv_token sv)))"
    if "i < length (nd_objects n)" for i
  proof -
    from sv [OF that] obtain h where h: "world_watch (sv_world (nd_objects n ! i)) = Some h"
        "st_service_id (hx_current h) = sv_service_id (nd_objects n ! i)" "st_uri_generation (hx_current h) \<noteq> 0"
        "rotation_deadline (st_token_created_at (hx_current h)) (sv_token_refresh (nd_objects n ! i))
          = Inr (st_next_rotation_at (hx_current h))"
      by (auto simp: service_formed_def)
    from sv [OF that] have rest: "is_loopback (sa_ip (sv_target (nd_objects n ! i)))" "sa_port (sv_target (nd_objects n ! i)) \<noteq> 0"
        "sv_token_refresh (nd_objects n ! i) \<noteq> Some 0"
        "is_ok (expose_secret_uri X (node_join_uri_value n (sv_service_id (nd_objects n ! i)) (sv_token (nd_objects n ! i))))"
      by (auto simp: service_formed_def validate_target_def split: if_splits)
    have "service_status (nd_objects n ! i) = Some (hx_current h)" using h(1) by (simp add: service_status_def status_snapshot_def)
    with h(2-4) rest show ?thesis
      by (cases "sv_token_refresh (nd_objects n ! i)") (auto simp: Let_def rotation_deadline_Inr)
  qed
  ultimately show ?thesis using ok by (simp add: services_formed_def pending_formed_def)
qed

theorem node_services_well_formed_witness:
  "is_loopback (sa_ip (sv_target (nd_objects demo_node ! 0)))
   \<and> is_ok (expose_secret_uri host_ref_crates (node_join_uri_value demo_node (service_filled 1) (token_filled 3)))"
proof -
  have obj: "sv_service_id (nd_objects demo_node ! 0) = service_filled 1"
    unfolding demo_state(5) by (simp add: new_service_def Let_def demo_options_def)
  from node_services_well_formed [OF demo_start demo_node_def] demo_state(2,4) show ?thesis
    by (auto simp: Let_def demo_rotation_def obj)
qed

end
