(* ===== verification/Join_Tunnel.thy ===== *)
theory Join_Tunnel
  imports Control_Auth Sculk_Text
begin

text \<open>
  \<^verbatim>\<open>core/src/tunnel/iroh/join.rs\<close>: the first connection with its back-off, the supervisor that
  reconnects, and the loop that accepts local clients. What the network answers is an input; the
  clock is a number of nanoseconds, and a \<^verbatim>\<open>select!\<close> is a step on what was ready.
\<close>

section \<open>Rejections\<close>

fun is_permanent_rejection :: "close_reason \<Rightarrow> bool" where
  "is_permanent_rejection (ApplicationClosed code reason) \<longleftrightarrow>
     is_auth_failure_close (ApplicationClosed code reason) \<or> code = CLOSE_SERVER_FULL"
| "is_permanent_rejection (ConnectionLost _) \<longleftrightarrow> False"

fun is_auth_rejected :: "sculk_error \<Rightarrow> bool" where
  "is_auth_rejected (TunnelErr AuthRejectedByHost) \<longleftrightarrow> True"
| "is_auth_rejected _ \<longleftrightarrow> False"

definition is_permanent_auth_error :: "sculk_error \<Rightarrow> close_reason option \<Rightarrow> bool" where
  "is_permanent_auth_error e closed \<longleftrightarrow>
     is_auth_rejected e \<or> (case closed of None \<Rightarrow> False | Some r \<Rightarrow> is_permanent_rejection r)"

section \<open>The first connection\<close>

text \<open>What dialling and authenticating give at each attempt, and what was done, in order.\<close>

record dial_net =
  dn_connect :: "nat \<Rightarrow> box_error + conn_id"
  dn_auth :: "nat \<Rightarrow> sculk_error + unit"

datatype dial_action = DialRetry u32 duration | DialConnect | DialAuth

definition initial_backoff :: "join_config \<Rightarrow> nat \<Rightarrow> duration" where
  "initial_backoff config attempt =
     min (saturating_mul (jc_base_backoff config) (saturating_pow2 (attempt - 1))) (jc_max_backoff config)"

text \<open>Before attempt \<open>k\<close>: nothing for the first, an event and a sleep for the others.\<close>

definition before_attempt :: "join_config \<Rightarrow> nat \<Rightarrow> dial_action list" where
  "before_attempt config attempt =
     (if attempt > 0 then [DialRetry (of_nat attempt) (initial_backoff config attempt)] else [])"

text \<open>\<^verbatim>\<open>for attempt in 0..=max\<close>, with the last error so far.\<close>

function connect_attempts ::
  "join_config \<Rightarrow> dial_net \<Rightarrow> nat \<Rightarrow> box_error option \<Rightarrow> (sculk_error + conn_id) \<times> dial_action list" where
  "connect_attempts config net attempt last_err =
     (let max = unat (jc_initial_retries config)
      in if attempt > max then
           (case last_err of
              Some e \<Rightarrow> Inl (TunnelErr (ConnectHostEndpoint e))
            | None \<Rightarrow> Inl (TunnelErr (InitialConnectionExhausted (unat (saturating_inc (jc_initial_retries config))))),
            [])
         else
           (case dn_connect net attempt of
              Inr conn \<Rightarrow>
                (case dn_auth net attempt of
                   Inl e \<Rightarrow> Inl e
                 | Inr _ \<Rightarrow> Inr conn,
                 before_attempt config attempt @ [DialConnect, DialAuth])
            | Inl e \<Rightarrow>
                (case connect_attempts config net (Suc attempt) (Some e) of
                   (r, acts) \<Rightarrow> (r, before_attempt config attempt @ [DialConnect] @ acts))))"
  by pat_completeness auto
termination
  by (relation "measure (\<lambda>(config, _, attempt, _). Suc (unat (jc_initial_retries config)) - attempt)") auto

declare connect_attempts.simps [simp del]

definition connect_with_retry :: "join_config \<Rightarrow> dial_net \<Rightarrow> (sculk_error + conn_id) \<times> dial_action list" where
  "connect_with_retry config net = connect_attempts config net 0 None"

text \<open>The events that go to the channel meanwhile.\<close>

fun dial_events :: "dial_action list \<Rightarrow> tunnel_event list" where
  "dial_events [] = []"
| "dial_events (DialRetry k d # as) = Reconnecting k # dial_events as"
| "dial_events (_ # as) = dial_events as"

section \<open>One attempt to reconnect\<close>

datatype reconnect_outcome = ReconnectConnected conn_id | ReconnectRetry | ReconnectRejected string

definition reconnect_once ::
  "box_error + conn_id \<Rightarrow> sculk_error + unit \<Rightarrow> close_reason option \<Rightarrow> reconnect_outcome" where
  "reconnect_once connected auth closed =
     (case connected of
        Inl _ \<Rightarrow> ReconnectRetry
      | Inr conn \<Rightarrow>
          (case auth of
             Inl e \<Rightarrow>
               if is_permanent_auth_error e closed
               then ReconnectRejected (''reconnect rejected: '' @ sculk_error_text e)
               else ReconnectRetry
           | Inr _ \<Rightarrow> ReconnectConnected conn))"

section \<open>The reconnect supervisor\<close>

definition RECONNECT_PROGRESS_INTERVAL :: duration where
  "RECONNECT_PROGRESS_INTERVAL = from_secs 1"

text \<open>
  Where the supervisor is: a connection is up; an attempt is in flight; it waits for the next
  tick after a failed attempt; or it has returned.
\<close>

datatype join_phase = JoinOnline conn_id | JoinTrying | JoinPausing | JoinEnded

text \<open>
  \<open>js_tick\<close> is when \<^verbatim>\<open>progress\<close> fires next, \<open>js_timer\<close> when \<^verbatim>\<open>reconnect_timeout\<close> does, once it has
  been polled; \<open>js_log\<close> is every event handed to \<open>emit_event\<close>, dropped ones included.
\<close>

record join_supervisor =
  js_phase :: join_phase
  js_attempt :: u32
  js_began :: instant
  js_tick :: instant
  js_timer :: "instant option"
  js_conns :: "tracked_connection list"
  js_events :: event_channel
  js_log :: "tunnel_event list"

definition join_emit :: "tunnel_event \<Rightarrow> join_supervisor \<Rightarrow> join_supervisor" where
  "join_emit ev s = s\<lparr>js_events := emit_event (js_events s) ev, js_log := js_log s @ [ev]\<rparr>"

definition join_end :: "join_supervisor \<Rightarrow> join_supervisor" where
  "join_end s = s\<lparr>js_phase := JoinEnded\<rparr>"

text \<open>What the supervisor wakes up for.\<close>

datatype join_wake =
    WakeClosed instant "(close_reason \<times> string) option"
  | WakeShutdown
  | WakePoll instant bool "reconnect_outcome option" net_view bool
  | WakeTimeout instant
  | WakeTick instant

definition advance_reconnect_progress :: "join_supervisor \<Rightarrow> join_supervisor" where
  "advance_reconnect_progress s =
     (let attempt = saturating_inc (js_attempt s)
      in join_emit (Reconnecting attempt) (s\<lparr>js_attempt := attempt\<rparr>))"

definition publish_reconnect_timeout :: "duration option \<Rightarrow> join_supervisor \<Rightarrow> join_supervisor" where
  "publish_reconnect_timeout timeout s =
     join_emit (EventError CatHostUnreachable
       (''reconnect timed out after '' @ show_nat (as_secs (case timeout of None \<Rightarrow> 0 | Some t \<Rightarrow> t)) @ '' seconds'')) s"

text \<open>\<^verbatim>\<open>MissedTickBehavior::Skip\<close>: the next tick is the next multiple of the interval after \<open>now\<close>.\<close>

definition tick_after :: "instant \<Rightarrow> instant \<Rightarrow> instant" where
  "tick_after began now =
     began + ((now - began) div int RECONNECT_PROGRESS_INTERVAL + 1) * int RECONNECT_PROGRESS_INTERVAL"

definition take_tick :: "instant \<Rightarrow> join_supervisor \<Rightarrow> join_supervisor" where
  "take_tick now s = advance_reconnect_progress (s\<lparr>js_tick := tick_after (js_began s) now\<rparr>)"

text \<open>The sleep of the timeout starts when it is first polled.\<close>

definition arm_timer :: "join_config \<Rightarrow> instant \<Rightarrow> join_supervisor \<Rightarrow> join_supervisor" where
  "arm_timer config now s =
     s\<lparr>js_timer := (case jc_reconnect_timeout config of
        None \<Rightarrow> None
      | Some t \<Rightarrow> (case js_timer s of None \<Rightarrow> Some (now + int t) | Some d \<Rightarrow> Some d))\<rparr>"

definition timer_due :: "instant \<Rightarrow> join_supervisor \<Rightarrow> bool" where
  "timer_due now s = (case js_timer s of None \<Rightarrow> False | Some d \<Rightarrow> d \<le> now)"

text \<open>The connection has closed; reconnecting begins unless that is final or switched off.\<close>

definition begin_reconnect :: "instant \<Rightarrow> join_supervisor \<Rightarrow> join_supervisor" where
  "begin_reconnect now s =
     join_emit (Reconnecting 1)
       (s\<lparr>js_phase := JoinTrying, js_attempt := 1, js_began := now,
          js_tick := now + int RECONNECT_PROGRESS_INTERVAL, js_timer := None\<rparr>)"

definition connection_closed ::
  "join_config \<Rightarrow> instant \<Rightarrow> (close_reason \<times> string) option \<Rightarrow> join_supervisor \<Rightarrow> join_supervisor" where
  "connection_closed config now closed s =
     (let permanent = (case closed of None \<Rightarrow> False | Some (r, _) \<Rightarrow> is_permanent_rejection r);
          s1 = (case closed of None \<Rightarrow> s | Some (_, shown) \<Rightarrow> join_emit (Disconnected shown) s)
      in if permanent then join_end s1
         else if jc_reconnect_timeout config = Some 0 then join_end s1
         else begin_reconnect now s1)"

text \<open>A new connection is tracked; the dead ones are dropped.\<close>

definition reconnect_done ::
  "(conn_id \<Rightarrow> endpoint_id) \<Rightarrow> net_view \<Rightarrow> bool \<Rightarrow> conn_id \<Rightarrow> join_supervisor \<Rightarrow> join_supervisor" where
  "reconnect_done remote net poisoned conn s =
     (case lock_mutex poisoned ''join connections'' (js_conns s) of
        Inl e \<Rightarrow> join_end (join_emit (EventError CatInternal (sculk_error_text e)) s)
      | Inr guard \<Rightarrow>
          join_emit Reconnected
            (s\<lparr>js_phase := JoinOnline conn,
               js_conns := filter (tracked_is_alive net) guard @ [\<lparr>tc_remote_id = remote conn, tc_handle = conn\<rparr>]\<rparr>))"

text \<open>
  One step. While an attempt is in flight the select is biased: shutdown, the timeout, the
  outcome, the tick. In the other two waits the branches are taken in any order, so each has its
  own label; a label whose branch is not ready changes nothing.
\<close>

fun join_step :: "join_config \<Rightarrow> (conn_id \<Rightarrow> endpoint_id) \<Rightarrow> join_supervisor \<Rightarrow> join_wake \<Rightarrow> join_supervisor" where
  "join_step config remote s (WakeClosed now closed) =
     (case js_phase s of JoinOnline _ \<Rightarrow> connection_closed config now closed s | _ \<Rightarrow> s)"
| "join_step config remote s WakeShutdown =
     (case js_phase s of JoinOnline _ \<Rightarrow> join_end s | JoinPausing \<Rightarrow> join_end s | _ \<Rightarrow> s)"
| "join_step config remote s (WakePoll now shutdown outcome net poisoned) =
     (if js_phase s \<noteq> JoinTrying then s
      else if shutdown then join_end s
      else
        let s1 = arm_timer config now s
        in if timer_due now s1 then join_end (publish_reconnect_timeout (jc_reconnect_timeout config) s1)
           else case outcome of
             Some (ReconnectConnected conn) \<Rightarrow> reconnect_done remote net poisoned conn s1
           | Some (ReconnectRejected message) \<Rightarrow> join_end (join_emit (EventError CatAuthorizationDenied message) s1)
           | Some ReconnectRetry \<Rightarrow> s1\<lparr>js_phase := JoinPausing\<rparr>
           | None \<Rightarrow> if js_tick s1 \<le> now then take_tick now s1 else s1)"
| "join_step config remote s (WakeTimeout now) =
     (if js_phase s = JoinPausing \<and> timer_due now s
      then join_end (publish_reconnect_timeout (jc_reconnect_timeout config) s) else s)"
| "join_step config remote s (WakeTick now) =
     (if js_phase s = JoinPausing \<and> js_tick s \<le> now
      then (take_tick now s)\<lparr>js_phase := JoinTrying\<rparr> else s)"

text \<open>\<^verbatim>\<open>reconnect_supervisor\<close> when it is spawned.\<close>

definition join_supervisor_new ::
  "tracked_connection list \<Rightarrow> event_channel \<Rightarrow> conn_id \<Rightarrow> join_supervisor" where
  "join_supervisor_new conns ch conn =
     \<lparr>js_phase = JoinOnline conn, js_attempt = 0, js_began = 0, js_tick = 0, js_timer = None,
      js_conns = conns, js_events = ch, js_log = []\<rparr>"

section \<open>Local clients\<close>

text \<open>
  \<^verbatim>\<open>join_accept_loop\<close>: the loop holds a permit while it waits in \<^verbatim>\<open>accept\<close> and gives it to the
  session it starts. Sessions go on when the loop is aborted.
\<close>

datatype local_pc = LocalNeedPermit | LocalAccepting | LocalEnded

record local_sessions =
  ls_max :: nat
  ls_pc :: local_pc
  ls_active :: nat

datatype local_label =
    LocalPermit
  | LocalAccepted "box_error + unit"
  | LocalSessionEnded
  | LocalAborted

definition local_sessions_new :: "nat \<Rightarrow> local_sessions" where
  "local_sessions_new max_sessions = \<lparr>ls_max = max_sessions, ls_pc = LocalNeedPermit, ls_active = 0\<rparr>"

definition permits_held :: "local_sessions \<Rightarrow> nat" where
  "permits_held l = ls_active l + (if ls_pc l = LocalAccepting then 1 else 0)"

fun join_accept_loop :: "local_sessions \<Rightarrow> local_label \<Rightarrow> local_sessions" where
  "join_accept_loop l LocalPermit =
     (if ls_pc l = LocalNeedPermit \<and> permits_held l < ls_max l then l\<lparr>ls_pc := LocalAccepting\<rparr> else l)"
| "join_accept_loop l (LocalAccepted r) =
     (if ls_pc l \<noteq> LocalAccepting then l
      else case r of
        Inl _ \<Rightarrow> l\<lparr>ls_pc := LocalEnded\<rparr>
      | Inr _ \<Rightarrow> l\<lparr>ls_pc := LocalNeedPermit, ls_active := Suc (ls_active l)\<rparr>)"
| "join_accept_loop l LocalSessionEnded = l\<lparr>ls_active := ls_active l - 1\<rparr>"
| "join_accept_loop l LocalAborted = l\<lparr>ls_pc := LocalEnded\<rparr>"

text \<open>The event for a loop that ended by itself.\<close>

definition join_loop_ended :: "box_error \<Rightarrow> tunnel_event" where
  "join_loop_ended e = EventError CatInternal (''join loop ended: '' @ sculk_error_text (TunnelErr (AcceptLocalTcpClient e)))"

section \<open>The first connection: facts\<close>

definition failed_attempt :: "join_config \<Rightarrow> nat \<Rightarrow> dial_action list" where
  "failed_attempt config j = before_attempt config j @ [DialConnect]"

definition attempts_made :: "join_config \<Rightarrow> nat \<Rightarrow> nat \<Rightarrow> dial_action list" where
  "attempts_made config a b = concat (map (failed_attempt config) [a..<b])"

lemma attempts_made_step: "a < b \<Longrightarrow> attempts_made config a b = failed_attempt config a @ attempts_made config (Suc a) b"
  by (simp add: attempts_made_def upt_conv_Cons)

lemma attempts_made_empty [simp]: "attempts_made config a a = []"
  by (simp add: attempts_made_def)

lemma connect_attempts_tried:
  "a \<le> unat (jc_initial_retries config) \<Longrightarrow> connect_attempts config net a l =
     (case dn_connect net a of
        Inr conn \<Rightarrow> (and_then (dn_auth net a) (\<lambda>_. Inr conn), failed_attempt config a @ [DialAuth])
      | Inl e \<Rightarrow> (case connect_attempts config net (Suc a) (Some e) of
          (r, acts) \<Rightarrow> (r, failed_attempt config a @ acts)))"
  by (simp add: connect_attempts.simps [of config net a l] failed_attempt_def Let_def and_then_def
      split: sum.split)

lemma connect_attempts_exhausted:
  "unat (jc_initial_retries config) < a \<Longrightarrow>
     connect_attempts config net a (Some e) = (Inl (TunnelErr (ConnectHostEndpoint e)), [])"
  by (simp add: connect_attempts.simps [of config net a])

lemma connect_attempts_spec:
  assumes "a \<le> unat (jc_initial_retries config)" and "connect_attempts config net a l = (r, acts)"
  shows "(\<exists>k c. a \<le> k \<and> k \<le> unat (jc_initial_retries config) \<and> (\<forall>j. a \<le> j \<and> j < k \<longrightarrow> \<not> is_ok (dn_connect net j))
        \<and> dn_connect net k = Inr c \<and> r = and_then (dn_auth net k) (\<lambda>_. Inr c)
        \<and> acts = attempts_made config a (Suc k) @ [DialAuth])
    \<or> (\<exists>e. (\<forall>j. a \<le> j \<and> j \<le> unat (jc_initial_retries config) \<longrightarrow> \<not> is_ok (dn_connect net j))
        \<and> dn_connect net (unat (jc_initial_retries config)) = Inl e \<and> r = Inl (TunnelErr (ConnectHostEndpoint e))
        \<and> acts = attempts_made config a (Suc (unat (jc_initial_retries config))))"
    (is "?found a r acts \<or> ?failed a r acts")
  using assms
proof (induction "unat (jc_initial_retries config) - a" arbitrary: a l r acts)
  case 0
  then have a: "a = unat (jc_initial_retries config)" by simp
  show ?case
  proof (cases "dn_connect net a")
    case (Inr c)
    then have "?found a r acts"
      using 0(3) a
      by - (rule exI [of _ a], rule exI [of _ c], auto simp: connect_attempts_tried attempts_made_step)
    then show ?thesis ..
  next
    case (Inl e)
    then have "?failed a r acts"
      using 0(3) a
      by (intro exI [of _ e])
        (auto simp: connect_attempts_tried connect_attempts_exhausted attempts_made_step
          le_antisym)
    then show ?thesis ..
  qed
next
  case (Suc n)
  then have a: "a < unat (jc_initial_retries config)" by simp
  show ?case
  proof (cases "dn_connect net a")
    case (Inr c)
    then have "?found a r acts"
      using Suc.prems
      by - (rule exI [of _ a], rule exI [of _ c], auto simp: connect_attempts_tried attempts_made_step)
    then show ?thesis ..
  next
    case (Inl e)
    obtain r' acts' where rest: "connect_attempts config net (Suc a) (Some e) = (r', acts')" by force
    then have eq: "r = r'" "acts = failed_attempt config a @ acts'"
      using Suc.prems Inl a by (auto simp: connect_attempts_tried)
    have bad: "\<not> is_ok (dn_connect net a)" using Inl by simp
    have ext: "(\<forall>j. Suc a \<le> j \<and> P j \<longrightarrow> \<not> is_ok (dn_connect net j)) \<Longrightarrow> (\<forall>j. a \<le> j \<and> P j \<longrightarrow> \<not> is_ok (dn_connect net j))" for P
      using bad by (metis Suc_leI le_eq_less_or_eq)
    have "?found (Suc a) r' acts' \<or> ?failed (Suc a) r' acts'"
      using Suc.hyps(1) [OF _ _ rest] Suc.hyps(2) a by simp
    then show ?thesis
    proof
      assume "?found (Suc a) r' acts'"
      then obtain k c where k: "Suc a \<le> k" "k \<le> unat (jc_initial_retries config)"
        "\<forall>j. Suc a \<le> j \<and> j < k \<longrightarrow> \<not> is_ok (dn_connect net j)" "dn_connect net k = Inr c"
        "r' = and_then (dn_auth net k) (\<lambda>_. Inr c)" "acts' = attempts_made config (Suc a) (Suc k) @ [DialAuth]"
        by blast
      have "?found a r acts"
        using k ext [OF k(3)] by - (rule exI [of _ k], rule exI [of _ c], simp add: eq attempts_made_step)
      then show ?thesis ..
    next
      assume "?failed (Suc a) r' acts'"
      then obtain e' where f: "\<forall>j. Suc a \<le> j \<and> j \<le> unat (jc_initial_retries config) \<longrightarrow> \<not> is_ok (dn_connect net j)"
        "dn_connect net (unat (jc_initial_retries config)) = Inl e'" "r' = Inl (TunnelErr (ConnectHostEndpoint e'))"
        "acts' = attempts_made config (Suc a) (Suc (unat (jc_initial_retries config)))" by blast
      have "?failed a r acts"
        using f ext [OF f(1)] a by (intro exI [of _ e']) (simp add: eq attempts_made_step)
      then show ?thesis ..
    qed
  qed
qed

lemma retry_in_attempts:
  assumes "DialRetry k d \<in> set (attempts_made config a b)"
  shows "\<exists>j. 0 < j \<and> j < b \<and> k = of_nat j \<and> d = initial_backoff config j"
  using assms by (auto simp: attempts_made_def failed_attempt_def before_attempt_def split: if_splits)

lemma dials_in_attempts: "length (filter (\<lambda>x. x = DialConnect) (attempts_made config a b)) = b - a"
proof -
  have one: "length (filter (\<lambda>x. x = DialConnect) (failed_attempt config j)) = 1" for j
    by (simp add: failed_attempt_def before_attempt_def)
  have "length (filter (\<lambda>x. x = DialConnect) (concat (map (failed_attempt config) js))) = length js" for js
    using one by (induction js) simp_all
  from this [of "[a..<b]"] show ?thesis by (simp add: attempts_made_def)
qed

text \<open>The back-off doubles from its base up to its ceiling.\<close>

lemma initial_backoff_mono: "a \<le> b \<Longrightarrow> initial_backoff config a \<le> initial_backoff config b"
  unfolding initial_backoff_def
  by (rule min.mono) (simp_all add: saturating_mul_mono saturating_pow2_mono)

lemma initial_backoff_Suc:
  assumes "k < 32"
  shows "initial_backoff config (Suc k) = min (min (jc_base_backoff config * 2 ^ k) duration_max) (jc_max_backoff config)"
  using assms by (simp add: initial_backoff_def saturating_mul_def saturating_pow2_def)

text \<open>
  The first connection is tried a bounded number of times and only dialling is retried: the
  Join dials until one attempt connects, at most \<open>initial_retries + 1\<close> times, then authenticates
  once, and the outcome of that is final; if no attempt connects, the error is that of the last.
  Every retry is preceded by its event and a back-off that never exceeds the configured maximum.
\<close>

theorem first_connection_bounded:
  assumes "connect_with_retry config net = (r, acts)" and "retries = unat (jc_initial_retries config)"
  shows "(\<exists>k \<le> retries. (\<forall>j < k. \<not> is_ok (dn_connect net j))
        \<and> (case dn_connect net k of
             Inr c \<Rightarrow> r = and_then (dn_auth net k) (\<lambda>_. Inr c)
               \<and> acts = concat (map (\<lambda>j. before_attempt config j @ [DialConnect]) [0..<Suc k]) @ [DialAuth]
           | Inl e \<Rightarrow> k = retries \<and> r = Inl (TunnelErr (ConnectHostEndpoint e))
               \<and> acts = concat (map (\<lambda>j. before_attempt config j @ [DialConnect]) [0..<Suc k])))
    \<and> length (filter (\<lambda>x. x = DialConnect) acts) \<le> retries + 1
    \<and> (\<forall>k d. DialRetry k d \<in> set acts \<longrightarrow> d \<le> jc_max_backoff config \<and> k \<noteq> 0)"
proof -
  have made: "concat (map (\<lambda>j. before_attempt config j @ [DialConnect]) [0..<n]) = attempts_made config 0 n" for n
    by (simp add: attempts_made_def failed_attempt_def [abs_def])
  have "connect_attempts config net 0 None = (r, acts)" using assms(1) by (simp add: connect_with_retry_def)
  from connect_attempts_spec [OF le0 this] obtain k t where
    main: "k \<le> retries" "\<forall>j < k. \<not> is_ok (dn_connect net j)"
      "acts = attempts_made config 0 (Suc k) @ t" "t \<in> {[], [DialAuth]}"
      "case dn_connect net k of Inr c \<Rightarrow> r = and_then (dn_auth net k) (\<lambda>_. Inr c) \<and> t = [DialAuth]
        | Inl e \<Rightarrow> k = retries \<and> r = Inl (TunnelErr (ConnectHostEndpoint e)) \<and> t = []"
    unfolding assms(2)
  proof (elim disjE exE conjE)
    fix k c assume "dn_connect net k = Inr c" "k \<le> unat (jc_initial_retries config)"
      "\<forall>j. 0 \<le> j \<and> j < k \<longrightarrow> \<not> is_ok (dn_connect net j)"
      "r = and_then (dn_auth net k) (\<lambda>_. Inr c)" "acts = attempts_made config 0 (Suc k) @ [DialAuth]"
    then show thesis
      by (intro that [of k "[DialAuth]"]) (auto simp: assms(2) and_then_def split: sum.splits)
  next
    fix e assume "dn_connect net (unat (jc_initial_retries config)) = Inl e"
      "\<forall>j. 0 \<le> j \<and> j \<le> unat (jc_initial_retries config) \<longrightarrow> \<not> is_ok (dn_connect net j)"
      "r = Inl (TunnelErr (ConnectHostEndpoint e))" "acts = attempts_made config 0 (Suc (unat (jc_initial_retries config)))"
    then show thesis by (intro that [of retries "[]"]) (auto simp: assms(2))
  qed
  have "of_nat j \<noteq> (0 :: u32)" if "0 < j" "j < Suc retries" for j
  proof -
    have "j < 2 ^ 32" using that unat_le_max [of "jc_initial_retries config"] by (simp add: assms(2))
    with that show ?thesis by (simp add: word_of_nat_eq_0_iff nat_dvd_not_less)
  qed
  then have "\<forall>k d. DialRetry k d \<in> set acts \<longrightarrow> d \<le> jc_max_backoff config \<and> k \<noteq> 0"
    using main(1,3,4) by (auto dest!: retry_in_attempts simp: initial_backoff_def)
  moreover have "length (filter (\<lambda>x. x = DialConnect) acts) \<le> retries + 1"
    using main(1,3,4) dials_in_attempts [of config 0 "Suc k"] by auto
  moreover have "case dn_connect net k of
      Inr c \<Rightarrow> r = and_then (dn_auth net k) (\<lambda>_. Inr c) \<and> acts = attempts_made config 0 (Suc k) @ [DialAuth]
    | Inl e \<Rightarrow> k = retries \<and> r = Inl (TunnelErr (ConnectHostEndpoint e)) \<and> acts = attempts_made config 0 (Suc k)"
    using main(3,5) by (auto split: sum.splits)
  ultimately show ?thesis using main(1,2) unfolding made by blast
qed

end
