(* ===== verification/Join_Properties.thy ===== *)
theory Join_Properties
  imports Join_Tunnel
begin

text \<open>
  What the reconnect supervisor and the local accept loop of a Join promise: the events form one
  conversation, reconnecting is bounded in time and rate, rejections and shutdown are final, and
  local sessions stay within their limit.
\<close>

section \<open>The conversation of events\<close>

text \<open>What a user who reads every event knows, and which event may come next.\<close>

datatype join_view = ViewUp | ViewLost | ViewTrying u32 | ViewOver

fun join_protocol :: "join_view \<Rightarrow> tunnel_event \<Rightarrow> join_view option" where
  "join_protocol ViewUp (Disconnected _) = Some ViewLost"
| "join_protocol ViewUp (Reconnecting k) = (if k = 1 then Some (ViewTrying 1) else None)"
| "join_protocol ViewLost (Reconnecting k) = (if k = 1 then Some (ViewTrying 1) else None)"
| "join_protocol (ViewTrying k) (Reconnecting j) = (if j = saturating_inc k then Some (ViewTrying j) else None)"
| "join_protocol (ViewTrying _) Reconnected = Some ViewUp"
| "join_protocol (ViewTrying _) (EventError _ _) = Some ViewOver"
| "join_protocol _ _ = None"

fun join_conversation :: "join_view \<Rightarrow> tunnel_event list \<Rightarrow> join_view option" where
  "join_conversation v [] = Some v"
| "join_conversation v (e # es) = Option.bind (join_protocol v e) (\<lambda>v'. join_conversation v' es)"

lemma join_conversation_snoc:
  "join_conversation v (es @ [e]) = Option.bind (join_conversation v es) (\<lambda>v'. join_protocol v' e)"
  by (induction es arbitrary: v) (auto simp: Option.bind_eq_None_conv split: bind_splits)

text \<open>The abstraction of a supervisor that has not returned.\<close>

fun view_of :: "join_supervisor \<Rightarrow> join_view option" where
  "view_of s = (case js_phase s of
     JoinOnline _ \<Rightarrow> Some ViewUp
   | JoinTrying \<Rightarrow> Some (ViewTrying (js_attempt s))
   | JoinPausing \<Rightarrow> Some (ViewTrying (js_attempt s))
   | JoinEnded \<Rightarrow> None)"

definition tracks_current :: "(conn_id \<Rightarrow> endpoint_id) \<Rightarrow> join_supervisor \<Rightarrow> bool" where
  "tracks_current remote s \<longleftrightarrow>
     (\<forall>c. js_phase s = JoinOnline c \<longrightarrow> \<lparr>tc_remote_id = remote c, tc_handle = c\<rparr> \<in> set (js_conns s))"

definition join_inv :: "(conn_id \<Rightarrow> endpoint_id) \<Rightarrow> join_supervisor \<Rightarrow> bool" where
  "join_inv remote s \<longleftrightarrow>
     join_conversation ViewUp (js_log s) \<noteq> None
     \<and> (js_phase s \<noteq> JoinEnded \<longrightarrow> join_conversation ViewUp (js_log s) = view_of s)
     \<and> tracks_current remote s"

lemma join_emit_fields [simp]:
  "js_phase (join_emit ev s) = js_phase s" "js_attempt (join_emit ev s) = js_attempt s"
  "js_conns (join_emit ev s) = js_conns s" "js_log (join_emit ev s) = js_log s @ [ev]"
  "js_began (join_emit ev s) = js_began s" "js_tick (join_emit ev s) = js_tick s" "js_timer (join_emit ev s) = js_timer s"
  by (simp_all add: join_emit_def)

lemma join_end_fields [simp]:
  "js_phase (join_end s) = JoinEnded" "js_log (join_end s) = js_log s" "js_conns (join_end s) = js_conns s"
  by (simp_all add: join_end_def)

lemma arm_timer_fields [simp]:
  "js_phase (arm_timer config now s) = js_phase s" "js_attempt (arm_timer config now s) = js_attempt s"
  "js_conns (arm_timer config now s) = js_conns s" "js_log (arm_timer config now s) = js_log s"
  "js_began (arm_timer config now s) = js_began s" "js_tick (arm_timer config now s) = js_tick s"
  by (simp_all add: arm_timer_def)

lemmas join_blocks = take_tick_def advance_reconnect_progress_def publish_reconnect_timeout_def
  connection_closed_def begin_reconnect_def reconnect_done_def lock_mutex_def Let_def

lemma join_step_inv:
  assumes "join_inv remote s"
  shows "join_inv remote (join_step config remote s w)"
proof (cases w)
  case (WakeClosed now closed)
  with assms show ?thesis
    by (auto simp: join_inv_def join_blocks join_conversation_snoc tracks_current_def split: join_phase.splits option.splits)
next
  case WakeShutdown
  with assms show ?thesis
    by (auto simp: join_inv_def tracks_current_def split: join_phase.splits)
next
  case (WakePoll now shutdown outcome net poisoned)
  with assms show ?thesis
    by (auto simp: join_inv_def join_blocks join_conversation_snoc tracks_current_def
        split: option.splits reconnect_outcome.splits)
next
  case (WakeTimeout now)
  with assms show ?thesis
    by (auto simp: join_inv_def join_blocks join_conversation_snoc tracks_current_def)
next
  case (WakeTick now)
  with assms show ?thesis
    by (auto simp: join_inv_def join_blocks join_conversation_snoc tracks_current_def)
qed

definition join_start :: "(conn_id \<Rightarrow> endpoint_id) \<Rightarrow> join_supervisor \<Rightarrow> bool" where
  "join_start remote s \<longleftrightarrow> (\<exists>conns ch conn. s = join_supervisor_new conns ch conn
     \<and> \<lparr>tc_remote_id = remote conn, tc_handle = conn\<rparr> \<in> set conns)"

interpretation join_sys: invariant_system "join_start remote" "join_step config remote" "join_inv remote" for config remote
proof unfold_locales
  show "join_inv remote s" if "join_start remote s" for s
    using that by (auto simp: join_start_def join_supervisor_new_def join_inv_def tracks_current_def)
  show "join_inv remote (join_step config remote s l)" if "join_inv remote s" for s l
    using that by (rule join_step_inv)
qed


section \<open>Time\<close>

text \<open>Steps with a clock that does not go back: a label from the past is none.\<close>

fun wake_time :: "join_wake \<Rightarrow> instant option" where
  "wake_time (WakeClosed now _) = Some now"
| "wake_time WakeShutdown = None"
| "wake_time (WakePoll now _ _ _ _) = Some now"
| "wake_time (WakeTimeout now) = Some now"
| "wake_time (WakeTick now) = Some now"

fun join_timed ::
  "join_config \<Rightarrow> (conn_id \<Rightarrow> endpoint_id) \<Rightarrow> join_supervisor \<times> instant \<Rightarrow> join_wake \<Rightarrow> join_supervisor \<times> instant" where
  "join_timed config remote (s, clock) w =
     (case wake_time w of
        None \<Rightarrow> (join_step config remote s w, clock)
      | Some now \<Rightarrow> if clock \<le> now then (join_step config remote s w, now) else (s, clock))"

definition reconnecting :: "join_supervisor \<Rightarrow> bool" where
  "reconnecting s \<longleftrightarrow> js_phase s = JoinTrying \<or> js_phase s = JoinPausing"

text \<open>\<open>k\<close> counts the ticks scheduled so far.\<close>

definition paced :: "join_config \<Rightarrow> join_supervisor \<Rightarrow> instant \<Rightarrow> bool" where
  "paced config s clock \<longleftrightarrow> js_began s \<le> clock
     \<and> (\<exists>k. js_tick s = js_began s + k * int RECONNECT_PROGRESS_INTERVAL \<and> int (unat (js_attempt s)) \<le> k
          \<and> (k - 1) * int RECONNECT_PROGRESS_INTERVAL \<le> clock - js_began s)
     \<and> (\<forall>d. js_timer s = Some d \<longrightarrow> (\<exists>t. jc_reconnect_timeout config = Some t \<and> js_began s + int t \<le> d))"

fun paced_inv :: "join_config \<Rightarrow> join_supervisor \<times> instant \<Rightarrow> bool" where
  "paced_inv config (s, clock) \<longleftrightarrow> (reconnecting s \<longrightarrow> paced config s clock)"

lemma paced_later: "paced config s clock \<Longrightarrow> clock \<le> now \<Longrightarrow> paced config s now"
  unfolding paced_def by (meson order_trans diff_right_mono)

lemma paced_cong:
  "\<lbrakk>paced config s clock; js_began s' = js_began s; js_tick s' = js_tick s; js_attempt s' = js_attempt s; js_timer s' = js_timer s\<rbrakk>
     \<Longrightarrow> paced config s' clock"
  by (simp add: paced_def)

lemma paced_arm: "paced config s now \<Longrightarrow> paced config (arm_timer config now s) now"
  by (auto simp: paced_def arm_timer_def split: option.splits)

lemma interval_pos: "0 < int RECONNECT_PROGRESS_INTERVAL"
  by (simp add: RECONNECT_PROGRESS_INTERVAL_def from_secs_def nanos_per_sec_def)

lemma paced_tick:
  assumes "paced config s now" and "js_tick s \<le> now"
  shows "paced config (take_tick now s) now"
proof -
  define I where "I = int RECONNECT_PROGRESS_INTERVAL"
  have I: "0 < I" using interval_pos by (simp add: I_def)
  obtain k where k: "js_tick s = js_began s + k * I" "int (unat (js_attempt s)) \<le> k"
    using assms(1) by (auto simp: paced_def I_def)
  define k' where "k' = (now - js_began s) div I + 1"
  have "k * I \<le> now - js_began s" using assms(2) k(1) by simp
  then have "k * I div I \<le> (now - js_began s) div I" using I by (rule zdiv_mono1)
  then have "k \<le> (now - js_began s) div I" using I by simp
  moreover have "unat (saturating_inc (js_attempt s)) \<le> Suc (unat (js_attempt s))"
    by (simp add: unat_saturating_inc)
  ultimately have att: "int (unat (saturating_inc (js_attempt s))) \<le> k'" using k(2) unfolding k'_def by linarith
  have "(now - js_began s) div I * I \<le> now - js_began s"
    using div_mult_mod_eq [of "now - js_began s" I] pos_mod_sign [OF I, of "now - js_began s"] by linarith
  then have "(k' - 1) * I \<le> now - js_began s" by (simp add: k'_def)
  with att show ?thesis
    using assms(1) unfolding paced_def
    by (auto simp: take_tick_def advance_reconnect_progress_def Let_def tick_after_def k'_def I_def)
qed

lemma paced_begin:
  "paced config (begin_reconnect now s) now"
  by (auto simp: paced_def begin_reconnect_def intro!: exI [of _ 1])

lemma paced_closed: "reconnecting (connection_closed config now closed s) \<Longrightarrow> paced config (connection_closed config now closed s) now"
  by (auto simp: connection_closed_def Let_def reconnecting_def paced_begin split: if_splits)

lemma paced_poll:
  assumes "paced config s now" and "reconnecting (join_step config remote s (WakePoll now sh out net p))"
    and "js_phase s = JoinTrying"
  shows "paced config (join_step config remote s (WakePoll now sh out net p)) now"
proof -
  define s1 where "s1 = arm_timer config now s"
  have s1: "paced config s1 now" unfolding s1_def by (rule paced_arm [OF assms(1)])
  have "paced config (s1\<lparr>js_phase := JoinPausing\<rparr>) now" by (rule paced_cong [OF s1]) simp_all
  with assms(2,3) s1 paced_tick [OF s1] show ?thesis
    by (auto simp: Let_def s1_def [symmetric] reconnecting_def reconnect_done_def lock_mutex_def
        split: if_splits option.splits reconnect_outcome.splits)
qed

lemma join_timed_inv:
  assumes "paced_inv config p"
  shows "paced_inv config (join_timed config remote p w)"
proof -
  obtain s clock where p: "p = (s, clock)" by force
  have inv: "reconnecting s \<Longrightarrow> paced config s clock" using assms by (simp add: p)
  show ?thesis
  proof (cases w)
    case (WakeClosed now closed)
    with inv show ?thesis
      by (auto simp: p reconnecting_def split: join_phase.splits intro: paced_closed [unfolded reconnecting_def] dest: paced_later)
  next
    case WakeShutdown
    with inv show ?thesis by (auto simp: p reconnecting_def split: join_phase.splits)
  next
    case (WakePoll now sh out net q)
    show ?thesis
    proof (cases "js_phase s = JoinTrying \<and> clock \<le> now")
      case True
      then have "paced config s now" using inv by (auto simp: reconnecting_def intro: paced_later)
      with True WakePoll paced_poll show ?thesis by (simp add: p del: join_step.simps)
    next
      case False
      with inv WakePoll show ?thesis by (auto simp: p intro: paced_later)
    qed
  next
    case (WakeTimeout now)
    with inv show ?thesis by (auto simp: p reconnecting_def intro: paced_later)
  next
    case (WakeTick now)
    have "paced config ((take_tick now s)\<lparr>js_phase := JoinTrying\<rparr>) now"
      if "js_phase s = JoinPausing" "js_tick s \<le> now" "clock \<le> now"
      by (rule paced_cong [OF paced_tick [OF paced_later [OF inv that(3)] that(2)]]) (use that in \<open>simp_all add: reconnecting_def\<close>)
    with inv WakeTick show ?thesis by (auto simp: p intro: paced_later)
  qed
qed

definition timed_start :: "(conn_id \<Rightarrow> endpoint_id) \<Rightarrow> join_supervisor \<times> instant \<Rightarrow> bool" where
  "timed_start remote p \<longleftrightarrow> join_start remote (fst p)"

interpretation join_clock: invariant_system "timed_start remote" "join_timed config remote" "paced_inv config" for config remote
proof unfold_locales
  show "paced_inv config p" if "timed_start remote p" for p
    using that by (cases p) (auto simp: timed_start_def join_start_def join_supervisor_new_def reconnecting_def)
  show "paced_inv config (join_timed config remote p w)" if "paced_inv config p" for p w
    using that by (rule join_timed_inv)
qed


text \<open>
  C24. What is final stays final: once the supervisor has returned nothing more happens; a
  connection closed because authentication failed or the server is full is reported lost and
  never dialled again; an attempt the Host rejects ends with one authorization error; and with a
  reconnect timeout of zero no run ever announces a reconnection.
\<close>

theorem rejections_are_final:
  "(js_phase s = JoinEnded \<longrightarrow> run_steps (join_step config remote) s ws = s)
   \<and> (js_phase s = JoinOnline c \<and> is_permanent_rejection r \<longrightarrow>
        run_steps (join_step config remote) s (WakeClosed now (Some (r, shown)) # ws) = join_end (join_emit (Disconnected shown) s))
   \<and> (js_phase s = JoinTrying \<and> \<not> timer_due now (arm_timer config now s)
        \<and> reconnect_once (Inr conn) (Inl (TunnelErr AuthRejectedByHost)) closed = outcome \<longrightarrow>
        (\<exists>message. js_log (run_steps (join_step config remote) s (WakePoll now False (Some outcome) net poisoned # ws))
           = js_log s @ [EventError CatAuthorizationDenied message]))
   \<and> (jc_reconnect_timeout config = Some 0 \<longrightarrow>
        (\<forall>k. Reconnecting k \<notin> set (js_log (run_steps (join_step config remote) (join_supervisor_new conns ch conn) ws))))"
proof (intro conjI impI)
  have ended: "run_steps (join_step config remote) u vs = u" if "js_phase u = JoinEnded" for u vs
  proof (induction vs)
    case (Cons v vs)
    have "join_step config remote u v = u" using that by (cases v) simp_all
    with Cons show ?case by simp
  qed simp
  show "run_steps (join_step config remote) s ws = s" if "js_phase s = JoinEnded" using that by (rule ended)
  show "run_steps (join_step config remote) s (WakeClosed now (Some (r, shown)) # ws) = join_end (join_emit (Disconnected shown) s)"
    if "js_phase s = JoinOnline c \<and> is_permanent_rejection r"
    using that by (simp add: connection_closed_def Let_def ended)
  show "\<exists>message. js_log (run_steps (join_step config remote) s (WakePoll now False (Some outcome) net poisoned # ws))
      = js_log s @ [EventError CatAuthorizationDenied message]"
    if "js_phase s = JoinTrying \<and> \<not> timer_due now (arm_timer config now s)
        \<and> reconnect_once (Inr conn) (Inl (TunnelErr AuthRejectedByHost)) closed = outcome"
    using that by (auto simp: reconnect_once_def is_permanent_auth_error_def Let_def ended)
  show "\<forall>k. Reconnecting k \<notin> set (js_log (run_steps (join_step config remote) (join_supervisor_new conns ch conn) ws))"
    if zero: "jc_reconnect_timeout config = Some 0"
  proof -
    define quiet where "quiet = (\<lambda>u. (\<forall>k. Reconnecting k \<notin> set (js_log u)) \<and> \<not> reconnecting u)"
    have step: "quiet u \<Longrightarrow> quiet (join_step config remote u v)" for u v
      using zero
      by (cases v) (auto simp: quiet_def reconnecting_def connection_closed_def Let_def split: join_phase.splits option.splits)
    have "quiet u \<Longrightarrow> quiet (run_steps (join_step config remote) u vs)" for u vs
      by (induction vs arbitrary: u) (auto intro: step simp del: join_step.simps)
    moreover have "quiet (join_supervisor_new conns ch conn)"
      by (simp add: quiet_def join_supervisor_new_def reconnecting_def)
    ultimately show ?thesis by (simp add: quiet_def)
  qed
qed

section \<open>Local sessions\<close>

interpretation local_sys: invariant_system "\<lambda>l. \<exists>m. l = local_sessions_new m" join_accept_loop
  "\<lambda>l. permits_held l \<le> ls_max l"
proof unfold_locales
  show "permits_held l \<le> ls_max l" if "\<exists>m. l = local_sessions_new m" for l
    using that by (auto simp: local_sessions_new_def permits_held_def)
  show "permits_held (join_accept_loop l w) \<le> ls_max (join_accept_loop l w)" if "permits_held l \<le> ls_max l" for l w
    using that by (cases w) (auto simp: permits_held_def split: sum.splits if_splits)
qed

lemma local_max: "ls_max (run_steps join_accept_loop l ws) = ls_max l"
proof (induction ws arbitrary: l)
  case (Cons w ws)
  have "ls_max (join_accept_loop l w) = ls_max l" by (cases w) (auto split: sum.splits)
  with Cons show ?case by simp
qed simp

text \<open>
  Local forwarding is bounded: whatever clients connect and leave, at most the configured
  number of local sessions of a connection run at once, and a client is only accepted while one
  more is allowed.
\<close>

theorem local_sessions_bounded:
  "ls_active (run_steps join_accept_loop (local_sessions_new m) ws)
     + (if ls_pc (run_steps join_accept_loop (local_sessions_new m) ws) = LocalAccepting then 1 else 0) \<le> m"
proof -
  have "permits_held (run_steps join_accept_loop (local_sessions_new m) ws)
      \<le> ls_max (run_steps join_accept_loop (local_sessions_new m) ws)"
    by (rule local_sys.inv_reachable) blast
  then show ?thesis by (simp add: local_max permits_held_def local_sessions_new_def)
qed

section \<open>A concrete Join\<close>

definition demo_dial :: dial_net where
  "demo_dial = \<lparr>dn_connect = (\<lambda>k. if k = 0 then Inl (BoxOther ''unreachable'') else Inr 7), dn_auth = (\<lambda>_. Inr ())\<rparr>"

lemma demo_dial_run:
  "connect_with_retry join_config_default demo_dial =
     (Inr 7, [DialConnect, DialRetry 1 (from_millis 500), DialConnect, DialAuth])"
  by (simp add: connect_with_retry_def connect_attempts_tried failed_attempt_def before_attempt_def demo_dial_def
      join_config_default_def initial_backoff_def saturating_mul_def saturating_pow2_def from_millis_def from_secs_def
      duration_max_def nanos_per_sec_def)

theorem first_connection_bounded_witness:
  "length (filter (\<lambda>x. x = DialConnect) [DialConnect, DialRetry 1 (from_millis 500), DialConnect, DialAuth])
     \<le> unat (jc_initial_retries join_config_default) + 1"
  using first_connection_bounded [OF demo_dial_run refl] by blast

definition demo_tracked :: "conn_id \<Rightarrow> tracked_connection" where
  "demo_tracked c = \<lparr>tc_remote_id = endpoint_filled (of_nat c), tc_handle = c\<rparr>"

definition demo_supervisor :: join_supervisor where
  "demo_supervisor = join_supervisor_new [demo_tracked 7] (channel_new EVENT_CHANNEL_SIZE) 7"

definition limited :: join_config where
  "limited = join_config_default\<lparr>jc_reconnect_timeout := Some (from_secs 60)\<rparr>"

lemma demo_supervisor_start: "join_start (\<lambda>c. endpoint_filled (of_nat c)) demo_supervisor"
  unfolding join_start_def demo_supervisor_def
  by (intro exI [of _ "[demo_tracked 7]"] exI [of _ "channel_new EVENT_CHANNEL_SIZE"] exI [of _ 7])
    (simp add: demo_tracked_def)

definition lost_and_found :: "join_wake list" where
  "lost_and_found = [WakeClosed 0 (Some (ConnectionLost ''timeout'', ''timeout'')),
     WakePoll 1000000000 False None (\<lambda>_. None) False,
     WakePoll 1500000000 False (Some (ReconnectConnected 8)) (\<lambda>_. None) False]"

definition found_again :: join_supervisor where
  "found_again = run_steps (join_step limited (\<lambda>c. endpoint_filled (of_nat c))) demo_supervisor lost_and_found"

lemma found_again_log:
  "js_log found_again = [Disconnected ''timeout'', Reconnecting 1, Reconnecting 2, Reconnected]"
  "js_phase found_again = JoinOnline 8"
  by (simp_all add: found_again_def lost_and_found_def demo_supervisor_def join_supervisor_new_def join_blocks
      arm_timer_def timer_due_def limited_def RECONNECT_PROGRESS_INTERVAL_def from_secs_def nanos_per_sec_def
      saturating_inc_def)


definition waiting :: "join_supervisor \<times> instant" where
  "waiting = run_steps (join_timed limited (\<lambda>c. endpoint_filled (of_nat c))) (demo_supervisor, 0) (take 2 lost_and_found)"

lemma waiting_state: "js_phase (fst waiting) = JoinTrying" "js_attempt (fst waiting) = 2" "snd waiting = 1000000000"
  "js_began (fst waiting) = 0"
  by (simp_all add: waiting_def lost_and_found_def demo_supervisor_def join_supervisor_new_def join_blocks numeral_2_eq_2
      arm_timer_def timer_due_def limited_def RECONNECT_PROGRESS_INTERVAL_def from_secs_def nanos_per_sec_def
      saturating_inc_def)


theorem rejections_are_final_witness:
  "\<forall>ws. js_log (run_steps (join_step limited (\<lambda>c. endpoint_filled (of_nat c))) demo_supervisor
       (WakeClosed 0 (Some (ApplicationClosed CLOSE_SERVER_FULL ''server full'', ''server full'')) # ws))
     = [Disconnected ''server full'']"
proof
  fix ws
  have "js_phase demo_supervisor = JoinOnline 7" "js_log demo_supervisor = []"
    by (simp_all add: demo_supervisor_def join_supervisor_new_def)
  then show "js_log (run_steps (join_step limited (\<lambda>c. endpoint_filled (of_nat c))) demo_supervisor
       (WakeClosed 0 (Some (ApplicationClosed CLOSE_SERVER_FULL ''server full'', ''server full'')) # ws))
     = [Disconnected ''server full'']"
    using rejections_are_final [of demo_supervisor limited "\<lambda>c. endpoint_filled (of_nat c)" ws 7
        "ApplicationClosed CLOSE_SERVER_FULL ''server full''" 0 "''server full''"]
    by (simp del: join_step.simps)
qed

end
