(* ===== verification/Iroh_Tunnel.thy ===== *)
theory Iroh_Tunnel
  imports Join_Properties Host_Tunnel Join_Uri
begin

text \<open>
  \<^verbatim>\<open>IrohTunnel\<close> (\<^verbatim>\<open>core/src/tunnel/iroh/mod.rs\<close>) and \<^verbatim>\<open>endpoint.rs\<close>: how a single-service Host and a
  Join are put together from the components, which errors the steps have, and closing. Binding an
  endpoint or a listener is an input; what the spawned tasks do from the returned states is in
  \<^theory_text>\<open>Host_Tunnel\<close> and \<^theory_text>\<open>Join_Tunnel\<close>.
\<close>

section \<open>Endpoints\<close>

datatype relay_mode = RelayDefault | RelayCustom relay_url

record endpoint_builder =
  eb_secret_key :: "secret_key option"
  eb_relay_mode :: relay_mode
  eb_alpns :: "string list"

definition build_endpoint :: "secret_key option \<Rightarrow> relay_url option \<Rightarrow> endpoint_builder" where
  "build_endpoint key relay =
     \<lparr>eb_secret_key = key,
      eb_relay_mode = (case relay of None \<Rightarrow> RelayDefault | Some url \<Rightarrow> RelayCustom url), eb_alpns = []\<rparr>"

section \<open>The tunnel\<close>

text \<open>\<open>it_open\<close> is the endpoint, \<open>it_shutdown\<close> the value of the shutdown channel.\<close>

record iroh_tunnel =
  it_endpoint_id :: endpoint_id
  it_open :: bool
  it_created_at :: instant
  it_shutdown :: bool
  it_local_addr :: "socket_addr option"

definition tunnel_new :: "endpoint_id \<Rightarrow> instant \<Rightarrow> socket_addr option \<Rightarrow> iroh_tunnel" where
  "tunnel_new endpoint now addr =
     \<lparr>it_endpoint_id = endpoint, it_open = True, it_created_at = now, it_shutdown = False, it_local_addr = addr\<rparr>"

text \<open>\<^verbatim>\<open>host\<close>: the tunnel, the URI to share, the target of the bridges and the world of the accept loop.\<close>

definition tunnel_host ::
  "(endpoint_builder \<Rightarrow> box_error + endpoint_id) \<Rightarrow> instant \<Rightarrow> u16 \<Rightarrow> secret_key option \<Rightarrow> relay_url option
     \<Rightarrow> service_id \<Rightarrow> access_token \<Rightarrow> host_config \<Rightarrow> sculk_error + iroh_tunnel \<times> join_uri \<times> socket_addr \<times> host_world" where
  "tunnel_host bind now mc_port key relay service token config =
     (let builder = (build_endpoint key relay)\<lparr>eb_alpns := [ALPN]\<rparr>
      in and_then (map_err (\<lambda>e. TunnelErr (BindHostEndpoint e)) (bind builder)) (\<lambda>endpoint.
           Inr (tunnel_new endpoint now None, join_uri_new endpoint service token relay,
                \<lparr>sa_ip = V4 127 0 0 1, sa_port = mc_port\<rparr>,
                host_world_new (host_context_new (hc_event_delay config) service token (hc_max_players config) None))))"

text \<open>The accept loop ended with an error.\<close>

definition host_loop_ended :: "sculk_error \<Rightarrow> tunnel_event" where
  "host_loop_ended e = EventError CatInternal (''host loop ended: '' @ sculk_error_text e)"

text \<open>What \<^verbatim>\<open>join_to\<close> meets: binding, dialling, the lock, and the local listener.\<close>

record join_env =
  je_bind :: "endpoint_builder \<Rightarrow> box_error + endpoint_id"
  je_dial :: dial_net
  je_poisoned :: bool
  je_listen :: "u16 \<Rightarrow> box_error + unit"
  je_local_addr :: "box_error + socket_addr"
  je_now :: instant

text \<open>
  The result, and the channel with the events emitted so far; on success the supervisor is the one
  that is spawned.
\<close>

definition join_to ::
  "join_env \<Rightarrow> (conn_id \<Rightarrow> endpoint_id) \<Rightarrow> join_uri \<Rightarrow> u16 \<Rightarrow> join_config
     \<Rightarrow> (sculk_error + iroh_tunnel \<times> join_supervisor) \<times> event_channel" where
  "join_to env remote uri local_port config =
     (let channel = channel_new EVENT_CHANNEL_SIZE
      in case map_err (\<lambda>e. TunnelErr (BindJoinEndpoint e)) (je_bind env (build_endpoint None (ju_relay_url uri))) of
           Inl e \<Rightarrow> (Inl e, channel)
         | Inr endpoint \<Rightarrow>
             (case connect_with_retry config (je_dial env) of (dialled, acts) \<Rightarrow>
                let channel1 = fold (\<lambda>ev ch. emit_event ch ev) (dial_events acts) channel
                in case dialled of
                     Inl e \<Rightarrow> (Inl e, channel1)
                   | Inr conn \<Rightarrow>
                       (case lock_mutex (je_poisoned env) ''join connections'' [] of
                          Inl e \<Rightarrow> (Inl e, channel1)
                        | Inr conns \<Rightarrow>
                            let conns1 = conns @ [\<lparr>tc_remote_id = remote conn, tc_handle = conn\<rparr>];
                                channel2 = emit_event channel1 Connected
                            in (and_then (map_err (\<lambda>e. TunnelErr (BindLocalListener e)) (je_listen env local_port)) (\<lambda>_.
                                and_then (map_err (\<lambda>e. TunnelErr (BindLocalListener e)) (je_local_addr env)) (\<lambda>addr.
                                  Inr (tunnel_new endpoint (je_now env) (Some addr),
                                       join_supervisor_new conns1 channel2 conn))), channel2))))"

definition tunnel_close :: "iroh_tunnel \<Rightarrow> iroh_tunnel" where
  "tunnel_close t = t\<lparr>it_shutdown := True, it_open := False\<rparr>"

text \<open>Dropping closes too, in the background, if there is a runtime to do it.\<close>

definition tunnel_drop :: "bool \<Rightarrow> iroh_tunnel \<Rightarrow> iroh_tunnel" where
  "tunnel_drop has_runtime t =
     (let t1 = t\<lparr>it_shutdown := True\<rparr>
      in if \<not> it_open t1 then t1 else if has_runtime then t1\<lparr>it_open := False\<rparr> else t1)"

section \<open>How the parts fit\<close>

text \<open>A Host starts in a state from which the properties of \<^theory_text>\<open>Host_Tunnel\<close> hold.\<close>

lemma tunnel_host_starts:
  assumes "tunnel_host bind now mc_port key relay service token config = Inr (t, uri, target, w)"
  shows "host_start w \<and> ct_max_players (hw_ctx w) = hc_max_players config \<and> is_loopback (sa_ip target)
    \<and> ju_service_id uri = service \<and> ju_token uri = token \<and> ju_endpoint_id uri = it_endpoint_id t \<and> ju_relay_url uri = relay"
proof -
  have w: "w = host_world_new (host_context_new (hc_event_delay config) service token (hc_max_players config) None)"
    using assms by (auto simp: tunnel_host_def Let_def and_then_Inr)
  have "host_start w" unfolding host_start_def w by blast
  then show ?thesis
    using assms by (auto simp: tunnel_host_def Let_def and_then_Inr w host_world_new_def host_context_new_def
        tunnel_new_def join_uri_new_def)
qed

text \<open>The events of dialling are the retries, in order.\<close>

lemma dial_events_only_retries: "ev \<in> set (dial_events acts) \<Longrightarrow> \<exists>k. ev = Reconnecting k"
  by (induction acts rule: dial_events.induct) auto

lemma join_to_cases:
  assumes "join_to env remote uri local_port config = (Inr (t, s), ch)"
  obtains endpoint conn acts addr where
    "je_bind env (build_endpoint None (ju_relay_url uri)) = Inr endpoint"
    "connect_with_retry config (je_dial env) = (Inr conn, acts)" "je_local_addr env = Inr addr"
    "t = tunnel_new endpoint (je_now env) (Some addr)"
    "ch = emit_event (fold (\<lambda>ev ch. emit_event ch ev) (dial_events acts) (channel_new EVENT_CHANNEL_SIZE)) Connected"
    "s = join_supervisor_new [\<lparr>tc_remote_id = remote conn, tc_handle = conn\<rparr>] ch conn"
  using assms
  by (auto simp: join_to_def Let_def lock_mutex_def and_then_Inr split: sum.splits prod.splits if_splits)

text \<open>A Join that has been set up starts the supervisor in a start state of its properties.\<close>

lemma join_to_starts:
  assumes "join_to env remote uri local_port config = (Inr (t, s), ch)"
  shows "join_start remote s \<and> js_events s = ch \<and> it_local_addr t \<noteq> None \<and> it_open t"
  using assms
  by (rule join_to_cases) (auto simp: join_start_def tunnel_new_def join_supervisor_new_def)

lemma tunnel_closed [simp]: "\<not> it_open (tunnel_close t)" "it_shutdown (tunnel_close t)"
  "it_local_addr (tunnel_close t) = it_local_addr t"
  by (simp_all add: tunnel_close_def)

lemma drop_after_close: "tunnel_drop has_runtime (tunnel_close t) = tunnel_close t"
  by (simp add: tunnel_drop_def tunnel_close_def Let_def)

end
