(* ===== verification/Tunnel_Service.thy ===== *)
theory Tunnel_Service
  imports Iroh_Tunnel "HOL-Library.Multiset"
begin

text \<open>
  \<^verbatim>\<open>core/src/tunnel/service.rs\<close>: the managed single tunnel. Callers, start tasks, the event task and
  dropped guards run concurrently around one mutex and one watch channel; a step is what one of
  them does between two waits. \<open>tsv_tasks\<close> are the start tasks with what each is waiting for,
  \<open>tsv_stopping\<close> the stops that are closing a tunnel, \<open>tsv_resets\<close> the guards that were dropped.
\<close>

section \<open>States and options\<close>

datatype tunnel_mode = HostMode | JoinMode
datatype tunnel_phase = PhaseIdle | PhaseStarting | PhaseActive | PhaseStopping

record tunnel_state =
  tn_phase :: tunnel_phase
  tn_mode :: "tunnel_mode option"
  tn_join_uri :: "join_uri option"
  tn_local_addr :: "socket_addr option"

definition tunnel_state_idle :: tunnel_state where
  "tunnel_state_idle = \<lparr>tn_phase = PhaseIdle, tn_mode = None, tn_join_uri = None, tn_local_addr = None\<rparr>"

definition tunnel_state_pending :: "tunnel_phase \<Rightarrow> tunnel_mode \<Rightarrow> tunnel_state" where
  "tunnel_state_pending p m = \<lparr>tn_phase = p, tn_mode = Some m, tn_join_uri = None, tn_local_addr = None\<rparr>"

record tunnel_status =
  tu_state :: tunnel_state
  tu_connections :: "connection_snapshot list"
  tu_last_error :: "error_category option"

definition tunnel_status_idle :: tunnel_status where
  "tunnel_status_idle = \<lparr>tu_state = tunnel_state_idle, tu_connections = [], tu_last_error = None\<rparr>"

definition tunnel_status_pending :: "tunnel_phase \<Rightarrow> tunnel_mode \<Rightarrow> tunnel_status" where
  "tunnel_status_pending p m = \<lparr>tu_state = tunnel_state_pending p m, tu_connections = [], tu_last_error = None\<rparr>"

record host_options =
  ho_mc_port :: u16
  ho_secret_key :: "secret_key option"
  ho_relay_url :: "relay_url option"
  ho_service_id :: service_id
  ho_token :: access_token
  ho_config :: host_config

definition host_options_new :: "u16 \<Rightarrow> service_id \<Rightarrow> access_token \<Rightarrow> host_options" where
  "host_options_new port service token =
     \<lparr>ho_mc_port = port, ho_secret_key = None, ho_relay_url = None, ho_service_id = service, ho_token = token,
      ho_config = host_config_default\<rparr>"

datatype local_port = LocalAuto | LocalFixed u16

fun local_port_value :: "local_port \<Rightarrow> u16" where
  "local_port_value LocalAuto = 0"
| "local_port_value (LocalFixed p) = p"

record join_options =
  jo_join_uri :: join_uri
  jo_local_port :: local_port
  jo_config :: join_config

definition join_options_new :: "join_uri \<Rightarrow> join_options" where
  "join_options_new uri = \<lparr>jo_join_uri = uri, jo_local_port = LocalAuto, jo_config = join_config_default\<rparr>"

datatype tunnel_service_error = ServiceBusy | NotRunning | InvalidPort | InvalidMaxPlayers | ServiceTunnel sculk_error

fun service_error_text :: "tunnel_service_error \<Rightarrow> string" where
  "service_error_text ServiceBusy = ''a tunnel is already starting, active, or stopping''"
| "service_error_text NotRunning = ''no tunnel is active''"
| "service_error_text InvalidPort = ''port must be non-zero''"
| "service_error_text InvalidMaxPlayers = ''max players must be greater than zero''"
| "service_error_text (ServiceTunnel e) = sculk_error_text e"

fun service_error_category :: "tunnel_service_error \<Rightarrow> error_category" where
  "service_error_category ServiceBusy = CatOperationConflict"
| "service_error_category NotRunning = CatOperationConflict"
| "service_error_category InvalidPort = CatInvalidConfiguration"
| "service_error_category InvalidMaxPlayers = CatInvalidConfiguration"
| "service_error_category (ServiceTunnel e) = sculk_category e"

definition validate_host_options :: "host_options \<Rightarrow> tunnel_service_error + unit" where
  "validate_host_options opts =
     (if ho_mc_port opts = 0 then Inl InvalidPort
      else if hc_max_players (ho_config opts) = Some 0 then Inl InvalidMaxPlayers
      else Inr ())"

definition validate_join_options :: "join_options \<Rightarrow> tunnel_service_error + unit" where
  "validate_join_options opts = Inr ()"

section \<open>The service\<close>

text \<open>A tunnel is a number; \<open>at_local_addr\<close> is what \<^verbatim>\<open>IrohTunnel::local_addr\<close> returns.\<close>

record active_tunnel =
  at_mode :: tunnel_mode
  at_join_uri :: "join_uri option"
  at_tunnel :: nat
  at_local_addr :: "socket_addr option"

datatype service_state =
    SvcIdle
  | SvcStarting u64 bool
  | SvcActive active_tunnel
  | SvcStopping u64

text \<open>What a start task is waiting for, or about to do.\<close>

datatype start_task =
    TaskDialing
  | TaskReady active_tunnel tunnel_status
  | TaskFailed tunnel_service_error
  | TaskReporting tunnel_service_error
  | TaskWriting tunnel_service_error tunnel_status

text \<open>The event task's own copy of the status.\<close>

record tunnel_service =
  tsv_state :: service_state
  tsv_published :: tunnel_status
  tsv_next :: u64
  tsv_events :: "tunnel_event list"
  tsv_tasks :: "(u64 \<times> tunnel_mode \<times> start_task) list"
  tsv_stopping :: "(u64 \<times> nat) list"
  tsv_resets :: "u64 list"
  tsv_event_task :: "tunnel_status option"
  tsv_closed :: "nat list"
  tsv_tunnel_next :: nat

definition tunnel_service_new :: tunnel_service where
  "tunnel_service_new =
     \<lparr>tsv_state = SvcIdle, tsv_published = tunnel_status_idle, tsv_next = 1, tsv_events = [], tsv_tasks = [],
      tsv_stopping = [], tsv_resets = [], tsv_event_task = None, tsv_closed = [], tsv_tunnel_next = 0\<rparr>"

fun operation_id :: "service_state \<Rightarrow> u64 option" where
  "operation_id (SvcStarting op _) = Some op"
| "operation_id (SvcStopping op) = Some op"
| "operation_id SvcIdle = None"
| "operation_id (SvcActive _) = None"

fun matches_starting :: "service_state \<Rightarrow> u64 \<Rightarrow> bool" where
  "matches_starting (SvcStarting current _) op \<longleftrightarrow> current = op"
| "matches_starting _ op \<longleftrightarrow> False"

definition svc_publish :: "tunnel_status \<Rightarrow> tunnel_service \<Rightarrow> tunnel_service" where
  "svc_publish st s = s\<lparr>tsv_published := st\<rparr>"

definition next_operation_id :: "tunnel_service \<Rightarrow> u64 \<times> tunnel_service" where
  "next_operation_id s = (tsv_next s, s\<lparr>tsv_next := tsv_next s + 1\<rparr>)"

definition reset_operation :: "u64 \<Rightarrow> tunnel_service \<Rightarrow> tunnel_service" where
  "reset_operation op s =
     (if operation_id (tsv_state s) = Some op
      then svc_publish tunnel_status_idle (s\<lparr>tsv_state := SvcIdle\<rparr>) else s)"

definition svc_task :: "tunnel_service \<Rightarrow> u64 \<Rightarrow> (tunnel_mode \<times> start_task) option" where
  "svc_task s op = map_of (tsv_tasks s) op"

definition drop_task :: "u64 \<Rightarrow> tunnel_service \<Rightarrow> tunnel_service" where
  "drop_task op s = s\<lparr>tsv_tasks := AList.delete op (tsv_tasks s)\<rparr>"

definition put_task :: "u64 \<Rightarrow> tunnel_mode \<Rightarrow> start_task \<Rightarrow> tunnel_service \<Rightarrow> tunnel_service" where
  "put_task op m t s = s\<lparr>tsv_tasks := (op, m, t) # AList.delete op (tsv_tasks s)\<rparr>"

definition close_tunnel :: "nat \<Rightarrow> tunnel_service \<Rightarrow> tunnel_service" where
  "close_tunnel t s = s\<lparr>tsv_closed := t # tsv_closed s\<rparr>"

text \<open>A guard that is dropped while armed spawns a reset of its operation.\<close>

definition drop_guard :: "u64 \<Rightarrow> tunnel_service \<Rightarrow> tunnel_service" where
  "drop_guard op s = s\<lparr>tsv_resets := op # tsv_resets s\<rparr>"

section \<open>Starting\<close>

definition begin_start :: "tunnel_mode \<Rightarrow> tunnel_service \<Rightarrow> (tunnel_service_error + u64) \<times> tunnel_service" where
  "begin_start mode s =
     (if tsv_state s \<noteq> SvcIdle then (Inl ServiceBusy, s)
      else case next_operation_id s of
        (op, s1) \<Rightarrow>
          (Inr op, svc_publish (tunnel_status_pending PhaseStarting mode) (s1\<lparr>tsv_state := SvcStarting op False\<rparr>)))"

definition spawn_start :: "tunnel_mode \<Rightarrow> tunnel_service \<Rightarrow> (tunnel_service_error + u64) \<times> tunnel_service" where
  "spawn_start mode s =
     (case begin_start mode s of
        (Inl e, s1) \<Rightarrow> (Inl e, s1)
      | (Inr op, s1) \<Rightarrow> (Inr op, put_task op mode TaskDialing s1))"

text \<open>Up to the spawned task; what is left of the call is \<open>attach_start_task\<close>.\<close>

definition start_host :: "host_options \<Rightarrow> tunnel_service \<Rightarrow> (tunnel_service_error + u64) \<times> tunnel_service" where
  "start_host opts s =
     (case validate_host_options opts of Inl e \<Rightarrow> (Inl e, s) | Inr _ \<Rightarrow> spawn_start HostMode s)"

definition start_join :: "join_options \<Rightarrow> tunnel_service \<Rightarrow> (tunnel_service_error + u64) \<times> tunnel_service" where
  "start_join opts s =
     (case validate_join_options opts of Inl e \<Rightarrow> (Inl e, s) | Inr _ \<Rightarrow> spawn_start JoinMode s)"

text \<open>
  \<^verbatim>\<open>abort\<close> takes effect where a task waits: what it owns is dropped. A task that is reporting an
  error does not wait any more.
\<close>

definition abort_task :: "u64 \<Rightarrow> tunnel_service \<Rightarrow> tunnel_service" where
  "abort_task op s =
     (case svc_task s op of
        None \<Rightarrow> s
      | Some (_, TaskDialing) \<Rightarrow> drop_guard op (drop_task op s)
      | Some (_, TaskReady a _) \<Rightarrow> drop_guard op (close_tunnel (at_tunnel a) (drop_task op s))
      | Some (_, TaskFailed _) \<Rightarrow> drop_guard op (drop_task op s)
      | Some (_, _) \<Rightarrow> s)"

definition attach_start_task :: "u64 \<Rightarrow> tunnel_service \<Rightarrow> tunnel_service" where
  "attach_start_task op s =
     (if matches_starting (tsv_state s) op then s\<lparr>tsv_state := SvcStarting op True\<rparr> else abort_task op s)"

definition active_state :: "active_tunnel \<Rightarrow> tunnel_state" where
  "active_state a = \<lparr>tn_phase = PhaseActive, tn_mode = Some (at_mode a), tn_join_uri = at_join_uri a,
                     tn_local_addr = at_local_addr a\<rparr>"

definition active_status :: "sculk_error + connection_snapshot list \<Rightarrow> active_tunnel \<Rightarrow> sculk_error + tunnel_status" where
  "active_status conns a =
     and_then conns (\<lambda>cs. Inr \<lparr>tu_state = active_state a, tu_connections = cs, tu_last_error = None\<rparr>)"

text \<open>
  \<^verbatim>\<open>complete_host\<close> and \<^verbatim>\<open>complete_join\<close> when the tunnel is up or has failed; with a tunnel they go
  on to the first line of \<^verbatim>\<open>finish_start\<close>, whose \<^verbatim>\<open>?\<close> drops tunnel and guard.
\<close>

definition complete_start ::
  "u64 \<Rightarrow> sculk_error + join_uri option \<times> socket_addr option \<Rightarrow> sculk_error + connection_snapshot list
     \<Rightarrow> tunnel_service \<Rightarrow> tunnel_service" where
  "complete_start op result conns s =
     (case svc_task s op of
        Some (m, TaskDialing) \<Rightarrow>
          (case result of
             Inl e \<Rightarrow> put_task op m (TaskFailed (ServiceTunnel e)) s
           | Inr (uri, addr) \<Rightarrow>
               let a = \<lparr>at_mode = m, at_join_uri = uri, at_tunnel = tsv_tunnel_next s, at_local_addr = addr\<rparr>;
                   s1 = s\<lparr>tsv_tunnel_next := Suc (tsv_tunnel_next s)\<rparr>
               in case active_status conns a of
                    Inl e \<Rightarrow> drop_guard op (close_tunnel (at_tunnel a) (put_task op m (TaskReporting (ServiceTunnel e)) s1))
                  | Inr st \<Rightarrow> put_task op m (TaskReady a st) s1)
      | _ \<Rightarrow> s)"

text \<open>One turn of the event task on an event: its copy of the status, and what it publishes.\<close>

definition event_turn :: "tunnel_event \<Rightarrow> tunnel_status \<Rightarrow> tunnel_status" where
  "event_turn ev st =
     (case ev of EventError c _ \<Rightarrow> (if tu_last_error st \<noteq> Some c then st\<lparr>tu_last_error := Some c\<rparr> else st) | _ \<Rightarrow> st)"

text \<open>
  \<open>early\<close> are the events the new event task forwards before the lock holder publishes: the task is
  spawned first.
\<close>

definition finish_start :: "u64 \<Rightarrow> tunnel_event list \<Rightarrow> tunnel_service \<Rightarrow> tunnel_service" where
  "finish_start op early s =
     (case svc_task s op of
        Some (_, TaskReady a st) \<Rightarrow>
          if \<not> matches_starting (tsv_state s) op
          then drop_guard op (close_tunnel (at_tunnel a) (drop_task op s))
          else svc_publish st ((drop_task op s)\<lparr>tsv_state := SvcActive a,
                 tsv_event_task := Some (fold event_turn early st), tsv_events := tsv_events s @ early\<rparr>)
      | _ \<Rightarrow> s)"

definition fail_start :: "u64 \<Rightarrow> tunnel_service \<Rightarrow> tunnel_service" where
  "fail_start op s =
     (case svc_task s op of
        Some (m, TaskFailed e) \<Rightarrow> put_task op m (TaskReporting e) (reset_operation op s)
      | _ \<Rightarrow> s)"

text \<open>\<^verbatim>\<open>publish_error\<close> reads the published status, and replaces it afterwards.\<close>

definition error_context :: "tunnel_mode \<Rightarrow> string" where
  "error_context m = (case m of HostMode \<Rightarrow> ''host start failed'' | JoinMode \<Rightarrow> ''join start failed'')"

definition publish_error_read :: "u64 \<Rightarrow> tunnel_service \<Rightarrow> tunnel_service" where
  "publish_error_read op s =
     (case svc_task s op of
        Some (m, TaskReporting e) \<Rightarrow> put_task op m (TaskWriting e (tsv_published s)) s
      | _ \<Rightarrow> s)"

definition publish_error_write :: "u64 \<Rightarrow> tunnel_service \<Rightarrow> tunnel_service" where
  "publish_error_write op s =
     (case svc_task s op of
        Some (m, TaskWriting e st) \<Rightarrow>
          (let s1 = svc_publish (st\<lparr>tu_last_error := Some (service_error_category e)\<rparr>) (drop_task op s)
           in s1\<lparr>tsv_events := tsv_events s1 @ [EventError (service_error_category e)
                (error_context m @ '': '' @ service_error_text e)]\<rparr>)
      | _ \<Rightarrow> s)"

section \<open>Stopping\<close>

definition begin_stop :: "tunnel_service \<Rightarrow> (tunnel_service_error + bool) \<times> tunnel_service" where
  "begin_stop s =
     (case next_operation_id s of
        (op, s1) \<Rightarrow>
          (case tsv_state s1 of
             SvcActive a \<Rightarrow>
               (Inr True, svc_publish (tunnel_status_pending PhaseStopping (at_mode a))
                  (s1\<lparr>tsv_event_task := None, tsv_state := SvcStopping op,
                      tsv_stopping := (op, at_tunnel a) # tsv_stopping s1\<rparr>))
           | SvcStarting started attached \<Rightarrow>
               (let s2 = s1\<lparr>tsv_state := SvcIdle\<rparr>;
                    s3 = (if attached then abort_task started s2 else s2)
                in (Inr False, svc_publish tunnel_status_idle s3))
           | SvcIdle \<Rightarrow> (Inl NotRunning, s1)
           | SvcStopping _ \<Rightarrow> (Inl ServiceBusy, s1)))"

text \<open>The tunnel has been closed; a stop that is cancelled drops it instead, with its guard.\<close>

definition finish_stop :: "u64 \<Rightarrow> tunnel_service \<Rightarrow> tunnel_service" where
  "finish_stop op s =
     (case map_of (tsv_stopping s) op of
        None \<Rightarrow> s
      | Some t \<Rightarrow> reset_operation op (close_tunnel t (s\<lparr>tsv_stopping := AList.delete op (tsv_stopping s)\<rparr>)))"

definition cancel_stop :: "u64 \<Rightarrow> tunnel_service \<Rightarrow> tunnel_service" where
  "cancel_stop op s =
     (case map_of (tsv_stopping s) op of
        None \<Rightarrow> s
      | Some t \<Rightarrow> drop_guard op (close_tunnel t (s\<lparr>tsv_stopping := AList.delete op (tsv_stopping s)\<rparr>)))"

text \<open>
  A stop that is dropped while \<open>begin_stop\<close> waits for the event task to end: the state has been
  taken, nothing has been published, and the tunnel is dropped.
\<close>

definition interrupt_stop :: "tunnel_service \<Rightarrow> tunnel_service" where
  "interrupt_stop s =
     (case tsv_state s of
        SvcActive a \<Rightarrow>
          close_tunnel (at_tunnel a) ((snd (next_operation_id s))\<lparr>tsv_state := SvcIdle, tsv_event_task := None\<rparr>)
      | _ \<Rightarrow> s)"

definition shutdown_result :: "(tunnel_service_error + bool) \<Rightarrow> tunnel_service_error + unit" where
  "shutdown_result r =
     (case r of Inr _ \<Rightarrow> Inr () | Inl e \<Rightarrow> if e = NotRunning then Inr () else Inl e)"

section \<open>The event task\<close>

definition refresh_connections :: "sculk_error + connection_snapshot list \<Rightarrow> tunnel_service \<Rightarrow> tunnel_service" where
  "refresh_connections conns s =
     (case (tsv_event_task s, conns) of
        (Some st, Inr cs) \<Rightarrow>
          if tu_connections st \<noteq> cs
          then (let st' = st\<lparr>tu_connections := cs\<rparr> in svc_publish st' (s\<lparr>tsv_event_task := Some st'\<rparr>))
          else s
      | _ \<Rightarrow> s)"

definition forward_event :: "tunnel_event \<Rightarrow> tunnel_service \<Rightarrow> tunnel_service" where
  "forward_event ev s =
     (case tsv_event_task s of
        None \<Rightarrow> s
      | Some st \<Rightarrow>
          let st' = event_turn ev st;
              s1 = s\<lparr>tsv_event_task := Some st', tsv_events := tsv_events s @ [ev]\<rparr>
          in if st' \<noteq> st then svc_publish st' s1 else s1)"

section \<open>Subscriptions\<close>

datatype tunnel_update = UpdateStatus tunnel_status | UpdateEvent tunnel_event

record tunnel_subscription =
  sb_initial_status_pending :: bool
  sb_status_open :: bool
  sb_events_open :: bool

definition subscribe_new :: tunnel_subscription where
  "subscribe_new = \<lparr>sb_initial_status_pending = True, sb_status_open = True, sb_events_open = True\<rparr>"

text \<open>What a branch of the select returned, with the status that is then published.\<close>

datatype sub_ready =
    SubStatus tunnel_status
  | SubStatusClosed
  | SubEvent tunnel_event
  | SubLagged nat
  | SubEventsClosed

text \<open>\<open>None\<close> is still waiting when the inputs end.\<close>

fun sub_recv ::
  "tunnel_status \<Rightarrow> tunnel_subscription \<Rightarrow> sub_ready list \<Rightarrow> tunnel_update option option \<times> tunnel_subscription" where
  "sub_recv published b rs =
     (if sb_initial_status_pending b then (Some (Some (UpdateStatus published)), b\<lparr>sb_initial_status_pending := False\<rparr>)
      else if \<not> sb_status_open b \<and> \<not> sb_events_open b then (Some None, b)
      else case rs of
        [] \<Rightarrow> (None, b)
      | r # rs' \<Rightarrow>
          (case r of
             SubStatus st \<Rightarrow>
               if sb_status_open b then (Some (Some (UpdateStatus st)), b) else sub_recv published b rs'
           | SubStatusClosed \<Rightarrow> sub_recv published (b\<lparr>sb_status_open := False\<rparr>) rs'
           | SubEvent ev \<Rightarrow>
               if sb_events_open b then (Some (Some (UpdateEvent ev)), b) else sub_recv published b rs'
           | SubLagged n \<Rightarrow>
               if sb_events_open b
               then (Some (Some (UpdateEvent (EventError CatResourceLimit
                      (''event subscriber lagged and lost '' @ show_nat n @ '' events'')))), b)
               else sub_recv published b rs'
           | SubEventsClosed \<Rightarrow> sub_recv published (b\<lparr>sb_events_open := False\<rparr>) rs'))"

declare sub_recv.simps [simp del]

section \<open>Interleaved steps\<close>

datatype service_step =
    SvcStartHost host_options
  | SvcStartJoin join_options
  | SvcAttach u64
  | SvcComplete u64 "sculk_error + join_uri option \<times> socket_addr option" "sculk_error + connection_snapshot list"
  | SvcFinishStart u64 "tunnel_event list"
  | SvcFailStart u64
  | SvcReport u64
  | SvcReportRead u64
  | SvcReportWrite u64
  | SvcStop
  | SvcFinishStop u64
  | SvcCancelStop u64
  | SvcInterruptStop
  | SvcReset u64
  | SvcRefresh "sculk_error + connection_snapshot list"
  | SvcForward tunnel_event

text \<open>\<open>SvcReport\<close> is an error report that nothing interrupts.\<close>

fun tunnel_service_step :: "tunnel_service \<Rightarrow> service_step \<Rightarrow> tunnel_service" where
  "tunnel_service_step s (SvcStartHost opts) = snd (start_host opts s)"
| "tunnel_service_step s (SvcStartJoin opts) = snd (start_join opts s)"
| "tunnel_service_step s (SvcAttach op) = attach_start_task op s"
| "tunnel_service_step s (SvcComplete op result conns) = complete_start op result conns s"
| "tunnel_service_step s (SvcFinishStart op early) = finish_start op early s"
| "tunnel_service_step s (SvcFailStart op) = fail_start op s"
| "tunnel_service_step s (SvcReport op) = publish_error_write op (publish_error_read op s)"
| "tunnel_service_step s (SvcReportRead op) = publish_error_read op s"
| "tunnel_service_step s (SvcReportWrite op) = publish_error_write op s"
| "tunnel_service_step s SvcStop = snd (begin_stop s)"
| "tunnel_service_step s (SvcFinishStop op) = finish_stop op s"
| "tunnel_service_step s (SvcCancelStop op) = cancel_stop op s"
| "tunnel_service_step s SvcInterruptStop = interrupt_stop s"
| "tunnel_service_step s (SvcReset op) =
     (if op \<in> set (tsv_resets s) then reset_operation op (s\<lparr>tsv_resets := remove1 op (tsv_resets s)\<rparr>) else s)"
| "tunnel_service_step s (SvcRefresh conns) = refresh_connections conns s"
| "tunnel_service_step s (SvcForward ev) = forward_event ev s"

end
