(* ===== verification/Service_Properties.thy ===== *)
theory Service_Properties
  imports Tunnel_Service
begin

text \<open>
  What the managed service keeps in every interleaving of callers, start tasks, stops and dropped
  guards: tunnels are never lost or closed twice, no operation is ever stuck, and an operation
  that was cancelled cannot touch its successor. Operation ids are 64-bit and wrap; the
  properties hold for runs shorter than that.
\<close>

section \<open>The invariant\<close>

fun ready_of :: "start_task \<Rightarrow> nat list" where
  "ready_of (TaskReady a _) = [at_tunnel a]"
| "ready_of _ = []"

definition ready_tunnels :: "(u64 \<times> tunnel_mode \<times> start_task) list \<Rightarrow> nat list" where
  "ready_tunnels ts = concat (map (\<lambda>(_, _, t). ready_of t) ts)"

definition active_tunnels :: "tunnel_service \<Rightarrow> nat list" where
  "active_tunnels s = (case tsv_state s of SvcActive a \<Rightarrow> [at_tunnel a] | _ \<Rightarrow> [])"

definition owned_tunnels :: "tunnel_service \<Rightarrow> nat list" where
  "owned_tunnels s = active_tunnels s @ map snd (tsv_stopping s) @ ready_tunnels (tsv_tasks s)"

definition conserved :: "tunnel_service \<Rightarrow> bool" where
  "conserved s \<longleftrightarrow> mset (owned_tunnels s) + mset (tsv_closed s) = mset [0..<tsv_tunnel_next s]"

definition keys_ok :: "tunnel_service \<Rightarrow> bool" where
  "keys_ok s \<longleftrightarrow> distinct (map fst (tsv_tasks s)) \<and> distinct (map fst (tsv_stopping s))"

definition used_ops :: "tunnel_service \<Rightarrow> u64 set" where
  "used_ops s = fst ` set (tsv_tasks s) \<union> fst ` set (tsv_stopping s) \<union> set (tsv_resets s)
     \<union> set_option (operation_id (tsv_state s))"

definition fresh_ok :: "tunnel_service \<Rightarrow> bool" where
  "fresh_ok s \<longleftrightarrow> (\<forall>op\<in>used_ops s. op < tsv_next s)"

fun unfinished :: "start_task \<Rightarrow> bool" where
  "unfinished TaskDialing = True"
| "unfinished (TaskReady _ _) = True"
| "unfinished (TaskFailed _) = True"
| "unfinished _ = False"

definition moving :: "tunnel_service \<Rightarrow> bool" where
  "moving s \<longleftrightarrow>
     (\<forall>op att. tsv_state s = SvcStarting op att \<longrightarrow>
        op \<in> set (tsv_resets s) \<or> (\<exists>m t. svc_task s op = Some (m, t) \<and> unfinished t))
     \<and> (\<forall>op. tsv_state s = SvcStopping op \<longrightarrow>
        op \<in> set (tsv_resets s) \<or> map_of (tsv_stopping s) op \<noteq> None)"

definition events_ok :: "tunnel_service \<Rightarrow> bool" where
  "events_ok s \<longleftrightarrow> (tsv_event_task s \<noteq> None \<longleftrightarrow> active_tunnels s \<noteq> [])"

definition service_ok :: "tunnel_service \<Rightarrow> bool" where
  "service_ok s \<longleftrightarrow> conserved s \<and> keys_ok s \<and> fresh_ok s \<and> moving s \<and> events_ok s"

lemma ready_tunnels_simps [simp]:
  "ready_tunnels [] = []" "ready_tunnels ((op, m, t) # ts) = ready_of t @ ready_tunnels ts"
  by (simp_all add: ready_tunnels_def)

lemma ready_split:
  "\<lbrakk>distinct (map fst ts); map_of ts op = Some (m, t)\<rbrakk> \<Longrightarrow>
     mset (ready_tunnels ts) = mset (ready_of t) + mset (ready_tunnels (AList.delete op ts))"
proof (induction ts)
  case (Cons x ts)
  obtain k m' t' where x: "x = (k, m', t')" by (metis prod.exhaust)
  show ?case
  proof (cases "k = op")
    case True
    with Cons.prems have "op \<notin> fst ` set ts" by (auto simp: x)
    with True Cons.prems show ?thesis by (simp add: x delete_id)
  next
    case False
    with Cons show ?thesis by (simp add: x)
  qed
qed simp

lemma stopping_split:
  "\<lbrakk>distinct (map fst xs); map_of xs op = Some v\<rbrakk> \<Longrightarrow>
     mset (map snd xs) = add_mset v (mset (map snd (AList.delete op xs)))"
proof (induction xs)
  case (Cons x xs)
  obtain k w where x: "x = (k, w)" by force
  show ?case
  proof (cases "k = op")
    case True
    with Cons.prems have "op \<notin> fst ` set xs" by (auto simp: x)
    with True Cons.prems show ?thesis by (simp add: x delete_id)
  next
    case False
    with Cons show ?thesis by (simp add: x)
  qed
qed simp

section \<open>Building blocks\<close>

lemmas svc_blocks = svc_publish_def drop_task_def put_task_def close_tunnel_def drop_guard_def

lemma reset_fields [simp]:
  "tsv_tasks (reset_operation op s) = tsv_tasks s" "tsv_stopping (reset_operation op s) = tsv_stopping s"
  "tsv_resets (reset_operation op s) = tsv_resets s" "tsv_closed (reset_operation op s) = tsv_closed s"
  "tsv_next (reset_operation op s) = tsv_next s" "tsv_tunnel_next (reset_operation op s) = tsv_tunnel_next s"
  "tsv_event_task (reset_operation op s) = tsv_event_task s" "active_tunnels (reset_operation op s) = active_tunnels s"
  by (auto simp: reset_operation_def svc_publish_def active_tunnels_def split: service_state.splits)

lemma reset_state:
  "tsv_state (reset_operation op s) = (if operation_id (tsv_state s) = Some op then SvcIdle else tsv_state s)"
  by (simp add: reset_operation_def svc_publish_def)

lemma reset_ok: "service_ok s \<Longrightarrow> service_ok (reset_operation op s)"
  by (auto simp: service_ok_def conserved_def owned_tunnels_def keys_ok_def fresh_ok_def used_ops_def moving_def
      events_ok_def svc_task_def reset_state split: if_splits)

lemma drop_guard_ok: "\<lbrakk>service_ok s; op < tsv_next s\<rbrakk> \<Longrightarrow> service_ok (drop_guard op s)"
  by (auto simp: service_ok_def conserved_def owned_tunnels_def keys_ok_def fresh_ok_def used_ops_def moving_def
      events_ok_def svc_task_def drop_guard_def active_tunnels_def)

text \<open>A start task moves on: \<open>opened\<close> and \<open>shut\<close> are the tunnels it builds and closes.\<close>

lemma task_op_fresh: "\<lbrakk>service_ok s; svc_task s op = Some v\<rbrakk> \<Longrightarrow> op < tsv_next s"
  by (force simp: service_ok_def fresh_ok_def used_ops_def svc_task_def dest: map_of_SomeD)

lemma task_moves_ok:
  assumes ok: "service_ok s" and t: "svc_task s op = Some (m, t)"
    and s': "tsv_state s' = tsv_state s" "tsv_stopping s' = tsv_stopping s" "tsv_next s' = tsv_next s"
      "tsv_event_task s' = tsv_event_task s" "tsv_tasks s' = new @ AList.delete op (tsv_tasks s)"
    and new: "new = [] \<or> new = [(op, m, t')]"
    and res: "set (tsv_resets s) \<subseteq> set (tsv_resets s')" "set (tsv_resets s') \<subseteq> insert op (set (tsv_resets s))"
    and bal: "mset (ready_tunnels new) + mset (tsv_closed s') + mset [0..<tsv_tunnel_next s] =
      mset (ready_of t) + mset (tsv_closed s) + mset [0..<tsv_tunnel_next s']"
    and unf: "\<lbrakk>unfinished t; matches_starting (tsv_state s) op\<rbrakk> \<Longrightarrow> new = [(op, m, t')] \<and> unfinished t' \<or> op \<in> set (tsv_resets s')"
  shows "service_ok s'"
proof -
  have act: "active_tunnels s' = active_tunnels s" by (simp add: active_tunnels_def s')
  have keys: "distinct (map fst (tsv_tasks s))" using ok by (simp add: service_ok_def keys_ok_def)
  note split = ready_split [OF keys t [unfolded svc_task_def]]
  define A R where "A = mset (active_tunnels s @ map snd (tsv_stopping s))"
    and "R = mset (ready_tunnels (AList.delete op (tsv_tasks s)))"
  define N N' where "N = mset [0..<tsv_tunnel_next s]" and "N' = mset [0..<tsv_tunnel_next s']"
  have o1: "mset (owned_tunnels s) = A + R + mset (ready_of t)"
    by (simp add: owned_tunnels_def split A_def R_def)
  have "ready_tunnels (new @ AList.delete op (tsv_tasks s)) = ready_tunnels new @ ready_tunnels (AList.delete op (tsv_tasks s))"
    by (simp add: ready_tunnels_def)
  then have o2: "mset (owned_tunnels s') = A + R + mset (ready_tunnels new)"
    by (simp add: owned_tunnels_def act s' A_def R_def)
  have "mset (owned_tunnels s') + mset (tsv_closed s') + N = A + R + (mset (ready_tunnels new) + mset (tsv_closed s') + N)"
    by (simp only: o2 add.assoc)
  also have "\<dots> = mset (owned_tunnels s) + mset (tsv_closed s) + N'"
    unfolding bal [folded N_def N'_def] by (simp only: o1 add.assoc)
  also have "\<dots> = N' + N" using ok by (simp add: service_ok_def conserved_def N_def)
  finally have "mset (owned_tunnels s') + mset (tsv_closed s') = N'" by simp
  moreover have "keys_ok s'"
    using new by (rule disjE)
      (use ok delete_notin_dom [of op "tsv_tasks s"] in \<open>simp_all add: service_ok_def keys_ok_def s' distinct_delete\<close>)
  moreover have "fresh_ok s'"
  proof -
    have "fst ` set (tsv_tasks s') \<subseteq> insert op (fst ` set (tsv_tasks s))"
      using new dom_delete_subset [of op "tsv_tasks s"] by (auto simp: s'(5))
    then have "used_ops s' \<subseteq> insert op (used_ops s)"
      using res(2) unfolding used_ops_def s'(1,2) by blast
    with ok task_op_fresh [OF ok t] show ?thesis unfolding service_ok_def fresh_ok_def s'(3) by blast
  qed
  moreover have "moving s'"
    using ok t unf new subsetD [OF res(1)]
    by (auto simp: service_ok_def moving_def svc_task_def s'(1,2,5) delete_conv' split: if_splits)
  moreover have "events_ok s'" using ok by (simp add: service_ok_def events_ok_def act s')
  ultimately show ?thesis by (simp add: service_ok_def conserved_def N'_def)
qed

lemma abort_ok: "service_ok s \<Longrightarrow> service_ok (abort_task op s)"
  by (auto simp: abort_task_def svc_blocks split: option.split start_task.split
      intro!: task_moves_ok [where new = "[]" and s = s and op = op])

lemma complete_start_ok: "service_ok s \<Longrightarrow> service_ok (complete_start op result conns s)"
  by (auto simp: complete_start_def svc_blocks Let_def active_status_def and_then_Inr split: option.split start_task.split sum.split
      intro!: task_moves_ok [where new = "[(op, m, t')]" and s = s and op = op and m = m and t' = t' for m t'])

lemma report_read_ok: "service_ok s \<Longrightarrow> service_ok (publish_error_read op s)"
  by (auto simp: publish_error_read_def svc_blocks split: option.split start_task.split
      intro!: task_moves_ok [where new = "[(op, m, t')]" and s = s and op = op and m = m and t' = t' for m t'])

lemma report_write_ok: "service_ok s \<Longrightarrow> service_ok (publish_error_write op s)"
  by (auto simp: publish_error_write_def svc_blocks Let_def split: option.split start_task.split
      intro!: task_moves_ok [where new = "[]" and s = s and op = op])

lemma fail_start_ok:
  assumes "service_ok s"
  shows "service_ok (fail_start op s)"
proof (cases "\<exists>m e. svc_task s op = Some (m, TaskFailed e)")
  case True
  then obtain m e where t: "svc_task s op = Some (m, TaskFailed e)" by blast
  define u where "u = reset_operation op s"
  have ok: "service_ok u" unfolding u_def using assms by (rule reset_ok)
  have idle: "\<not> matches_starting (tsv_state u) op"
    by (cases "tsv_state s") (simp_all add: reset_state u_def)
  have u: "svc_task u op = Some (m, TaskFailed e)" using t by (simp add: u_def svc_task_def)
  have "fail_start op s = put_task op m (TaskReporting e) u" using t by (simp add: fail_start_def u_def)
  then show ?thesis
    by (simp only:) (rule task_moves_ok [OF ok u, where new = "[(op, m, TaskReporting e)]"],
      use idle in \<open>simp_all add: svc_blocks subset_insertI\<close>)
next
  case False
  then have "fail_start op s = s" by (auto simp: fail_start_def split: option.split start_task.split)
  with assms show ?thesis by simp
qed

lemma finish_start_ok:
  assumes ok: "service_ok s"
  shows "service_ok (finish_start op early s)"
proof (cases "\<exists>m a st. svc_task s op = Some (m, TaskReady a st)")
  case True
  then obtain m a st where t: "svc_task s op = Some (m, TaskReady a st)" by blast
  show ?thesis
  proof (cases "matches_starting (tsv_state s) op")
    case False
    then have "finish_start op early s = drop_guard op (close_tunnel (at_tunnel a) (drop_task op s))"
      using t by (simp add: finish_start_def)
    then show ?thesis
      by (simp only:) (rule task_moves_ok [OF ok t, where new = "[]"], simp_all add: svc_blocks subset_insertI)
  next
    case True
    define s' where "s' = finish_start op early s"
    have s': "tsv_state s' = SvcActive a" "tsv_stopping s' = tsv_stopping s" "tsv_tasks s' = AList.delete op (tsv_tasks s)"
      "tsv_next s' = tsv_next s" "tsv_resets s' = tsv_resets s" "tsv_closed s' = tsv_closed s"
      "tsv_tunnel_next s' = tsv_tunnel_next s" "tsv_event_task s' \<noteq> None"
      using t True by (simp_all add: s'_def finish_start_def svc_blocks)
    have act: "active_tunnels s = []" "active_tunnels s' = [at_tunnel a]"
      using True s' by (cases "tsv_state s"; simp add: active_tunnels_def)+
    have "mset (ready_tunnels (tsv_tasks s)) = add_mset (at_tunnel a) (mset (ready_tunnels (AList.delete op (tsv_tasks s))))"
      using ready_split [of "tsv_tasks s" op m "TaskReady a st"] ok t by (simp add: service_ok_def keys_ok_def svc_task_def)
    then have "conserved s'" using ok by (simp add: service_ok_def conserved_def owned_tunnels_def act s')
    moreover have "keys_ok s'" using ok by (simp add: service_ok_def keys_ok_def s' distinct_delete)
    moreover have "used_ops s' \<subseteq> used_ops s" using dom_delete_subset [of op "tsv_tasks s"] by (auto simp: used_ops_def s')
    then have "fresh_ok s'" using ok by (auto simp: service_ok_def fresh_ok_def s')
    moreover have "moving s'" by (simp add: moving_def s')
    moreover have "events_ok s'" using s' by (simp add: events_ok_def act)
    ultimately show ?thesis by (simp add: service_ok_def s'_def)
  qed
next
  case False
  then have "finish_start op early s = s" by (auto simp: finish_start_def split: option.split start_task.split)
  with ok show ?thesis by simp
qed

section \<open>Stopping and starting\<close>

lemma stop_taken:
  assumes ok: "service_ok s" and t: "map_of (tsv_stopping s) op = Some t"
    and s': "s' = close_tunnel t (s\<lparr>tsv_stopping := AList.delete op (tsv_stopping s)\<rparr>)"
  shows "conserved s' \<and> keys_ok s' \<and> fresh_ok s' \<and> events_ok s' \<and> op < tsv_next s'
    \<and> (tsv_state s \<noteq> SvcStopping op \<longrightarrow> moving s')"
proof (intro conjI impI)
  have act: "active_tunnels s' = active_tunnels s" by (simp add: active_tunnels_def s' svc_blocks)
  have keys: "distinct (map fst (tsv_stopping s))" using ok by (simp add: service_ok_def keys_ok_def)
  show "conserved s'"
    using ok stopping_split [OF keys t] act by (simp add: service_ok_def conserved_def owned_tunnels_def s' svc_blocks active_tunnels_def)
  show "keys_ok s'" using ok by (simp add: service_ok_def keys_ok_def s' svc_blocks distinct_delete)
  have "used_ops s' \<subseteq> used_ops s" using dom_delete_subset [of op "tsv_stopping s"] by (auto simp: used_ops_def s' svc_blocks)
  then show "fresh_ok s'" using ok by (auto simp: service_ok_def fresh_ok_def s' svc_blocks)
  show "events_ok s'" using ok act by (simp add: service_ok_def events_ok_def s' svc_blocks active_tunnels_def)
  have "op \<in> used_ops s" using t by (force simp: used_ops_def dest: map_of_SomeD)
  then show "op < tsv_next s'" using ok by (simp add: service_ok_def fresh_ok_def s' svc_blocks)
  show "moving s'" if "tsv_state s \<noteq> SvcStopping op"
    using ok that by (auto simp: service_ok_def moving_def svc_task_def s' svc_blocks delete_conv')
qed

lemma finish_stop_ok:
  assumes "service_ok s"
  shows "service_ok (finish_stop op s)"
proof (cases "map_of (tsv_stopping s) op")
  case (Some t)
  define u where "u = close_tunnel t (s\<lparr>tsv_stopping := AList.delete op (tsv_stopping s)\<rparr>)"
  note taken = stop_taken [OF assms Some u_def]
  have st: "tsv_state u = tsv_state s" by (simp add: u_def svc_blocks)
  have "service_ok (reset_operation op u)"
  proof (cases "tsv_state s = SvcStopping op")
    case True
    then have "moving (reset_operation op u)" by (simp add: moving_def reset_state st)
    with taken show ?thesis
      by (auto simp: service_ok_def conserved_def owned_tunnels_def keys_ok_def fresh_ok_def used_ops_def events_ok_def
          reset_state split: if_splits)
  next
    case False
    with taken have "service_ok u" by (simp add: service_ok_def)
    then show ?thesis by (rule reset_ok)
  qed
  then show ?thesis by (simp add: finish_stop_def Some u_def)
qed (simp add: finish_stop_def assms)

lemma cancel_stop_ok:
  assumes "service_ok s"
  shows "service_ok (cancel_stop op s)"
proof (cases "map_of (tsv_stopping s) op")
  case (Some t)
  define u where "u = close_tunnel t (s\<lparr>tsv_stopping := AList.delete op (tsv_stopping s)\<rparr>)"
  note taken = stop_taken [OF assms Some u_def]
  have "moving (drop_guard op u)"
  proof (cases "tsv_state s = SvcStopping op")
    case True
    then show ?thesis by (simp add: moving_def drop_guard_def u_def close_tunnel_def)
  next
    case False
    with taken show ?thesis by (auto simp: moving_def drop_guard_def svc_task_def)
  qed
  with taken have "service_ok (drop_guard op u)"
    by (auto simp: service_ok_def conserved_def owned_tunnels_def keys_ok_def fresh_ok_def used_ops_def events_ok_def
        drop_guard_def active_tunnels_def)
  then show ?thesis by (simp add: cancel_stop_def Some u_def)
qed (simp add: cancel_stop_def assms)

text \<open>An operation id is new as long as the counter has not wrapped.\<close>

lemma next_op_ok:
  assumes "service_ok s" and "tsv_next s \<noteq> - 1"
  shows "service_ok (s\<lparr>tsv_next := tsv_next s + 1\<rparr>)" and "tsv_next s < tsv_next s + 1"
    and "tsv_next s \<notin> used_ops s"
proof -
  show less: "tsv_next s < tsv_next s + 1" using unat_inc [OF assms(2)] by (simp add: word_less_nat_alt)
  show "service_ok (s\<lparr>tsv_next := tsv_next s + 1\<rparr>)"
    using assms(1) less
    by (auto simp: service_ok_def conserved_def owned_tunnels_def keys_ok_def fresh_ok_def used_ops_def moving_def
        events_ok_def svc_task_def active_tunnels_def intro: less_trans)
  show "tsv_next s \<notin> used_ops s" using assms(1) by (auto simp: service_ok_def fresh_ok_def)
qed

lemma publish_ok [simp]: "service_ok (svc_publish st s) = service_ok s"
  by (simp add: service_ok_def conserved_def owned_tunnels_def keys_ok_def fresh_ok_def used_ops_def moving_def
      events_ok_def svc_task_def active_tunnels_def svc_publish_def)

lemma to_idle_ok: "service_ok s \<Longrightarrow> active_tunnels s = [] \<Longrightarrow> service_ok (s\<lparr>tsv_state := SvcIdle\<rparr>)"
  by (auto simp: service_ok_def conserved_def owned_tunnels_def keys_ok_def fresh_ok_def used_ops_def moving_def
      events_ok_def svc_task_def active_tunnels_def)

lemma spawn_start_ok:
  assumes ok: "service_ok s" and "tsv_next s \<noteq> - 1"
  shows "service_ok (snd (spawn_start m s))"
proof (cases "tsv_state s = SvcIdle")
  case True
  note new = next_op_ok [OF assms]
  define s' where "s' = snd (spawn_start m s)"
  have absent: "tsv_next s \<notin> fst ` set (tsv_tasks s)" using new(3) by (simp add: used_ops_def)
  have s': "tsv_state s' = SvcStarting (tsv_next s) False" "tsv_tasks s' = (tsv_next s, m, TaskDialing) # tsv_tasks s"
    "tsv_stopping s' = tsv_stopping s" "tsv_resets s' = tsv_resets s" "tsv_next s' = tsv_next s + 1"
    "tsv_closed s' = tsv_closed s" "tsv_tunnel_next s' = tsv_tunnel_next s" "tsv_event_task s' = tsv_event_task s"
    using True absent
    by (simp_all add: s'_def spawn_start_def begin_start_def next_operation_id_def svc_blocks)
  have act: "active_tunnels s' = []" "active_tunnels s = []" by (simp_all add: active_tunnels_def s' True)
  have "conserved s'" using ok by (simp add: service_ok_def conserved_def owned_tunnels_def act s')
  moreover have "keys_ok s'" using ok absent by (simp add: service_ok_def keys_ok_def s')
  moreover have "used_ops s' \<subseteq> insert (tsv_next s) (used_ops s)" by (auto simp: used_ops_def s')
  then have "fresh_ok s'" using ok new(2) by (force simp: service_ok_def fresh_ok_def s' intro: less_trans)
  moreover have "moving s'" by (simp add: moving_def svc_task_def s')
  moreover have "events_ok s'" using ok by (simp add: service_ok_def events_ok_def act s')
  ultimately show ?thesis by (simp add: service_ok_def s'_def)
next
  case False
  then show ?thesis using ok by (simp add: spawn_start_def begin_start_def)
qed

lemma begin_stop_ok:
  assumes ok: "service_ok s" and "tsv_next s \<noteq> - 1"
  shows "service_ok (snd (begin_stop s))"
proof -
  note new = next_op_ok [OF assms]
  define s1 where "s1 = s\<lparr>tsv_next := tsv_next s + 1\<rparr>"
  show ?thesis
  proof (cases "tsv_state s")
    case SvcIdle
    with new(1) show ?thesis by (simp add: begin_stop_def next_operation_id_def)
  next
    case (SvcStopping op)
    with new(1) show ?thesis by (simp add: begin_stop_def next_operation_id_def)
  next
    case (SvcStarting op attached)
    have "service_ok (s1\<lparr>tsv_state := SvcIdle\<rparr>)"
      by (rule to_idle_ok) (use new(1) SvcStarting in \<open>simp_all add: s1_def active_tunnels_def\<close>)
    with SvcStarting show ?thesis
      by (simp add: begin_stop_def next_operation_id_def s1_def Let_def abort_ok)
  next
    case (SvcActive a)
    define s' where "s' = snd (begin_stop s)"
    have absent: "tsv_next s \<notin> fst ` set (tsv_stopping s)" using new(3) by (simp add: used_ops_def)
    have s': "tsv_state s' = SvcStopping (tsv_next s)" "tsv_tasks s' = tsv_tasks s"
      "tsv_stopping s' = (tsv_next s, at_tunnel a) # tsv_stopping s" "tsv_resets s' = tsv_resets s"
      "tsv_next s' = tsv_next s + 1" "tsv_closed s' = tsv_closed s" "tsv_tunnel_next s' = tsv_tunnel_next s"
      "tsv_event_task s' = None"
      using SvcActive by (simp_all add: s'_def begin_stop_def next_operation_id_def svc_blocks)
    have act: "active_tunnels s' = []" "active_tunnels s = [at_tunnel a]" by (simp_all add: active_tunnels_def s' SvcActive)
    have "conserved s'" using ok by (simp add: service_ok_def conserved_def owned_tunnels_def act s')
    moreover have "keys_ok s'" using ok absent by (simp add: service_ok_def keys_ok_def s')
    moreover have "used_ops s' \<subseteq> insert (tsv_next s) (used_ops s)" by (auto simp: used_ops_def s')
    then have "fresh_ok s'" using ok new(2) by (force simp: service_ok_def fresh_ok_def s' intro: less_trans)
    moreover have "moving s'" by (simp add: moving_def s')
    moreover have "events_ok s'" by (simp add: events_ok_def act s')
    ultimately show ?thesis by (simp add: service_ok_def s'_def)
  qed
qed

lemma interrupt_stop_ok:
  assumes ok: "service_ok s" and "tsv_next s \<noteq> - 1"
  shows "service_ok (interrupt_stop s)"
proof (cases "\<exists>a. tsv_state s = SvcActive a")
  case True
  then obtain a where a: "tsv_state s = SvcActive a" by blast
  note new = next_op_ok [OF assms]
  have i: "interrupt_stop s = close_tunnel (at_tunnel a) (s\<lparr>tsv_next := tsv_next s + 1, tsv_state := SvcIdle, tsv_event_task := None\<rparr>)"
    by (simp add: interrupt_stop_def a next_operation_id_def)
  show ?thesis
    using ok a less_trans [OF _ new(2)]
    by (auto simp: i service_ok_def conserved_def owned_tunnels_def keys_ok_def fresh_ok_def used_ops_def moving_def
        events_ok_def svc_task_def active_tunnels_def close_tunnel_def)
next
  case False
  with ok show ?thesis by (auto simp: interrupt_stop_def split: service_state.split)
qed

lemma attach_ok: "service_ok s \<Longrightarrow> service_ok (attach_start_task op s)"
proof (cases "matches_starting (tsv_state s) op")
  case True
  assume "service_ok s"
  moreover obtain att where "tsv_state s = SvcStarting op att" using True by (cases "tsv_state s") auto
  ultimately show ?thesis
    by (auto simp: attach_start_task_def service_ok_def conserved_def owned_tunnels_def keys_ok_def fresh_ok_def used_ops_def
        moving_def events_ok_def svc_task_def active_tunnels_def)
qed (simp add: attach_start_task_def abort_ok)

lemma service_ok_cong:
  assumes "tsv_state s' = tsv_state s" "tsv_tasks s' = tsv_tasks s" "tsv_stopping s' = tsv_stopping s"
    "tsv_resets s' = tsv_resets s" "tsv_closed s' = tsv_closed s" "tsv_tunnel_next s' = tsv_tunnel_next s"
    "tsv_next s' = tsv_next s" "(tsv_event_task s' = None) = (tsv_event_task s = None)"
  shows "service_ok s' = service_ok s"
  unfolding service_ok_def conserved_def owned_tunnels_def keys_ok_def fresh_ok_def used_ops_def moving_def
    events_ok_def svc_task_def active_tunnels_def assms ..

lemma event_task_ok:
  assumes "service_ok s" and "tsv_event_task s = Some st"
  shows "service_ok (s\<lparr>tsv_event_task := Some st', tsv_events := evs\<rparr>)" "service_ok (s\<lparr>tsv_event_task := Some st'\<rparr>)"
  using assms service_ok_cong [of "s\<lparr>tsv_event_task := Some st', tsv_events := evs\<rparr>" s]
    service_ok_cong [of "s\<lparr>tsv_event_task := Some st'\<rparr>" s] by simp_all

lemma resets_ok:
  assumes "service_ok s"
  shows "service_ok (reset_operation op (s\<lparr>tsv_resets := remove1 op (tsv_resets s)\<rparr>))"
proof -
  define u where "u = s\<lparr>tsv_resets := remove1 op (tsv_resets s)\<rparr>"
  have u: "conserved u" "keys_ok u" "fresh_ok u" "events_ok u"
    using assms notin_set_remove1 [of _ "tsv_resets s" op]
    by (auto simp: u_def service_ok_def conserved_def owned_tunnels_def keys_ok_def fresh_ok_def used_ops_def
        events_ok_def active_tunnels_def)
  have "moving (reset_operation op u)"
    using assms in_set_remove1 [of _ op "tsv_resets s"]
    by (auto simp: moving_def reset_state u_def svc_task_def service_ok_def split: if_splits)
  with u show ?thesis
    by (auto simp: service_ok_def conserved_def owned_tunnels_def keys_ok_def fresh_ok_def used_ops_def events_ok_def
        reset_state u_def [symmetric] split: if_splits)
qed

lemma service_step_ok:
  assumes "service_ok s" and "tsv_next s \<noteq> - 1"
  shows "service_ok (tunnel_service_step s l)"
proof (cases l)
  case (SvcStartHost opts)
  with assms show ?thesis by (simp add: start_host_def spawn_start_ok split: sum.split)
next
  case (SvcStartJoin opts)
  with assms show ?thesis by (simp add: start_join_def spawn_start_ok split: sum.split)
next
  case (SvcRefresh conns)
  with assms show ?thesis
    by (auto simp: refresh_connections_def Let_def event_task_ok split: option.split sum.split)
next
  case (SvcForward ev)
  with assms show ?thesis
    by (auto simp: forward_event_def Let_def event_task_ok split: option.split)
qed (use assms in \<open>simp_all add: attach_ok complete_start_ok finish_start_ok fail_start_ok report_read_ok report_write_ok
    begin_stop_ok finish_stop_ok cancel_stop_ok interrupt_stop_ok resets_ok\<close>)

section \<open>Runs\<close>

lemma next_fields [simp]:
  "tsv_next (svc_publish st s) = tsv_next s" "tsv_next (drop_task op s) = tsv_next s" "tsv_next (put_task op m t s) = tsv_next s"
  "tsv_next (close_tunnel k s) = tsv_next s" "tsv_next (drop_guard op s) = tsv_next s"
  by (simp_all add: svc_blocks)

lemma next_of_ops [simp]:
  "tsv_next (abort_task op s) = tsv_next s" "tsv_next (attach_start_task op s) = tsv_next s"
  "tsv_next (complete_start op r conns s) = tsv_next s" "tsv_next (finish_start op early s) = tsv_next s"
  "tsv_next (fail_start op s) = tsv_next s" "tsv_next (publish_error_read op s) = tsv_next s"
  "tsv_next (publish_error_write op s) = tsv_next s" "tsv_next (finish_stop op s) = tsv_next s"
  "tsv_next (cancel_stop op s) = tsv_next s" "tsv_next (refresh_connections cs s) = tsv_next s"
  "tsv_next (forward_event ev s) = tsv_next s"
  by (auto simp: abort_task_def attach_start_task_def complete_start_def finish_start_def fail_start_def
      publish_error_read_def publish_error_write_def finish_stop_def cancel_stop_def refresh_connections_def
      forward_event_def Let_def split: option.split start_task.split sum.split)

lemma next_of_start: "tsv_next (snd (spawn_start m s)) = tsv_next s \<or> tsv_next (snd (spawn_start m s)) = tsv_next s + 1"
  by (simp add: spawn_start_def begin_start_def next_operation_id_def)

lemma next_of_stop: "tsv_next (snd (begin_stop s)) = tsv_next s + 1"
  by (simp add: begin_stop_def next_operation_id_def Let_def split: service_state.split)

lemma next_of_interrupt: "tsv_next (interrupt_stop s) = tsv_next s \<or> tsv_next (interrupt_stop s) = tsv_next s + 1"
  by (simp add: interrupt_stop_def next_operation_id_def split: service_state.split)

lemma next_step: "tsv_next (tunnel_service_step s l) = tsv_next s \<or> tsv_next (tunnel_service_step s l) = tsv_next s + 1"
  using next_of_start next_of_stop next_of_interrupt
  by (cases l) (auto simp: start_host_def start_join_def split: sum.split)

lemma unat_next_step: "unat (tsv_next (tunnel_service_step s l)) \<le> Suc (unat (tsv_next s))"
proof -
  have "unat (tsv_next s + 1) \<le> Suc (unat (tsv_next s))"
    by (metis unat_inc eq_iff add.right_inverse add.commute unat_0 zero_le)
  with next_step [of s l] show ?thesis by auto
qed

lemma service_new_ok: "service_ok tunnel_service_new"
  by (simp add: tunnel_service_new_def service_ok_def conserved_def owned_tunnels_def active_tunnels_def keys_ok_def
      fresh_ok_def used_ops_def moving_def events_ok_def)

lemma service_run_ok:
  assumes "length ls < 2 ^ 64 - 2"
  shows "service_ok (run_steps tunnel_service_step tunnel_service_new ls)
    \<and> unat (tsv_next (run_steps tunnel_service_step tunnel_service_new ls)) \<le> Suc (length ls)"
  using assms
proof (induction ls rule: rev_induct)
  case Nil
  then show ?case by (simp add: service_new_ok) (simp add: tunnel_service_new_def)
next
  case (snoc l ls)
  define s where "s = run_steps tunnel_service_step tunnel_service_new ls"
  have IH: "service_ok s" "unat (tsv_next s) \<le> Suc (length ls)" using snoc by (simp_all add: s_def)
  then have "tsv_next s \<noteq> - 1" using snoc.prems by (auto simp: unat_max_iff)
  with IH service_step_ok unat_next_step [of s l] show ?case
    by (simp add: run_steps_append s_def [symmetric] del: tunnel_service_step.simps)
qed

text \<open>
  C2. Tunnels are conserved: in every interleaving of calls, start tasks, stops and cancellations,
  every tunnel that was ever built is exactly one of active, waiting to become active, being closed by
  a stop, or closed, and is closed only once; and events are forwarded exactly while a tunnel is
  active.
\<close>

theorem tunnels_are_conserved:
  assumes "s = run_steps tunnel_service_step tunnel_service_new ls" and "length ls < 2 ^ 64 - 2"
  shows "mset (active_tunnels s @ map snd (tsv_stopping s) @ ready_tunnels (tsv_tasks s) @ tsv_closed s)
       = mset [0..<tsv_tunnel_next s]
    \<and> distinct (active_tunnels s @ map snd (tsv_stopping s) @ ready_tunnels (tsv_tasks s) @ tsv_closed s)
    \<and> (tsv_event_task s \<noteq> None \<longleftrightarrow> (\<exists>a. tsv_state s = SvcActive a))"
proof -
  have ok: "service_ok s" using service_run_ok [OF assms(2)] by (simp add: assms(1))
  then have m: "mset (active_tunnels s @ map snd (tsv_stopping s) @ ready_tunnels (tsv_tasks s) @ tsv_closed s)
       = mset [0..<tsv_tunnel_next s]"
    by (simp add: service_ok_def conserved_def owned_tunnels_def add.assoc)
  then have "distinct (active_tunnels s @ map snd (tsv_stopping s) @ ready_tunnels (tsv_tasks s) @ tsv_closed s)"
    using mset_eq_imp_distinct_iff distinct_upt by blast
  moreover have "tsv_event_task s \<noteq> None \<longleftrightarrow> (\<exists>a. tsv_state s = SvcActive a)"
    using ok by (auto simp: service_ok_def events_ok_def active_tunnels_def split: service_state.splits)
  ultimately show ?thesis using m by blast
qed

section \<open>Nothing gets stuck\<close>

definition start_over :: "tunnel_service \<Rightarrow> bool" where
  "start_over s \<longleftrightarrow> tsv_state s = SvcIdle \<or> (\<exists>a. tsv_state s = SvcActive a)"

text \<open>The service is still starting \<open>op\<close>, which waits for one of \<open>ts\<close> or for its reset.\<close>

definition start_waits :: "u64 \<Rightarrow> (start_task \<Rightarrow> bool) \<Rightarrow> tunnel_service \<Rightarrow> bool" where
  "start_waits op ts s \<longleftrightarrow> (\<exists>att. tsv_state s = SvcStarting op att)
     \<and> (op \<in> set (tsv_resets s) \<or> (\<exists>m t. svc_task s op = Some (m, t) \<and> ts t))"

fun past_dialing :: "start_task \<Rightarrow> bool" where
  "past_dialing (TaskReady _ _) = True"
| "past_dialing (TaskFailed _) = True"
| "past_dialing _ = False"

fun has_failed :: "start_task \<Rightarrow> bool" where
  "has_failed (TaskFailed _) = True"
| "has_failed _ = False"

lemma svc_task_put [simp]: "svc_task (put_task op m t s) op = Some (m, t)"
  by (simp add: svc_task_def put_task_def)

lemma complete_progress: "start_waits op unfinished s \<Longrightarrow> start_waits op past_dialing (complete_start op result conns s)"
  by (auto simp: start_waits_def complete_start_def Let_def active_status_def and_then_def svc_task_def svc_blocks
      split: option.split start_task.split sum.split)

lemma finish_progress:
  "start_waits op past_dialing s \<Longrightarrow> start_over (finish_start op [] s) \<or> start_waits op has_failed (finish_start op [] s)"
  by (auto simp: start_waits_def start_over_def finish_start_def svc_blocks split: option.split start_task.split)

lemma fail_progress:
  "start_waits op has_failed s \<Longrightarrow> start_over (fail_start op s) \<or> start_waits op (\<lambda>_. False) (fail_start op s)"
  by (auto simp: start_waits_def start_over_def fail_start_def reset_state put_task_def split: option.split start_task.split)

lemma over_stays:
  "start_over s \<Longrightarrow> start_over (fail_start op s)"
  "start_over s \<Longrightarrow> start_over (tunnel_service_step s (SvcReset op))"
  by (auto simp: start_over_def fail_start_def reset_state put_task_def split: option.split start_task.split)

text \<open>
  C15. No operation is ever stuck: whenever the service is starting, letting the operation's own
  pending work run, whatever dialling returns, ends in an active or an idle service; whenever it
  is stopping, its pending work ends in an idle one.
\<close>

theorem operations_end:
  assumes "s = run_steps tunnel_service_step tunnel_service_new ls" and "length ls < 2 ^ 64 - 2"
  shows "(tsv_state s = SvcStarting op att \<longrightarrow>
        (let s' = run_steps tunnel_service_step s
              [SvcComplete op result conns, SvcFinishStart op [], SvcFailStart op, SvcReset op]
         in tsv_state s' = SvcIdle \<or> (\<exists>a. tsv_state s' = SvcActive a)))
    \<and> (tsv_state s = SvcStopping op \<longrightarrow>
        tsv_state (run_steps tunnel_service_step s [SvcFinishStop op, SvcReset op]) = SvcIdle)"
proof (intro conjI impI)
  have "service_ok s" using service_run_ok [OF assms(2)] by (simp add: assms(1))
  then have mov: "moving s" by (simp add: service_ok_def)
  show "tsv_state (run_steps tunnel_service_step s [SvcFinishStop op, SvcReset op]) = SvcIdle"
    if st: "tsv_state s = SvcStopping op"
  proof (cases "map_of (tsv_stopping s) op")
    case None
    with mov st show ?thesis by (auto simp: moving_def finish_stop_def reset_state)
  next
    case (Some t)
    with st show ?thesis by (simp add: finish_stop_def reset_state close_tunnel_def)
  qed
  show "let s' = run_steps tunnel_service_step s
          [SvcComplete op result conns, SvcFinishStart op [], SvcFailStart op, SvcReset op]
        in tsv_state s' = SvcIdle \<or> (\<exists>a. tsv_state s' = SvcActive a)"
    if st: "tsv_state s = SvcStarting op att"
  proof -
    define s1 where "s1 = complete_start op result conns s"
    define s2 where "s2 = finish_start op [] s1"
    define s3 where "s3 = fail_start op s2"
    have "start_waits op unfinished s" using mov st by (auto simp: start_waits_def moving_def)
    then have "start_waits op past_dialing s1" unfolding s1_def by (rule complete_progress)
    then have "start_over s2 \<or> start_waits op has_failed s2" unfolding s2_def by (rule finish_progress)
    then have "start_over s3 \<or> start_waits op (\<lambda>_. False) s3"
      unfolding s3_def using fail_progress over_stays(1) by blast
    then have "start_over (tunnel_service_step s3 (SvcReset op))"
      using over_stays(2) by (auto simp: start_waits_def reset_state start_over_def)
    then show ?thesis by (simp add: s1_def s2_def s3_def start_over_def Let_def)
  qed
qed

section \<open>Cancelled operations\<close>

text \<open>The operation is over: its id was given out, and it is not the current one.\<close>

definition operation_gone :: "u64 \<Rightarrow> tunnel_service \<Rightarrow> bool" where
  "operation_gone op s \<longleftrightarrow> op < tsv_next s \<and> operation_id (tsv_state s) \<noteq> Some op"

lemma state_of_ops [simp]:
  "tsv_state (svc_publish st s) = tsv_state s" "tsv_state (drop_task op s) = tsv_state s"
  "tsv_state (put_task op m t s) = tsv_state s" "tsv_state (close_tunnel k s) = tsv_state s"
  "tsv_state (drop_guard op s) = tsv_state s" "tsv_state (abort_task op s) = tsv_state s"
  "tsv_state (complete_start op r conns s) = tsv_state s" "tsv_state (publish_error_read op s) = tsv_state s"
  "tsv_state (publish_error_write op s) = tsv_state s" "tsv_state (cancel_stop op s) = tsv_state s"
  "tsv_state (refresh_connections cs s) = tsv_state s" "tsv_state (forward_event ev s) = tsv_state s"
  by (auto simp: svc_blocks abort_task_def complete_start_def publish_error_read_def publish_error_write_def
      cancel_stop_def refresh_connections_def forward_event_def Let_def split: option.split start_task.split sum.split)

lemma operation_after_step:
  "operation_id (tsv_state (tunnel_service_step s l)) \<in> {None, operation_id (tsv_state s), Some (tsv_next s)}"
proof (cases l)
  case (SvcAttach op)
  then show ?thesis by (cases "tsv_state s") (auto simp: attach_start_task_def)
qed (auto simp: start_host_def start_join_def spawn_start_def begin_start_def next_operation_id_def begin_stop_def Let_def
    finish_start_def fail_start_def finish_stop_def interrupt_stop_def reset_state
    split: sum.split option.split start_task.split service_state.split)

lemma operation_gone_step:
  assumes "operation_gone op s" and "tsv_next s \<noteq> - 1"
  shows "operation_gone op (tunnel_service_step s l)"
proof -
  have "tsv_next s < tsv_next s + 1" using unat_inc [OF assms(2)] by (simp add: word_less_nat_alt)
  then have "op < tsv_next (tunnel_service_step s l)"
    using assms(1) next_step [of s l] by (auto simp: operation_gone_def)
  moreover have "operation_id (tsv_state (tunnel_service_step s l)) \<noteq> Some op"
    using operation_after_step [of s l] assms(1) by (auto simp: operation_gone_def)
  ultimately show ?thesis by (simp add: operation_gone_def)
qed

lemma operation_gone_run:
  assumes "operation_gone op s" and "unat (tsv_next s) + length ls < 2 ^ 64"
  shows "operation_gone op (run_steps tunnel_service_step s ls)"
  using assms
proof (induction ls arbitrary: s)
  case (Cons l ls)
  have "tsv_next s \<noteq> - 1" using Cons.prems(2) by (auto simp: unat_max_iff)
  then have "operation_gone op (tunnel_service_step s l)" using Cons.prems(1) by (intro operation_gone_step)
  moreover have "unat (tsv_next (tunnel_service_step s l)) + length ls < 2 ^ 64"
    using unat_next_step [of s l] Cons.prems(2) by simp
  ultimately show ?case by (simp add: Cons.IH del: tunnel_service_step.simps)
qed simp

text \<open>
  C7. A cancelled start cannot come back: once a stop has cancelled a starting operation the
  service is idle, and in every continuation, with any new operations, the cancelled one is never
  current again; if its tunnel comes up anyway, finishing the start changes neither the state nor
  the published status and closes that tunnel.
\<close>

theorem cancelled_start_cannot_return:
  assumes "s = run_steps tunnel_service_step tunnel_service_new ls" and "tsv_state s = SvcStarting op att"
    and "s' = run_steps tunnel_service_step s (SvcStop # later)" and "length ls + length later < 2 ^ 64 - 3"
  shows "tsv_state (tunnel_service_step s SvcStop) = SvcIdle
    \<and> operation_id (tsv_state s') \<noteq> Some op
    \<and> (\<forall>early m a st. svc_task s' op = Some (m, TaskReady a st) \<longrightarrow>
         tsv_state (finish_start op early s') = tsv_state s'
         \<and> tsv_published (finish_start op early s') = tsv_published s'
         \<and> at_tunnel a \<in> set (tsv_closed (finish_start op early s')))"
proof -
  have run: "service_ok s \<and> unat (tsv_next s) \<le> Suc (length ls)"
    using service_run_ok [of ls] assms(1,4) by simp
  have idle: "tsv_state (tunnel_service_step s SvcStop) = SvcIdle"
    using assms(2) by (simp add: begin_stop_def next_operation_id_def Let_def)
  have "op \<in> used_ops s" using assms(2) by (simp add: used_ops_def)
  then have "op < tsv_next s" using run by (auto simp: service_ok_def fresh_ok_def)
  moreover have next_s: "tsv_next (tunnel_service_step s SvcStop) = tsv_next s + 1" using next_of_stop by simp
  moreover have "tsv_next s \<noteq> - 1" using run assms(4) by (auto simp: unat_max_iff)
  then have "tsv_next s < tsv_next s + 1" using unat_inc [of "tsv_next s"] by (simp add: word_less_nat_alt)
  ultimately have "operation_gone op (tunnel_service_step s SvcStop)" by (simp add: operation_gone_def idle del: tunnel_service_step.simps)
  moreover have "unat (tsv_next (tunnel_service_step s SvcStop)) + length later < 2 ^ 64"
    using unat_next_step [of s SvcStop] run assms(4) by simp
  ultimately have "operation_gone op s'"
    unfolding assms(3) by (simp add: operation_gone_run del: tunnel_service_step.simps)
  then have gone: "operation_id (tsv_state s') \<noteq> Some op" by (simp add: operation_gone_def)
  then have "\<not> matches_starting (tsv_state s') op" by (cases "tsv_state s'") auto
  then show ?thesis using idle gone by (auto simp: finish_start_def svc_blocks)
qed

section \<open>The life of a tunnel\<close>

text \<open>
  The abstract machine of the service: the next operation id, and one life. An operation takes the
  next id; a stop that is refused takes one too.
\<close>

datatype life = LifeIdle | LifeStarting u64 | LifeActive active_tunnel | LifeStopping u64

inductive lifecycle :: "u64 \<times> life \<Rightarrow> u64 \<times> life \<Rightarrow> bool" where
  starts: "lifecycle (n, LifeIdle) (n + 1, LifeStarting n)"
| comes_up: "lifecycle (n, LifeStarting op) (n, LifeActive a)"
| fails: "lifecycle (n, LifeStarting op) (n, LifeIdle)"
| cancelled: "lifecycle (n, LifeStarting op) (n + 1, LifeIdle)"
| stops: "lifecycle (n, LifeActive a) (n + 1, LifeStopping n)"
| stopped: "lifecycle (n, LifeStopping op) (n, LifeIdle)"
| interrupted: "lifecycle (n, LifeActive a) (n + 1, LifeIdle)"
| refused: "l = LifeIdle \<or> (\<exists>op. l = LifeStopping op) \<Longrightarrow> lifecycle (n, l) (n + 1, l)"

inductive_simps lifecycle_idle: "lifecycle (n, LifeIdle) y"
inductive_simps lifecycle_starting: "lifecycle (n, LifeStarting op) y"
inductive_simps lifecycle_active: "lifecycle (n, LifeActive a) y"
inductive_simps lifecycle_stopping: "lifecycle (n, LifeStopping op) y"

lemmas lifecycle_simps = lifecycle_idle lifecycle_starting lifecycle_active lifecycle_stopping

fun life_of :: "service_state \<Rightarrow> life" where
  "life_of SvcIdle = LifeIdle"
| "life_of (SvcStarting op _) = LifeStarting op"
| "life_of (SvcActive a) = LifeActive a"
| "life_of (SvcStopping op) = LifeStopping op"

definition service_life :: "tunnel_service \<Rightarrow> u64 \<times> life" where
  "service_life s = (tsv_next s, life_of (tsv_state s))"

lemma life_of_reset:
  "lifecycle\<^sup>=\<^sup>= (n, life_of st) (n, life_of (if operation_id st = Some op then SvcIdle else st))"
  by (cases st) (auto simp: lifecycle_simps)

lemma service_life_same: "tsv_next s' = tsv_next s \<Longrightarrow> tsv_state s' = tsv_state s \<Longrightarrow> lifecycle\<^sup>=\<^sup>= (service_life s) (service_life s')"
  by (simp add: service_life_def)

lemma service_life_step: "lifecycle\<^sup>=\<^sup>= (service_life s) (service_life (tunnel_service_step s l))"
proof (cases l)
  case (SvcStartHost opts)
  then show ?thesis
    by (auto simp: start_host_def spawn_start_def begin_start_def next_operation_id_def service_life_def lifecycle_simps
        split: sum.split)
next
  case (SvcStartJoin opts)
  then show ?thesis
    by (auto simp: start_join_def spawn_start_def begin_start_def next_operation_id_def service_life_def lifecycle_simps
        split: sum.split)
next
  case (SvcAttach op)
  then show ?thesis by (cases "tsv_state s") (auto simp: attach_start_task_def service_life_def)
next
  case (SvcFinishStart op early)
  then show ?thesis
    by (cases "tsv_state s")
      (auto simp: finish_start_def service_life_def lifecycle_simps split: option.split start_task.split)
next
  case (SvcFailStart op)
  then show ?thesis
    using life_of_reset [of "tsv_next s" "tsv_state s" op]
    by (auto simp: fail_start_def service_life_def reset_state split: option.split start_task.split)
next
  case SvcStop
  then show ?thesis
    by (cases "tsv_state s") (auto simp: begin_stop_def next_operation_id_def service_life_def lifecycle_simps Let_def)
next
  case (SvcFinishStop op)
  then show ?thesis
    using life_of_reset [of "tsv_next s" "tsv_state s" op]
    by (auto simp: finish_stop_def service_life_def reset_state close_tunnel_def split: option.split)
next
  case SvcInterruptStop
  then show ?thesis
    by (cases "tsv_state s") (auto simp: interrupt_stop_def next_operation_id_def service_life_def lifecycle_simps)
next
  case (SvcReset op)
  then show ?thesis
    using life_of_reset [of "tsv_next s" "tsv_state s" op] by (auto simp: service_life_def reset_state)
qed (auto simp: service_life_def)

lemma active_not_idle:
  assumes "tsv_state s = SvcActive a" and "l \<noteq> SvcInterruptStop"
  shows "tsv_state (tunnel_service_step s l) \<noteq> SvcIdle"
  using assms
  by (cases l) (auto simp: start_host_def start_join_def spawn_start_def begin_start_def attach_start_task_def begin_stop_def
      next_operation_id_def finish_start_def fail_start_def finish_stop_def reset_state Let_def
      split: sum.split option.split start_task.split)

text \<open>
  C14. The service is one tunnel's life at a time: every run, whatever tasks interleave, is a run of
  the machine idle, starting, active, stopping, with a new id for each operation; in particular an
  active tunnel is never replaced by another one, nor left otherwise than by a stop, which publishes
  that it is stopping or, if its caller is dropped before, leaves the service idle.
\<close>

theorem service_refines_lifecycle:
  assumes "s = run_steps tunnel_service_step tunnel_service_new ls"
  shows "lifecycle\<^sup>*\<^sup>* (1, LifeIdle) (service_life s)
    \<and> (service_life (tunnel_service_step s l) = service_life s \<or> lifecycle (service_life s) (service_life (tunnel_service_step s l)))
    \<and> (tsv_state s = SvcActive a \<longrightarrow> tsv_state (tunnel_service_step s l) \<in> {SvcActive a, SvcStopping (tsv_next s)}
         \<or> l = SvcInterruptStop \<and> tsv_state (tunnel_service_step s l) = SvcIdle)"
proof (intro conjI impI)
  show "lifecycle\<^sup>*\<^sup>* (1, LifeIdle) (service_life s)"
    unfolding assms
  proof (induction ls rule: rev_induct)
    case Nil
    then show ?case by (simp add: service_life_def tunnel_service_new_def)
  next
    case (snoc k ls)
    then show ?case
      using service_life_step [of "run_steps tunnel_service_step tunnel_service_new ls" k]
      by (auto simp: run_steps_append simp del: tunnel_service_step.simps)
  qed
  show step: "service_life (tunnel_service_step s l) = service_life s \<or> lifecycle (service_life s) (service_life (tunnel_service_step s l))"
    using service_life_step [of s l] by auto
  assume a: "tsv_state s = SvcActive a"
  have "l = SvcInterruptStop \<or> tsv_state (tunnel_service_step s l) \<noteq> SvcIdle" using active_not_idle [OF a] by blast
  with a step show "tsv_state (tunnel_service_step s l) \<in> {SvcActive a, SvcStopping (tsv_next s)}
      \<or> l = SvcInterruptStop \<and> tsv_state (tunnel_service_step s l) = SvcIdle"
    by (cases "tsv_state (tunnel_service_step s l)") (auto simp: service_life_def lifecycle_simps simp del: tunnel_service_step.simps)
qed

section \<open>What is published\<close>

fun shows_state :: "service_state \<Rightarrow> tunnel_state \<Rightarrow> bool" where
  "shows_state SvcIdle t \<longleftrightarrow> t = tunnel_state_idle"
| "shows_state (SvcStarting _ _) t \<longleftrightarrow> t = tunnel_state_pending PhaseStarting HostMode \<or> t = tunnel_state_pending PhaseStarting JoinMode"
| "shows_state (SvcActive a) t \<longleftrightarrow> t = active_state a"
| "shows_state (SvcStopping _) t \<longleftrightarrow> t = tunnel_state_pending PhaseStopping HostMode \<or> t = tunnel_state_pending PhaseStopping JoinMode"

fun task_honest :: "start_task \<Rightarrow> bool" where
  "task_honest (TaskReady a st) \<longleftrightarrow> tu_state st = active_state a"
| "task_honest (TaskWriting _ _) \<longleftrightarrow> False"
| "task_honest _ \<longleftrightarrow> True"

definition published_ok :: "tunnel_service \<Rightarrow> bool" where
  "published_ok s \<longleftrightarrow> shows_state (tsv_state s) (tu_state (tsv_published s))
     \<and> (\<forall>op m t. svc_task s op = Some (m, t) \<longrightarrow> task_honest t)
     \<and> (\<forall>st. tsv_event_task s = Some st \<longrightarrow> (\<exists>a. tsv_state s = SvcActive a \<and> tu_state st = active_state a))"

lemma task_lookup [simp]:
  "svc_task (put_task op m t s) k = (if k = op then Some (m, t) else svc_task s k)"
  "svc_task (drop_task op s) k = (if k = op then None else svc_task s k)"
  "svc_task (svc_publish st s) k = svc_task s k" "svc_task (close_tunnel x s) k = svc_task s k"
  "svc_task (drop_guard op s) k = svc_task s k" "svc_task (reset_operation op s) k = svc_task s k"
  by (auto simp: svc_task_def svc_blocks delete_conv')

lemma block_views [simp]:
  "tsv_published (put_task op m t s) = tsv_published s" "tsv_published (drop_task op s) = tsv_published s"
  "tsv_published (close_tunnel x s) = tsv_published s" "tsv_published (drop_guard op s) = tsv_published s"
  "tsv_published (svc_publish st s) = st" "tsv_event_task (svc_publish st s) = tsv_event_task s"
  "tsv_event_task (put_task op m t s) = tsv_event_task s" "tsv_event_task (drop_task op s) = tsv_event_task s"
  "tsv_event_task (close_tunnel x s) = tsv_event_task s" "tsv_event_task (drop_guard op s) = tsv_event_task s"
  by (simp_all add: svc_blocks)

lemma pending_state [simp]: "tu_state (tunnel_status_pending p m) = tunnel_state_pending p m"
  "tu_state tunnel_status_idle = tunnel_state_idle"
  by (simp_all add: tunnel_status_pending_def tunnel_status_idle_def)

lemma shows_pending [simp]: "shows_state (SvcStarting op b) (tunnel_state_pending PhaseStarting m)"
  "shows_state (SvcStopping op) (tunnel_state_pending PhaseStopping m)"
  by (cases m; simp)+

lemma event_turn_state [simp]: "tu_state (event_turn ev st) = tu_state st"
  by (auto simp: event_turn_def split: tunnel_event.split)

lemma event_turns_state [simp]: "tu_state (fold event_turn evs st) = tu_state st"
  by (induction evs arbitrary: st) simp_all

lemma reset_published: "published_ok s \<Longrightarrow> published_ok (reset_operation op s)"
  by (cases "tsv_state s") (auto simp: published_ok_def reset_operation_def svc_task_def svc_publish_def)

lemma abort_published: "published_ok s \<Longrightarrow> published_ok (abort_task op s)"
  by (auto simp: abort_task_def published_ok_def split: option.split start_task.split if_splits)

lemma task_of_updates [simp]:
  "svc_task (s\<lparr>tsv_state := x\<rparr>) k = svc_task s k" "svc_task (s\<lparr>tsv_next := n\<rparr>) k = svc_task s k"
  "svc_task (s\<lparr>tsv_event_task := e\<rparr>) k = svc_task s k" "svc_task (s\<lparr>tsv_events := es\<rparr>) k = svc_task s k"
  "svc_task (s\<lparr>tsv_stopping := ss\<rparr>) k = svc_task s k" "svc_task (s\<lparr>tsv_resets := rs\<rparr>) k = svc_task s k"
  by (simp_all add: svc_task_def)

lemma finish_published:
  assumes "published_ok s"
  shows "published_ok (finish_start op early s)"
proof (cases "\<exists>m a st. svc_task s op = Some (m, TaskReady a st)")
  case True
  then obtain m a st where t: "svc_task s op = Some (m, TaskReady a st)" by blast
  then have "task_honest (TaskReady a st)" using assms unfolding published_ok_def by blast
  with t assms show ?thesis by (auto simp: finish_start_def published_ok_def split: if_splits)
next
  case False
  with assms show ?thesis by (auto simp: finish_start_def split: option.split start_task.split)
qed

lemma stop_published:
  assumes "published_ok s"
  shows "published_ok (snd (begin_stop s))"
proof (cases "tsv_state s")
  case (SvcStarting op att)
  define s2 where "s2 = s\<lparr>tsv_next := tsv_next s + 1, tsv_state := SvcIdle, tsv_published := tunnel_status_idle\<rparr>"
  have s2: "published_ok s2" using assms SvcStarting by (auto simp: s2_def published_ok_def svc_task_def)
  have "svc_publish tunnel_status_idle (s\<lparr>tsv_next := tsv_next s + 1, tsv_state := SvcIdle\<rparr>) = s2"
    by (simp add: s2_def svc_publish_def)
  moreover have "svc_publish st (abort_task op u) = abort_task op (svc_publish st u)" for st u
    by (auto simp: abort_task_def svc_blocks svc_task_def split: option.split start_task.split)
  ultimately show ?thesis
    using SvcStarting s2 abort_published [OF s2] by (simp add: begin_stop_def next_operation_id_def Let_def)
next
  case (SvcActive a)
  with assms show ?thesis
    by (cases "at_mode a") (auto simp: begin_stop_def next_operation_id_def published_ok_def)
qed (use assms in \<open>auto simp: begin_stop_def next_operation_id_def published_ok_def\<close>)

lemma report_published:
  assumes "published_ok s"
  shows "published_ok (publish_error_write op (publish_error_read op s))"
proof -
  have "\<not> (\<exists>m e st. svc_task s op = Some (m, TaskWriting e st))"
    using assms unfolding published_ok_def by (metis task_honest.simps(2))
  with assms show ?thesis
    by (auto simp: publish_error_read_def publish_error_write_def published_ok_def Let_def
        split: option.splits start_task.splits if_splits)
qed

text \<open>An error report that is interrupted between its read and its write, and a stop that is dropped before it publishes.\<close>

fun interrupting :: "service_step \<Rightarrow> bool" where
  "interrupting (SvcReportRead _) \<longleftrightarrow> True"
| "interrupting (SvcReportWrite _) \<longleftrightarrow> True"
| "interrupting SvcInterruptStop \<longleftrightarrow> True"
| "interrupting _ \<longleftrightarrow> False"

lemma published_step:
  assumes ok: "published_ok s" and l: "\<not> interrupting l"
  shows "published_ok (tunnel_service_step s l)"
proof (cases l)
  case (SvcStartHost opts)
  with ok show ?thesis
    by (auto simp: start_host_def spawn_start_def begin_start_def next_operation_id_def published_ok_def svc_publish_def
        svc_task_def put_task_def delete_conv' split: sum.split if_splits)
next
  case (SvcStartJoin opts)
  with ok show ?thesis
    by (auto simp: start_join_def spawn_start_def begin_start_def next_operation_id_def published_ok_def svc_publish_def
        svc_task_def put_task_def delete_conv' split: sum.split if_splits)
next
  case (SvcAttach op)
  have "published_ok (attach_start_task op s)"
  proof (cases "matches_starting (tsv_state s) op")
    case True
    with ok show ?thesis by (cases "tsv_state s") (auto simp: attach_start_task_def published_ok_def svc_task_def)
  qed (simp add: attach_start_task_def abort_published [OF ok])
  with SvcAttach show ?thesis by simp
next
  case (SvcComplete op result conns)
  have "svc_task (s\<lparr>tsv_tunnel_next := k\<rparr>) = svc_task s" for k by (simp add: svc_task_def fun_eq_iff)
  with SvcComplete ok show ?thesis
    by (auto simp: complete_start_def Let_def active_status_def and_then_Inr published_ok_def
        split: option.split start_task.split sum.split if_splits)
next
  case (SvcFinishStart op early)
  with finish_published [OF ok] show ?thesis by simp
next
  case (SvcFailStart op)
  with ok reset_published [OF ok, of op] show ?thesis
    by (auto simp: fail_start_def published_ok_def split: option.split start_task.split if_splits)
next
  case (SvcReport op)
  with report_published [OF ok] show ?thesis by simp
next
  case SvcStop
  with stop_published [OF ok] show ?thesis by simp
next
  case (SvcFinishStop op)
  have "published_ok (close_tunnel t (s\<lparr>tsv_stopping := xs\<rparr>))" for t xs
    using ok by (simp add: published_ok_def close_tunnel_def svc_task_def)
  with SvcFinishStop ok show ?thesis by (simp add: finish_stop_def reset_published split: option.split)
next
  case (SvcCancelStop op)
  with ok show ?thesis by (simp add: cancel_stop_def published_ok_def svc_blocks svc_task_def split: option.split)
next
  case (SvcReset op)
  have "published_ok (s\<lparr>tsv_resets := xs\<rparr>)" for xs using ok by (simp add: published_ok_def svc_task_def)
  with SvcReset ok show ?thesis by (simp add: reset_published)
next
  case (SvcRefresh conns)
  with ok show ?thesis
    by (auto simp: refresh_connections_def Let_def published_ok_def svc_publish_def svc_task_def split: option.split sum.split)
next
  case (SvcForward ev)
  with ok show ?thesis
    by (auto simp: forward_event_def Let_def published_ok_def svc_publish_def svc_task_def split: option.split)
qed (use l in simp_all)

lemma published_new: "published_ok tunnel_service_new"
  by (simp add: published_ok_def tunnel_service_new_def svc_task_def)

text \<open>
  C21. The published status is the state: as long as no error report is interrupted and no stop is
  dropped while it waits for the event task, after every sequence of calls, start tasks, stops,
  refreshes and events the status a subscriber reads is idle when the service is, shows the phase and
  no URI or address while it starts or stops, and while a tunnel is active exactly that tunnel's mode,
  URI and address; nothing shows a tunnel that is gone.
\<close>

theorem published_status_is_current:
  assumes "s = run_steps tunnel_service_step tunnel_service_new ls" and "\<forall>l \<in> set ls. \<not> interrupting l"
  shows "case tsv_state s of
      SvcIdle \<Rightarrow> tu_state (tsv_published s) = tunnel_state_idle
    | SvcStarting _ _ \<Rightarrow> \<exists>m. tu_state (tsv_published s) = tunnel_state_pending PhaseStarting m
    | SvcActive a \<Rightarrow> tu_state (tsv_published s) = \<lparr>tn_phase = PhaseActive, tn_mode = Some (at_mode a),
        tn_join_uri = at_join_uri a, tn_local_addr = at_local_addr a\<rparr>
    | SvcStopping _ \<Rightarrow> \<exists>m. tu_state (tsv_published s) = tunnel_state_pending PhaseStopping m"
proof -
  have "published_ok s" unfolding assms(1)
    using assms(2)
  proof (induction ls rule: rev_induct)
    case (snoc l ls)
    then have "\<not> interrupting l" by simp
    with snoc show ?case by (simp add: run_steps_append published_step del: tunnel_service_step.simps)
  qed (simp add: published_new)
  then have "shows_state (tsv_state s) (tu_state (tsv_published s))" by (simp add: published_ok_def)
  then show ?thesis by (cases "tsv_state s") (auto simp: active_state_def)
qed

section \<open>On a concrete run\<close>

definition demo_join :: join_options where
  "demo_join = join_options_new
     \<lparr>ju_endpoint_id = endpoint_filled 1, ju_service_id = service_filled 2, ju_token = token_filled 3, ju_relay_url = None\<rparr>"

text \<open>A join that is cancelled before its tunnel is up, and a second one that becomes active.\<close>

definition demo_calls :: "service_step list" where
  "demo_calls = [SvcStartJoin demo_join, SvcAttach 1, SvcComplete 1 (Inr (None, None)) (Inr []), SvcStop,
     SvcStartJoin demo_join, SvcAttach 3, SvcComplete 3 (Inr (None, None)) (Inr []), SvcFinishStart 3 []]"

lemmas service_eval = demo_calls_def tunnel_service_new_def start_join_def validate_join_options_def spawn_start_def
  begin_start_def next_operation_id_def attach_start_task_def complete_start_def active_status_def and_then_Inr
  begin_stop_def abort_task_def finish_start_def svc_blocks svc_task_def AList.delete_eq Let_def

definition demo_service :: tunnel_service where
  "demo_service = run_steps tunnel_service_step tunnel_service_new demo_calls"

lemma demo_service_fields:
  "tsv_tunnel_next demo_service = 2" "tsv_closed demo_service = [0]"
  "\<exists>a. tsv_state demo_service = SvcActive a \<and> at_tunnel a = 1 \<and> at_mode a = JoinMode"
  by (simp_all add: demo_service_def service_eval)

lemma demo_calls_short: "length demo_calls < 2 ^ 64 - 2" by (simp add: demo_calls_def)

theorem tunnels_are_conserved_witness:
  "distinct (active_tunnels demo_service @ tsv_closed demo_service) \<and> tsv_event_task demo_service \<noteq> None"
  using tunnels_are_conserved [OF demo_service_def demo_calls_short] demo_service_fields by auto

definition demo_starting :: tunnel_service where
  "demo_starting = run_steps tunnel_service_step tunnel_service_new (take 3 demo_calls)"

lemma demo_starting_state: "tsv_state demo_starting = SvcStarting 1 True"
  by (simp add: demo_starting_def service_eval numeral_3_eq_3)

theorem operations_end_witness:
  "let s' = run_steps tunnel_service_step demo_starting
      [SvcComplete 1 (Inl (TunnelErr AuthTimedOut)) (Inr []), SvcFinishStart 1 [], SvcFailStart 1, SvcReset 1]
   in tsv_state s' = SvcIdle \<or> (\<exists>a. tsv_state s' = SvcActive a)"
  using operations_end [OF demo_starting_def] demo_starting_state by (simp add: demo_calls_def)

theorem cancelled_start_cannot_return_witness:
  "operation_id (tsv_state (run_steps tunnel_service_step demo_starting
     (SvcStop # [SvcStartJoin demo_join, SvcComplete 1 (Inr (None, None)) (Inr []), SvcFinishStart 1 []]))) \<noteq> Some 1"
  using cancelled_start_cannot_return [OF demo_starting_def demo_starting_state refl,
      of "[SvcStartJoin demo_join, SvcComplete 1 (Inr (None, None)) (Inr []), SvcFinishStart 1 []]"]
  by (simp add: demo_calls_def del: tunnel_service_step.simps)

theorem service_refines_lifecycle_witness:
  "\<exists>a. tsv_state demo_service = SvcActive a
     \<and> tsv_state (tunnel_service_step demo_service (SvcStartJoin demo_join)) \<in> {SvcActive a, SvcStopping (tsv_next demo_service)}"
  using service_refines_lifecycle [OF demo_service_def, where l = "SvcStartJoin demo_join"] demo_service_fields(3) by blast

theorem published_status_is_current_witness: "tn_phase (tu_state (tsv_published demo_service)) = PhaseActive"
proof -
  have "\<forall>l \<in> set demo_calls. \<not> interrupting l" by (simp add: demo_calls_def)
  from published_status_is_current [OF demo_service_def this] demo_service_fields(3) show ?thesis
    by auto
qed

text \<open>
  An interrupted report brings back an old status: the first join has failed and its report has
  read the status; a second join is then started and becomes active, the report goes on, and what
  is published is that the service is starting.
\<close>

lemma interrupted_report_shows_old_state:
  "let s = run_steps tunnel_service_step tunnel_service_new
       [SvcStartJoin demo_join, SvcAttach 1, SvcComplete 1 (Inl (TunnelErr AuthTimedOut)) (Inr []), SvcFailStart 1,
        SvcStartJoin demo_join, SvcReportRead 1, SvcComplete 2 (Inr (None, None)) (Inr []), SvcFinishStart 2 [],
        SvcReportWrite 1]
   in (\<exists>a. tsv_state s = SvcActive a) \<and> tn_phase (tu_state (tsv_published s)) = PhaseStarting"
  by (simp add: service_eval fail_start_def reset_operation_def publish_error_read_def publish_error_write_def
      tunnel_status_pending_def tunnel_state_pending_def)

text \<open>A stop that is dropped while it waits leaves an idle service whose status is the active one.\<close>

lemma interrupted_stop_shows_active:
  "let s = run_steps tunnel_service_step tunnel_service_new
       [SvcStartJoin demo_join, SvcAttach 1, SvcComplete 1 (Inr (None, None)) (Inr []), SvcFinishStart 1 [], SvcInterruptStop]
   in tsv_state s = SvcIdle \<and> tsv_closed s = [0] \<and> tn_phase (tu_state (tsv_published s)) = PhaseActive"
  by (simp add: service_eval interrupt_stop_def active_state_def)

text \<open>An error that the event task forwards before \<open>finish_start\<close> publishes is not in the published status.\<close>

lemma early_error_is_not_published:
  "let s = run_steps tunnel_service_step tunnel_service_new
       [SvcStartJoin demo_join, SvcAttach 1, SvcComplete 1 (Inr (None, None)) (Inr []),
        SvcFinishStart 1 [EventError CatInternal ''x''], SvcForward (EventError CatInternal ''x'')]
   in tu_last_error (tsv_published s) = None \<and> length (tsv_events s) = 2"
  by (simp add: service_eval event_turn_def forward_event_def)

end
