(* ===== verification/File_Store.thy ===== *)
theory File_Store
  imports Sculk_Errors
begin

text \<open>
  The file system as the persistence code uses it: files with a mode and their bytes, the
  directories that exist, and the system calls. A call may fail for any reason the system
  decides: \<open>os_fault\<close> gives the error of a call, if it fails, and \<open>os_written\<close> how many bytes a
  failing \<^verbatim>\<open>write_all\<close> had written. \<open>os_random\<close> are the \<^verbatim>\<open>u64\<close>s an operation draws for its
  temporary names. Also the path functions of \<^verbatim>\<open>std\<close> the code uses, and the contract of an
  atomic replacement that the key file, the profile and the Host state satisfy.
\<close>

section \<open>Paths\<close>

definition is_sep :: "char \<Rightarrow> bool" where "is_sep c \<longleftrightarrow> c = CHR ''/''"

text \<open>\<^verbatim>\<open>Path::file_name\<close>: the last component, unless there is none or it is \<^verbatim>\<open>..\<close>.\<close>

definition path_file_name :: "path \<Rightarrow> string option" where
  "path_file_name p =
     (let name = takeWhile (\<lambda>c. \<not> is_sep c) (dropWhile is_sep (rev p))
      in if name = [] \<or> name = ''..'' then None else Some (rev name))"

text \<open>\<^verbatim>\<open>Path::parent\<close>: \<^verbatim>\<open>None\<close> for the root and the empty path.\<close>

definition path_parent :: "path \<Rightarrow> path option" where
  "path_parent p =
     (let r = dropWhile is_sep (rev p);
          above = dropWhile (\<lambda>c. \<not> is_sep c) r;
          dir = dropWhile is_sep above
      in if r = [] then None
         else if dir = [] \<and> above \<noteq> [] then Some ''/'' else Some (rev dir))"

definition parent_dir :: "path \<Rightarrow> path" where
  "parent_dir p =
     (case path_parent p of None \<Rightarrow> ''.'' | Some d \<Rightarrow> if d = [] then ''.'' else d)"

definition path_join :: "path \<Rightarrow> string \<Rightarrow> path" where
  "path_join d name =
     (if d = [] \<or> is_sep (last d) then d @ name else d @ ''/'' @ name)"

definition hex_digit :: "nat \<Rightarrow> char" where "hex_digit n = ''0123456789abcdef'' ! (n mod 16)"

fun hex_pad :: "nat \<Rightarrow> nat \<Rightarrow> string" where
  "hex_pad 0 n = []"
| "hex_pad (Suc k) n = hex_pad k (n div 16) @ [hex_digit n]"

text \<open>\<^verbatim>\<open>format!(".{:016x}.tmp", r)\<close> after the target's own name and a leading dot.\<close>

definition temp_name :: "string \<Rightarrow> path \<Rightarrow> u64 \<Rightarrow> string" where
  "temp_name fallback p r =
     ''.'' @ (case path_file_name p of None \<Rightarrow> fallback | Some n \<Rightarrow> n)
     @ ''.'' @ hex_pad 16 (unat r) @ ''.tmp''"

definition temp_path :: "string \<Rightarrow> path \<Rightarrow> u64 \<Rightarrow> path" where
  "temp_path fallback p r = path_join (parent_dir p) (temp_name fallback p r)"

lemma hex_digit_no_sep: "\<not> is_sep (hex_digit n)"
proof -
  have "list_all (\<lambda>k. \<not> is_sep (''0123456789abcdef'' ! k)) [0..<16]" by code_simp
  then show ?thesis by (simp add: hex_digit_def list_all_iff)
qed

lemma hex_pad_no_sep: "c \<in> set (hex_pad k n) \<Longrightarrow> \<not> is_sep c"
  by (induction k arbitrary: n) (auto simp: hex_digit_no_sep)

lemma length_hex_pad [simp]: "length (hex_pad k n) = k"
  by (induction k arbitrary: n) auto

lemma file_name_no_sep: "path_file_name p = Some n \<Longrightarrow> c \<in> set n \<Longrightarrow> \<not> is_sep c"
  by (auto simp: path_file_name_def Let_def split: if_splits dest: set_takeWhileD)

lemma takeWhile_rev_name:
  assumes "\<forall>c\<in>set name. \<not> is_sep c" "name \<noteq> []"
  shows "takeWhile (\<lambda>c. \<not> is_sep c) (dropWhile is_sep (rev (path_join d name))) = rev name"
proof -
  obtain c cs where rn: "rev name = c # cs" using assms(2) by (cases "rev name") auto
  then have "c \<in> set name" by (metis list.set_intros(1) set_rev)
  then have c: "\<not> is_sep c" using assms(1) by blast
  have cs: "\<forall>x\<in>set (c # cs). \<not> is_sep x" using assms(1) rn by (metis set_rev)
  have sep: "is_sep (CHR ''/'')" by (simp add: is_sep_def)
  show ?thesis
  proof (cases "d = [] \<or> is_sep (last d)")
    case False
    then show ?thesis using rn c cs sep by (simp add: path_join_def takeWhile_append2)
  next
    case True
    then have "takeWhile (\<lambda>c. \<not> is_sep c) (rev d) = []"
      by (cases d rule: rev_cases) auto
    with True show ?thesis using rn c cs by (simp add: path_join_def takeWhile_append2)
  qed
qed

lemma file_name_join:
  assumes "\<forall>c\<in>set name. \<not> is_sep c" "2 < length name"
  shows "path_file_name (path_join d name) = Some name"
proof -
  have "name \<noteq> []" "rev name \<noteq> ''..''" using assms(2) by (auto dest: arg_cong [of _ _ length])
  with takeWhile_rev_name [OF assms(1)] show ?thesis by (simp add: path_file_name_def)
qed

text \<open>A temporary file is never the target itself.\<close>

lemma temp_path_neq:
  assumes "\<forall>c\<in>set fallback. \<not> is_sep c"
  shows "temp_path fallback p r \<noteq> p"
proof
  assume eq: "temp_path fallback p r = p"
  define base where "base = (case path_file_name p of None \<Rightarrow> fallback | Some n \<Rightarrow> n)"
  have "\<forall>c\<in>set base. \<not> is_sep c"
    using assms file_name_no_sep by (auto simp: base_def split: option.splits)
  then have "\<forall>c\<in>set (temp_name fallback p r). \<not> is_sep c"
    by (auto simp: temp_name_def base_def [symmetric] is_sep_def dest: hex_pad_no_sep [unfolded is_sep_def])
  then have "path_file_name (temp_path fallback p r) = Some (temp_name fallback p r)"
    unfolding temp_path_def by (rule file_name_join) (simp add: temp_name_def)
  with eq have fn: "path_file_name p = Some (temp_name fallback p r)" by simp
  then have "length (temp_name fallback p r) = length (temp_name fallback p r) + 22"
    by (subst temp_name_def) simp
  then show False by simp
qed

section \<open>Files and system calls\<close>

datatype file_mode = OwnerOnly | DefaultMode

record inode =
  f_mode :: file_mode
  f_data :: bytes

record fs =
  fs_files :: "path \<Rightarrow> inode option"
  fs_dirs :: "path set"

datatype fs_call =
    ReadFile path | CreateDirs path | CreateNew path | WriteAll path | SyncAll path
  | HardLink path path | Rename path path | SyncDir path | RemoveFile path

record os =
  os_fault :: "fs_call \<Rightarrow> io_error option"
  os_written :: nat
  os_random :: "nat \<Rightarrow> u64"

type_synonym 'a io = "fs \<Rightarrow> (io_error + 'a) \<times> fs"

definition io_err :: "io_error_kind \<Rightarrow> string \<Rightarrow> io_error" where
  "io_err k t = \<lparr>io_kind = k, io_text = t\<rparr>"

definition fs_put :: "path \<Rightarrow> inode option \<Rightarrow> fs \<Rightarrow> fs" where
  "fs_put p f s = s\<lparr>fs_files := (fs_files s)(p := f)\<rparr>"

definition fs_data :: "fs \<Rightarrow> path \<Rightarrow> bytes option" where
  "fs_data s p = map_option f_data (fs_files s p)"

definition sys_read :: "os \<Rightarrow> path \<Rightarrow> bytes io" where
  "sys_read os p s =
     (case os_fault os (ReadFile p) of
        Some e \<Rightarrow> (Inl e, s)
      | None \<Rightarrow> case fs_files s p of
          None \<Rightarrow> (Inl (io_err NotFound ''No such file or directory''), s)
        | Some f \<Rightarrow> (Inr (f_data f), s))"

definition sys_create_dirs :: "os \<Rightarrow> path \<Rightarrow> unit io" where
  "sys_create_dirs os d s =
     (case os_fault os (CreateDirs d) of
        Some e \<Rightarrow> (Inl e, s)
      | None \<Rightarrow> (Inr (), s\<lparr>fs_dirs := insert d (fs_dirs s)\<rparr>))"

definition sys_create_new :: "os \<Rightarrow> file_mode \<Rightarrow> path \<Rightarrow> unit io" where
  "sys_create_new os m p s =
     (case os_fault os (CreateNew p) of
        Some e \<Rightarrow> (Inl e, s)
      | None \<Rightarrow>
          if fs_files s p \<noteq> None then (Inl (io_err AlreadyExists ''File exists''), s)
          else (Inr (), fs_put p (Some \<lparr>f_mode = m, f_data = []\<rparr>) s))"

text \<open>A failing write leaves what had been written.\<close>

definition sys_write_all :: "os \<Rightarrow> path \<Rightarrow> bytes \<Rightarrow> unit io" where
  "sys_write_all os p data s =
     (case fs_files s p of
        None \<Rightarrow> (Inl (io_err NotFound ''No such file or directory''), s)
      | Some f \<Rightarrow>
          (case os_fault os (WriteAll p) of
             Some e \<Rightarrow> (Inl e, fs_put p (Some (f\<lparr>f_data := f_data f @ take (os_written os) data\<rparr>)) s)
           | None \<Rightarrow> (Inr (), fs_put p (Some (f\<lparr>f_data := f_data f @ data\<rparr>)) s)))"

definition sys_sync_all :: "os \<Rightarrow> path \<Rightarrow> unit io" where
  "sys_sync_all os p s =
     (case os_fault os (SyncAll p) of Some e \<Rightarrow> (Inl e, s) | None \<Rightarrow> (Inr (), s))"

definition sys_hard_link :: "os \<Rightarrow> path \<Rightarrow> path \<Rightarrow> unit io" where
  "sys_hard_link os src dst s =
     (case os_fault os (HardLink src dst) of
        Some e \<Rightarrow> (Inl e, s)
      | None \<Rightarrow>
          if fs_files s dst \<noteq> None then (Inl (io_err AlreadyExists ''File exists''), s)
          else if fs_files s src = None then (Inl (io_err NotFound ''No such file or directory''), s)
          else (Inr (), fs_put dst (fs_files s src) s))"

definition sys_rename :: "os \<Rightarrow> path \<Rightarrow> path \<Rightarrow> unit io" where
  "sys_rename os src dst s =
     (case os_fault os (Rename src dst) of
        Some e \<Rightarrow> (Inl e, s)
      | None \<Rightarrow>
          if fs_files s src = None then (Inl (io_err NotFound ''No such file or directory''), s)
          else (Inr (), fs_put src None (fs_put dst (fs_files s src) s)))"

text \<open>\<^verbatim>\<open>File::open(parent).and_then(|dir| dir.sync_all())\<close>.\<close>

definition sys_sync_dir :: "os \<Rightarrow> path \<Rightarrow> unit io" where
  "sys_sync_dir os d s =
     (case os_fault os (SyncDir d) of
        Some e \<Rightarrow> (Inl e, s)
      | None \<Rightarrow> if d \<in> fs_dirs s then (Inr (), s)
                else (Inl (io_err NotFound ''No such file or directory''), s))"

text \<open>The \<^verbatim>\<open>Drop\<close> of the temporary-file guards: \<^verbatim>\<open>let _ = remove_file(path)\<close>.\<close>

definition drop_temp :: "os \<Rightarrow> path \<Rightarrow> fs \<Rightarrow> fs" where
  "drop_temp os p s =
     (case os_fault os (RemoveFile p) of Some e \<Rightarrow> s | None \<Rightarrow> fs_put p None s)"

section \<open>Sequencing\<close>

type_synonym 'a fio = "fs \<Rightarrow> (persist_error + 'a) \<times> fs"

definition fio_then :: "'a fio \<Rightarrow> ('a \<Rightarrow> 'b fio) \<Rightarrow> 'b fio" where
  "fio_then m k s = (case m s of (Inl e, s') \<Rightarrow> (Inl e, s') | (Inr a, s') \<Rightarrow> k a s')"

definition fio_return :: "'a \<Rightarrow> 'a fio" where
  "fio_return a s = (Inr a, s)"

definition fio_fail :: "persist_error \<Rightarrow> 'a fio" where
  "fio_fail e s = (Inl e, s)"

text \<open>\<^verbatim>\<open>map_err(|source| PersistError::PathIo { op, path, source })\<close>.\<close>

definition path_io :: "string \<Rightarrow> path \<Rightarrow> 'a io \<Rightarrow> 'a fio" where
  "path_io op p m s = (case m s of (Inl e, s') \<Rightarrow> (Inl (PathIo op p e), s') | (Inr a, s') \<Rightarrow> (Inr a, s'))"

text \<open>A guard is dropped however its scope is left.\<close>

definition with_temp :: "os \<Rightarrow> path \<Rightarrow> 'a fio \<Rightarrow> 'a fio" where
  "with_temp os p m s = (case m s of (r, s') \<Rightarrow> (r, drop_temp os p s'))"

text \<open>
  The loop that looks for a free temporary name: an existing name draws again, another error
  ends the search, and after the last attempt the collision error is reported.
\<close>

definition TEMP_CREATE_ATTEMPTS_MAX :: nat where "TEMP_CREATE_ATTEMPTS_MAX = 16"

fun create_temp ::
  "os \<Rightarrow> file_mode \<Rightarrow> string \<Rightarrow> string \<Rightarrow> (u64 \<Rightarrow> path) \<Rightarrow> path \<Rightarrow> nat \<Rightarrow> nat \<Rightarrow> path fio" where
  "create_temp os m op limit temp p i 0 s =
     (Inl (PathIo op p (io_err AlreadyExists limit)), s)"
| "create_temp os m op limit temp p i (Suc n) s =
     (case sys_create_new os m (temp (os_random os i)) s of
        (Inr _, s') \<Rightarrow> (Inr (temp (os_random os i)), s')
      | (Inl e, s') \<Rightarrow>
          if io_kind e = AlreadyExists then create_temp os m op limit temp p (Suc i) n s'
          else (Inl (PathIo op (temp (os_random os i)) e), s'))"

definition sync_parent :: "os \<Rightarrow> string \<Rightarrow> path \<Rightarrow> unit fio" where
  "sync_parent os op d = path_io op d (sys_sync_dir os d)"

section \<open>What the calls do\<close>

lemma fs_put_files [simp, store_simps]:
  "fs_files (fs_put p f s) q = (if q = p then f else fs_files s q)"
  "fs_dirs (fs_put p f s) = fs_dirs s"
  by (simp_all add: fs_put_def)

lemmas sys_defs = sys_read_def sys_create_dirs_def sys_create_new_def sys_write_all_def
  sys_sync_all_def sys_hard_link_def sys_rename_def sys_sync_dir_def

lemmas fio_defs = fio_then_def fio_return_def fio_fail_def path_io_def with_temp_def

lemma path_io_Inl: "path_io op p m s = (Inl e, s') \<longleftrightarrow> (\<exists>src. m s = (Inl src, s') \<and> e = PathIo op p src)"
  by (auto simp: path_io_def split: prod.splits sum.splits)

lemma path_io_Inr: "path_io op p m s = (Inr a, s') \<longleftrightarrow> m s = (Inr a, s')"
  by (auto simp: path_io_def split: prod.splits sum.splits)

lemma fio_then_Inr:
  "fio_then m k s = (Inr b, s') \<longleftrightarrow> (\<exists>a s1. m s = (Inr a, s1) \<and> k a s1 = (Inr b, s'))"
  by (auto simp: fio_then_def split: prod.splits sum.splits)

lemma fio_then_Inl:
  "fio_then m k s = (Inl e, s') \<longleftrightarrow>
     m s = (Inl e, s') \<or> (\<exists>a s1. m s = (Inr a, s1) \<and> k a s1 = (Inl e, s'))"
  by (auto simp: fio_then_def split: prod.splits sum.splits)

lemma with_temp_eq:
  "with_temp os t m s = (r, s') \<longleftrightarrow> (\<exists>s1. m s = (r, s1) \<and> s' = drop_temp os t s1)"
  by (auto simp: with_temp_def split: prod.splits)

lemmas fio_elims = path_io_Inl path_io_Inr fio_then_Inr fio_then_Inl with_temp_eq

lemma create_temp_Inr:
  "create_temp os m op limit temp p i n s = (Inr t, s') \<Longrightarrow>
     fs_files s t = None \<and> (\<exists>j. t = temp (os_random os j))
     \<and> s' = fs_put t (Some \<lparr>f_mode = m, f_data = []\<rparr>) s"
  by (induction n arbitrary: i s)
    (auto simp: sys_create_new_def split: option.splits sum.splits prod.splits if_splits)

lemma create_temp_Inl:
  "create_temp os m op limit temp p i n s = (Inl e, s') \<Longrightarrow>
     s' = s \<and> (\<exists>q src. e = PathIo op q src)"
  by (induction n arbitrary: i s)
    (auto simp: sys_create_new_def split: option.splits sum.splits prod.splits if_splits)

text \<open>Without faults, a free name among the draws is found.\<close>

lemma create_temp_finds:
  "\<lbrakk>\<forall>q. os_fault os (CreateNew q) = None; i \<le> j; j < i + n; fs_files s (temp (os_random os j)) = None\<rbrakk> \<Longrightarrow>
     \<exists>t s'. create_temp os m op limit temp p i n s = (Inr t, s')"
proof (induction n arbitrary: i)
  case (Suc n)
  show ?case
  proof (cases "fs_files s (temp (os_random os i)) = None")
    case True
    with Suc.prems(1) show ?thesis by (simp add: sys_create_new_def)
  next
    case False
    with Suc.prems have "Suc i \<le> j" "j < Suc i + n" by (auto simp: le_less)
    with Suc.IH [of "Suc i"] Suc.prems False show ?thesis
      by (simp add: sys_create_new_def io_err_def)
  qed
qed simp

section \<open>The contract of an atomic replacement\<close>

text \<open>
  What \<^verbatim>\<open>generate_new_key\<close>, \<^verbatim>\<open>save_to\<close> and \<^verbatim>\<open>save_host_state\<close> promise of the file they write:
  on success it holds the data, on failure it is what it was or holds the data completely, and,
  as long as a temporary file can be removed, no other file is touched.
\<close>

locale atomic_writer =
  fixes put :: "os \<Rightarrow> path \<Rightarrow> 'a \<Rightarrow> unit fio"
    and image :: "'a \<Rightarrow> inode"
  assumes write_ok: "put os p x s = (Inr (), s') \<Longrightarrow> fs_files s' p = Some (image x)"
    and write_atomic: "put os p x s = (r, s') \<Longrightarrow>
      fs_files s' p = fs_files s p \<or> fs_files s' p = Some (image x)"
    and write_frame: "\<lbrakk>put os p x s = (r, s'); \<forall>q. os_fault os (RemoveFile q) = None; q \<noteq> p\<rbrakk> \<Longrightarrow>
      fs_files s' q = fs_files s q"
begin

lemma write_then_read:
  assumes "put os p x s = (Inr (), s')" and "os_fault os' (ReadFile p) = None"
  shows "sys_read os' p s' = (Inr (f_data (image x)), s')"
  using write_ok [OF assms(1)] assms(2) by (simp add: sys_read_def)

lemma write_whole_store:
  assumes "put os p x s = (r, s')" "\<forall>q. os_fault os (RemoveFile q) = None"
  shows "fs_files s' = fs_files s \<or> fs_files s' = (fs_files s)(p \<mapsto> image x)"
  using write_atomic [OF assms(1)] write_frame [OF assms]
  by (metis fun_upd_other fun_upd_same fun_upd_triv ext)

lemma writes_last_wins:
  assumes "put os p x s = (Inr (), s')" "put os' p y s' = (Inr (), s'')"
  shows "fs_files s'' p = Some (image y)"
  using write_ok [OF assms(2)] .

end

text \<open>The steps every replacement is made of, from a fresh temporary file on.\<close>

lemma write_all_spec:
  assumes "fs_files s t = Some \<lparr>f_mode = m, f_data = []\<rparr>" "sys_write_all os t data s = (r, s')"
  shows "\<exists>d. s' = fs_put t (Some \<lparr>f_mode = m, f_data = d\<rparr>) s \<and> (r = Inr () \<longrightarrow> d = data)"
  using assms by (auto simp: sys_write_all_def split: option.splits)

lemma sync_all_spec: "sys_sync_all os t s = (r, s') \<Longrightarrow> s' = s"
  by (auto simp: sys_sync_all_def split: option.splits)

lemma sync_parent_spec: "sync_parent os op d s = (r, s') \<Longrightarrow> s' = s"
  by (auto simp: sync_parent_def path_io_def sys_sync_dir_def split: option.splits if_splits)

lemma rename_spec:
  assumes "fs_files s t = Some f" "sys_rename os t p s = (r, s')"
  shows "(r = Inr () \<and> s' = fs_put t None (fs_put p (Some f) s)) \<or> ((\<exists>e. r = Inl e) \<and> s' = s)"
  using assms by (auto simp: sys_rename_def split: option.splits)

lemma create_dirs_files: "sys_create_dirs os d s = (r, s') \<Longrightarrow> fs_files s' = fs_files s"
  by (auto simp: sys_create_dirs_def split: option.splits)

lemma drop_temp_files:
  "fs_files (drop_temp os t s) q =
     (if q = t \<and> os_fault os (RemoveFile t) = None then None else fs_files s q)"
  by (auto simp: drop_temp_def split: option.splits)

text \<open>A finished temporary file: only it differs from the store before, and it is complete.\<close>

definition temp_written :: "path \<Rightarrow> inode \<Rightarrow> fs \<Rightarrow> fs \<Rightarrow> bool" where
  "temp_written t f s s' \<longleftrightarrow> fs_files s t = None \<and> fs_files s' = (fs_files s)(t \<mapsto> f)"

text \<open>An abandoned temporary file: only it may differ, and it is gone unless removal fails.\<close>

definition temp_dropped :: "os \<Rightarrow> path \<Rightarrow> fs \<Rightarrow> fs \<Rightarrow> bool" where
  "temp_dropped os t s s' \<longleftrightarrow>
     fs_files s t = None \<and> (\<forall>q. q \<noteq> t \<longrightarrow> fs_files s' q = fs_files s q)
     \<and> (os_fault os (RemoveFile t) = None \<longrightarrow> fs_files s' t = None)"

lemma temp_dropped_frame:
  "temp_dropped os t s s' \<Longrightarrow> \<forall>q. os_fault os (RemoveFile q) = None \<Longrightarrow> fs_files s' = fs_files s"
  by (rule ext) (metis temp_dropped_def)

lemma temp_dropped_other: "temp_dropped os t s s' \<Longrightarrow> q \<noteq> t \<Longrightarrow> fs_files s' q = fs_files s q"
  by (simp add: temp_dropped_def)

text \<open>
  The two halves every replacement shares: reaching a fresh temporary file, and moving it over
  the target.
\<close>

definition fresh_temp :: "path \<Rightarrow> path \<Rightarrow> file_mode \<Rightarrow> fs \<Rightarrow> fs \<Rightarrow> bool" where
  "fresh_temp p t m s s' \<longleftrightarrow>
     t \<noteq> p \<and> fs_files s t = None \<and> fs_files s' = (fs_files s)(t \<mapsto> \<lparr>f_mode = m, f_data = []\<rparr>)"

lemma staging_cases:
  assumes run: "fio_then (path_io opd d (sys_create_dirs os d)) (\<lambda>_.
      fio_then (create_temp os m op limit temp p i n) K) s = (r, s')"
    and neq: "\<forall>w. temp w \<noteq> p"
  obtains (early) e where "r = Inl e" "fs_files s' = fs_files s"
  | (fresh) t s2 where "fresh_temp p t m s s2" "K t s2 = (r, s')"
proof -
  obtain r1 s1 where dir: "sys_create_dirs os d s = (r1, s1)" by force
  note d = create_dirs_files [OF dir]
  obtain r2 s2 where new: "create_temp os m op limit temp p i n s1 = (r2, s2)" by force
  show thesis
  proof (cases r1)
    case (Inl e)
    with run dir d show thesis
      by (intro early) (auto simp: fio_then_def path_io_def)
  next
    case r1: (Inr u)
    show thesis
    proof (cases r2)
      case (Inl e)
      with create_temp_Inl new have "s2 = s1" by blast
      with run dir r1 new Inl d show thesis
        by (intro early) (auto simp: fio_then_def path_io_def)
    next
      case (Inr t)
      from create_temp_Inr [OF new [unfolded Inr]] neq d have "fresh_temp p t m s s2"
        by (auto simp: fresh_temp_def fun_eq_iff)
      moreover have "K t s2 = (r, s')"
        using run dir r1 new Inr by (simp add: fio_then_def path_io_def)
      ultimately show thesis by (rule fresh)
    qed
  qed
qed

lemma write_sync_spec:
  assumes "fresh_temp p t m s s1"
    and "fio_then (path_io opw q (sys_write_all os t data)) (\<lambda>_. path_io ops q' (sys_sync_all os t)) s1 = (r, s')"
  shows "(\<forall>q. q \<noteq> t \<longrightarrow> fs_files s' q = fs_files s q)
    \<and> (r = Inr () \<longrightarrow> fs_files s' = (fs_files s)(t \<mapsto> \<lparr>f_mode = m, f_data = data\<rparr>))"
proof -
  have t: "fs_files s1 t = Some \<lparr>f_mode = m, f_data = []\<rparr>" using assms(1) by (simp add: fresh_temp_def)
  obtain r1 s2 where wr: "sys_write_all os t data s1 = (r1, s2)" by force
  from write_all_spec [OF t wr] obtain dd where
    s2: "s2 = fs_put t (Some \<lparr>f_mode = m, f_data = dd\<rparr>) s1" "r1 = Inr () \<longrightarrow> dd = data" by blast
  have "s' = s2 \<and> (r = Inr () \<longrightarrow> r1 = Inr ())"
    using assms(2) wr sync_all_spec [of os t s2]
    by (cases r1) (auto simp: fio_then_def path_io_def split: prod.splits sum.splits)
  with s2 assms(1) show ?thesis by (auto simp: fresh_temp_def fun_eq_iff)
qed

lemma dropped_write:
  assumes "fresh_temp p t m s s1" "\<forall>q. q \<noteq> t \<longrightarrow> fs_files s' q = fs_files s q"
  shows "temp_dropped os t s (drop_temp os t s')"
  using assms by (auto simp: temp_dropped_def drop_temp_files fresh_temp_def)

text \<open>\<open>rename\<close>, sync of the directory and drop of the guard, from a complete temporary file.\<close>

lemma replace_spec:
  assumes t: "t \<noteq> p" "temp_written t f s s1"
    and run: "with_temp os t (fio_then (path_io op q (sys_rename os t p))
               (\<lambda>_. sync_parent os op' d)) s1 = (r, s')"
  shows "(\<exists>e. r = Inl e) \<and> temp_dropped os t s s' \<or> fs_files s' = (fs_files s)(p \<mapsto> f)"
proof -
  obtain s2 where m: "fio_then (path_io op q (sys_rename os t p)) (\<lambda>_. sync_parent os op' d) s1 = (r, s2)"
      "s' = drop_temp os t s2"
    using run by (auto simp: with_temp_eq)
  obtain r1 s3 where rn: "sys_rename os t p s1 = (r1, s3)" by force
  have "fs_files s1 t = Some f" using t by (simp add: temp_written_def)
  from rename_spec [OF this rn] show ?thesis
  proof (elim disjE conjE exE)
    fix e assume "r1 = Inl e" "s3 = s1"
    with m rn have "r = Inl (PathIo op q e)" "s2 = s1" by (auto simp: fio_then_def path_io_def)
    with m(2) t show ?thesis by (auto simp: temp_dropped_def drop_temp_files temp_written_def)
  next
    assume "r1 = Inr ()" and s3: "s3 = fs_put t None (fs_put p (Some f) s1)"
    with m rn have "sync_parent os op' d s3 = (r, s2)" by (simp add: fio_then_def path_io_def)
    then have "s2 = s3" by (rule sync_parent_spec)
    with m(2) s3 t show ?thesis by (auto simp: drop_temp_files temp_written_def fun_eq_iff)
  qed
qed

text \<open>What a whole replacement may have done; the laws of \<open>atomic_writer\<close> follow.\<close>

definition replaced_or_not :: "os \<Rightarrow> path \<Rightarrow> inode \<Rightarrow> persist_error + unit \<Rightarrow> fs \<Rightarrow> fs \<Rightarrow> bool" where
  "replaced_or_not os p f r s s' \<longleftrightarrow>
     fs_files s' = (fs_files s)(p \<mapsto> f)
     \<or> (\<exists>e. r = Inl e) \<and> (fs_files s' = fs_files s \<or> (\<exists>t. t \<noteq> p \<and> temp_dropped os t s s'))"

lemma replaced_ok: "replaced_or_not os p f (Inr u) s s' \<Longrightarrow> fs_files s' p = Some f"
  by (simp add: replaced_or_not_def)

lemma replaced_atomic:
  "replaced_or_not os p f r s s' \<Longrightarrow> fs_files s' p = fs_files s p \<or> fs_files s' p = Some f"
  by (auto simp: replaced_or_not_def dest: temp_dropped_other [where q = p])

lemma replaced_frame:
  "\<lbrakk>replaced_or_not os p f r s s'; \<forall>q. os_fault os (RemoveFile q) = None; q \<noteq> p\<rbrakk> \<Longrightarrow>
     fs_files s' q = fs_files s q"
  by (auto simp: replaced_or_not_def dest: temp_dropped_frame)

lemma fio_then_assoc: "fio_then (fio_then m k) l = fio_then m (\<lambda>a. fio_then (k a) l)"
  by (rule ext) (auto simp: fio_then_def split: prod.splits sum.splits)

text \<open>A whole replacement: directory, fresh name, contents, sync, rename, sync of the directory.\<close>

lemma replace_file_spec:
  assumes run: "fio_then (path_io opd d (sys_create_dirs os d)) (\<lambda>_.
      fio_then (create_temp os m opn limit temp p i n) (\<lambda>t. with_temp os t
        (fio_then (fio_then (path_io opw t (sys_write_all os t bs)) (\<lambda>_. path_io ops t (sys_sync_all os t)))
          (\<lambda>_. fio_then (path_io opr p (sys_rename os t p)) (\<lambda>_. sync_parent os opp d))))) s = (r, s')"
    and neq: "\<forall>w. temp w \<noteq> p"
  shows "replaced_or_not os p \<lparr>f_mode = m, f_data = bs\<rparr> r s s'"
  using run neq
proof (cases rule: staging_cases)
  case (fresh t s2)
  define fill where
    "fill = fio_then (path_io opw t (sys_write_all os t bs)) (\<lambda>_. path_io ops t (sys_sync_all os t))"
  define mv where "mv = fio_then (path_io opr p (sys_rename os t p)) (\<lambda>_. sync_parent os opp d)"
  obtain r3 s3 where w: "fill s2 = (r3, s3)" by force
  note ws = write_sync_spec [OF fresh(1) w [unfolded fill_def]]
  have t: "t \<noteq> p" "fs_files s t = None" using fresh(1) by (simp_all add: fresh_temp_def)
  have run: "with_temp os t (fio_then fill (\<lambda>_. mv)) s2 = (r, s')"
    using fresh(2) by (simp only: fill_def mv_def)
  show ?thesis
  proof (cases r3)
    case (Inl e)
    with run w have "r = Inl e" "s' = drop_temp os t s3" by (auto simp: with_temp_def fio_then_def)
    with dropped_write [OF fresh(1)] ws t show ?thesis by (auto simp: replaced_or_not_def)
  next
    case (Inr u)
    with ws t have "temp_written t \<lparr>f_mode = m, f_data = bs\<rparr> s s3" by (simp add: temp_written_def)
    moreover have "with_temp os t mv s3 = (r, s')"
      using run w Inr by (simp add: with_temp_def fio_then_def)
    ultimately show ?thesis
      using replace_spec [OF t(1)] t(1) unfolding mv_def replaced_or_not_def by blast
  qed
qed (auto simp: replaced_or_not_def)

text \<open>A concrete system without faults, whose draws are 0, 1, 2 and so on, and an empty store, for evaluation.\<close>

definition calm_os :: os where
  "calm_os = \<lparr>os_fault = (\<lambda>_. None), os_written = 0, os_random = of_nat\<rparr>"

definition empty_fs :: fs where
  "empty_fs = \<lparr>fs_files = (\<lambda>_. None), fs_dirs = {}\<rparr>"

lemma calm_os_simps [simp]:
  "os_fault calm_os c = None" "os_random calm_os i = of_nat i" "os_written calm_os = 0"
  by (simp_all add: calm_os_def)

lemma empty_fs_simps [simp]: "fs_files empty_fs p = None" "fs_dirs empty_fs = {}"
  by (simp_all add: empty_fs_def)

end
