(* ===== verification/Profile.thy ===== *)
theory Profile
  imports File_Store Sculk_Types Sculk_Utf8
begin

text \<open>
  \<^verbatim>\<open>core/src/persist/profile.rs\<close> and the paths of \<^verbatim>\<open>core/src/persist/mod.rs\<close>: the user's
  preferences, kept as TOML. Reading and printing TOML text is the \<^verbatim>\<open>toml\<close> crate, a value of
  the record \<open>toml_crate\<close>; what the code's \<^verbatim>\<open>serde\<close> attributes say of the tables (defaults, renamed
  variants, skipped keys) is written out in \<open>profile_of_toml\<close> and \<open>profile_to_toml\<close>.
\<close>

section \<open>Paths\<close>

text \<open>\<open>dirs\<close> is what \<^verbatim>\<open>dirs::data_dir()\<close> returns.\<close>

definition data_dir :: "path option \<Rightarrow> persist_error + path" where
  "data_dir dirs = ok_or SystemDataDirUnavailable (map_option (\<lambda>d. path_join d ''sculk'') dirs)"

definition default_key_path :: "path option \<Rightarrow> persist_error + path" where
  "default_key_path dirs = and_then (data_dir dirs) (\<lambda>d. Inr (path_join d ''secret.key''))"

definition default_host_state_path :: "path option \<Rightarrow> persist_error + path" where
  "default_host_state_path dirs = and_then (data_dir dirs) (\<lambda>d. Inr (path_join d ''host.state''))"

definition profile_path :: "path option \<Rightarrow> persist_error + path" where
  "profile_path dirs = and_then (data_dir dirs) (\<lambda>d. Inr (path_join d ''profile.toml''))"

section \<open>Preferences\<close>

definition DEFAULT_MC_PORT :: u16 where "DEFAULT_MC_PORT = 25565"
definition DEFAULT_INLET_PORT :: u16 where "DEFAULT_INLET_PORT = 30000"

datatype token_refresh_setting =
    SetAlways | SetNever | SetOneHour | SetThreeHours | SetSixHours | SetTwelveHours | SetTwentyFourHours

record host_profile =
  hp_port :: u16
  hp_token_refresh :: token_refresh_setting

record join_profile =
  jp_port :: u16

record relay_profile =
  rp_custom :: bool
  rp_url :: "string option"

record profile =
  pf_host :: host_profile
  pf_join :: join_profile
  pf_relay :: relay_profile

definition host_profile_default :: host_profile where
  "host_profile_default = \<lparr>hp_port = DEFAULT_MC_PORT, hp_token_refresh = SetAlways\<rparr>"

definition join_profile_default :: join_profile where
  "join_profile_default = \<lparr>jp_port = DEFAULT_INLET_PORT\<rparr>"

definition relay_profile_default :: relay_profile where
  "relay_profile_default = \<lparr>rp_custom = False, rp_url = None\<rparr>"

definition profile_default :: profile where
  "profile_default = \<lparr>pf_host = host_profile_default, pf_join = join_profile_default,
     pf_relay = relay_profile_default\<rparr>"

section \<open>TOML tables\<close>

datatype toml =
    TStr string | TInt int | TBool bool | TTable "(string \<times> toml) list" | TOther

record toml_crate =
  tm_parse :: "string \<Rightarrow> string + toml"
  tm_print :: "toml \<Rightarrow> string + string"
  tm_mismatch :: string

fun setting_name :: "token_refresh_setting \<Rightarrow> string" where
  "setting_name SetAlways = ''always''"
| "setting_name SetNever = ''never''"
| "setting_name SetOneHour = ''1h''"
| "setting_name SetThreeHours = ''3h''"
| "setting_name SetSixHours = ''6h''"
| "setting_name SetTwelveHours = ''12h''"
| "setting_name SetTwentyFourHours = ''24h''"

definition settings :: "token_refresh_setting list" where
  "settings = [SetAlways, SetNever, SetOneHour, SetThreeHours, SetSixHours, SetTwelveHours, SetTwentyFourHours]"

fun toml_u16 :: "toml \<Rightarrow> u16 option" where
  "toml_u16 (TInt i) = (if 0 \<le> i \<and> i < 65536 then Some (of_int i) else None)"
| "toml_u16 _ = None"

fun toml_setting :: "toml \<Rightarrow> token_refresh_setting option" where
  "toml_setting (TStr s) = List.find (\<lambda>x. setting_name x = s) settings"
| "toml_setting _ = None"

fun toml_bool :: "toml \<Rightarrow> bool option" where
  "toml_bool (TBool b) = Some b"
| "toml_bool _ = None"

fun toml_str :: "toml \<Rightarrow> string option" where
  "toml_str (TStr s) = Some s"
| "toml_str _ = None"

text \<open>\<^verbatim>\<open>#[serde(default)]\<close>: a missing key is the default, a key of the wrong type an error.\<close>

definition toml_field :: "string \<Rightarrow> (toml \<Rightarrow> 'a option) \<Rightarrow> 'a \<Rightarrow> (string \<times> toml) list \<Rightarrow> 'a option" where
  "toml_field k read dflt t = (case map_of t k of None \<Rightarrow> Some dflt | Some v \<Rightarrow> read v)"

fun host_of_toml :: "toml \<Rightarrow> host_profile option" where
  "host_of_toml (TTable t) =
     Option.bind (toml_field ''port'' toml_u16 DEFAULT_MC_PORT t) (\<lambda>p.
     Option.bind (toml_field ''token_refresh'' toml_setting SetAlways t) (\<lambda>r.
       Some \<lparr>hp_port = p, hp_token_refresh = r\<rparr>))"
| "host_of_toml _ = None"

fun join_of_toml :: "toml \<Rightarrow> join_profile option" where
  "join_of_toml (TTable t) =
     Option.bind (toml_field ''port'' toml_u16 DEFAULT_INLET_PORT t) (\<lambda>p. Some \<lparr>jp_port = p\<rparr>)"
| "join_of_toml _ = None"

fun relay_of_toml :: "toml \<Rightarrow> relay_profile option" where
  "relay_of_toml (TTable t) =
     Option.bind (toml_field ''custom'' toml_bool False t) (\<lambda>c.
     Option.bind (toml_field ''url'' (\<lambda>v. map_option Some (toml_str v)) None t) (\<lambda>u.
       Some \<lparr>rp_custom = c, rp_url = u\<rparr>))"
| "relay_of_toml _ = None"

fun profile_of_toml :: "toml \<Rightarrow> profile option" where
  "profile_of_toml (TTable t) =
     Option.bind (toml_field ''host'' host_of_toml host_profile_default t) (\<lambda>h.
     Option.bind (toml_field ''join'' join_of_toml join_profile_default t) (\<lambda>j.
     Option.bind (toml_field ''relay'' relay_of_toml relay_profile_default t) (\<lambda>r.
       Some \<lparr>pf_host = h, pf_join = j, pf_relay = r\<rparr>)))"
| "profile_of_toml _ = None"

definition profile_to_toml :: "profile \<Rightarrow> toml" where
  "profile_to_toml p = TTable
     [(''host'', TTable [(''port'', TInt (uint (hp_port (pf_host p)))),
                         (''token_refresh'', TStr (setting_name (hp_token_refresh (pf_host p))))]),
      (''join'', TTable [(''port'', TInt (uint (jp_port (pf_join p))))]),
      (''relay'', TTable ((''custom'', TBool (rp_custom (pf_relay p)))
         # (case rp_url (pf_relay p) of None \<Rightarrow> [] | Some u \<Rightarrow> [(''url'', TStr u)])))]"

section \<open>Loading and saving\<close>

definition profile_temp :: "path \<Rightarrow> u64 \<Rightarrow> path" where
  "profile_temp p r = temp_path ''profile.toml'' p r"

definition write_profile_atomic :: "os \<Rightarrow> path \<Rightarrow> bytes \<Rightarrow> unit fio" where
  "write_profile_atomic os p content =
     fio_then (path_io ''create config dir'' (parent_dir p) (sys_create_dirs os (parent_dir p))) (\<lambda>_.
     fio_then (create_temp os DefaultMode ''create temporary profile''
                 ''temporary profile name collision limit reached'' (profile_temp p) p 0
                 TEMP_CREATE_ATTEMPTS_MAX) (\<lambda>t. with_temp os t
       (fio_then (path_io ''write temporary profile'' t (sys_write_all os t content)) (\<lambda>_.
        fio_then (path_io ''sync temporary profile'' t (sys_sync_all os t)) (\<lambda>_.
        fio_then (path_io ''replace profile'' p (sys_rename os t p)) (\<lambda>_.
        sync_parent os ''sync config directory'' (parent_dir p)))))))"

definition profile_save_to :: "toml_crate \<Rightarrow> os \<Rightarrow> path \<Rightarrow> profile \<Rightarrow> unit fio" where
  "profile_save_to T os p prof =
     (case tm_print T (profile_to_toml prof) of
        Inl e \<Rightarrow> fio_fail (ProfileSerialize e)
      | Inr content \<Rightarrow> write_profile_atomic os p (bytes_of_str content))"

definition toml_from_str :: "toml_crate \<Rightarrow> string \<Rightarrow> string + profile" where
  "toml_from_str T content =
     and_then (tm_parse T content) (\<lambda>t. ok_or (tm_mismatch T) (profile_of_toml t))"

text \<open>\<^verbatim>\<open>std::fs::read_to_string\<close>: bytes that are not UTF-8 are an \<^verbatim>\<open>InvalidData\<close> error.\<close>

definition read_to_string :: "os \<Rightarrow> path \<Rightarrow> string io" where
  "read_to_string os p s =
     (case sys_read os p s of
        (Inl e, s') \<Rightarrow> (Inl e, s')
      | (Inr bs, s') \<Rightarrow>
          if utf8_valid bs then (Inr (str_of_bytes bs), s')
          else (Inl (io_err InvalidData ''stream did not contain valid UTF-8''), s'))"

definition profile_load_from :: "toml_crate \<Rightarrow> os \<Rightarrow> path \<Rightarrow> profile fio" where
  "profile_load_from T os p s =
     (case read_to_string os p s of
        (Inl e, s') \<Rightarrow>
          if io_kind e = NotFound then
            fio_then (profile_save_to T os p profile_default) (\<lambda>_. fio_return profile_default) s'
          else (Inl (PathIo ''read profile'' p e), s')
      | (Inr content, s') \<Rightarrow>
          (case toml_from_str T content of
             Inl e \<Rightarrow> (Inl (ProfileParse p e), s')
           | Inr prof \<Rightarrow> (Inr prof, s')))"

definition profile_load :: "toml_crate \<Rightarrow> path option \<Rightarrow> os \<Rightarrow> profile fio" where
  "profile_load T dirs os s =
     (case profile_path dirs of Inl e \<Rightarrow> (Inl e, s) | Inr p \<Rightarrow> profile_load_from T os p s)"

definition profile_save :: "toml_crate \<Rightarrow> path option \<Rightarrow> os \<Rightarrow> profile \<Rightarrow> unit fio" where
  "profile_save T dirs os prof s =
     (case profile_path dirs of Inl e \<Rightarrow> (Inl e, s) | Inr p \<Rightarrow> profile_save_to T os p prof s)"

definition resolve_relay_url ::
  "crates \<Rightarrow> profile \<Rightarrow> string option \<Rightarrow> persist_error + relay_url option" where
  "resolve_relay_url X prof custom =
     (let url_str = (case custom of
            Some s \<Rightarrow> Some s
          | None \<Rightarrow> if rp_custom (pf_relay prof) then rp_url (pf_relay prof) else None)
      in case url_str of
           Some s \<Rightarrow> and_then (map_err PersistRelayUrlParse (cr_relay_parse X s)) (\<lambda>u. Inr (Some u))
         | None \<Rightarrow> Inr None)"

section \<open>Properties\<close>

text \<open>What the TOML crate promises: a document it prints is UTF-8 and parses back to its table.\<close>

definition toml_law :: "toml_crate \<Rightarrow> bool" where
  "toml_law T \<longleftrightarrow>
     (\<forall>t s. tm_print T t = Inr s \<longrightarrow> tm_parse T s = Inr t \<and> utf8_valid (bytes_of_str s))"

lemma toml_setting_name: "toml_setting (TStr (setting_name x)) = Some x"
  by (cases x) (simp_all add: settings_def)

lemma toml_u16_uint: "toml_u16 (TInt (uint w)) = Some (w :: u16)"
  using uint_bounded [of w] by simp

lemma profile_toml_roundtrip: "profile_of_toml (profile_to_toml p) = Some p"
  by (cases "rp_url (pf_relay p)")
    (simp_all add: profile_to_toml_def toml_field_def toml_u16_uint toml_setting_name
      del: toml_u16.simps toml_setting.simps)

lemma write_profile_atomic_spec:
  assumes "write_profile_atomic os p bs s = (r, s')"
  shows "replaced_or_not os p \<lparr>f_mode = DefaultMode, f_data = bs\<rparr> r s s'"
proof -
  have "\<forall>w. profile_temp p w \<noteq> p"
    unfolding profile_temp_def by (intro allI temp_path_neq) (simp add: is_sep_def)
  from replace_file_spec [OF _ this, unfolded fio_then_assoc] assms show ?thesis
    unfolding write_profile_atomic_def by blast
qed

definition profile_inode :: "toml_crate \<Rightarrow> profile \<Rightarrow> inode" where
  "profile_inode T p =
     \<lparr>f_mode = DefaultMode,
      f_data = (case tm_print T (profile_to_toml p) of Inl _ \<Rightarrow> [] | Inr s \<Rightarrow> bytes_of_str s)\<rparr>"

lemma profile_save_to_spec:
  assumes "profile_save_to T os p prof s = (r, s')"
  shows "replaced_or_not os p (profile_inode T prof) r s s'"
proof (cases "tm_print T (profile_to_toml prof)")
  case (Inl e)
  with assms show ?thesis by (auto simp: profile_save_to_def fio_fail_def replaced_or_not_def)
next
  case (Inr c)
  with assms write_profile_atomic_spec show ?thesis by (simp add: profile_save_to_def profile_inode_def)
qed

interpretation profile_file: atomic_writer "profile_save_to T" "profile_inode T" for T
proof unfold_locales
  show "fs_files s' p = Some (profile_inode T x)" if "profile_save_to T os p x s = (Inr (), s')"
    for os p x s s'
    by (rule replaced_ok [OF profile_save_to_spec [OF that]])
  show "fs_files s' p = fs_files s p \<or> fs_files s' p = Some (profile_inode T x)"
    if "profile_save_to T os p x s = (r, s')" for os p x s r s'
    by (rule replaced_atomic [OF profile_save_to_spec [OF that]])
  show "fs_files s' q = fs_files s q"
    if "profile_save_to T os p x s = (r, s')" "\<forall>q. os_fault os (RemoveFile q) = None" "q \<noteq> p"
    for os p x s r s' q
    by (rule replaced_frame [OF profile_save_to_spec [OF that(1)] that(2,3)])
qed

lemma load_after_save:
  assumes "toml_law T" "profile_save_to T os p prof s = (Inr (), s')" "os_fault os' (ReadFile p) = None"
  shows "profile_load_from T os' p s' = (Inr prof, s')"
proof -
  obtain c where c: "tm_print T (profile_to_toml prof) = Inr c"
    using assms(2) by (auto simp: profile_save_to_def fio_fail_def split: sum.splits)
  with assms(1) have "tm_parse T c = Inr (profile_to_toml prof)" "utf8_valid (bytes_of_str c)"
    by (simp_all add: toml_law_def)
  with profile_file.write_then_read [OF assms(2,3)] c show ?thesis
    by (simp add: profile_load_from_def read_to_string_def profile_inode_def toml_from_str_def
        profile_toml_roundtrip)
qed

text \<open>
  A saved profile loads back unchanged, every setting included; and loading where there is no
  file returns the defaults and leaves a file from which the next load returns them again.
\<close>

theorem profile_roundtrip:
  assumes "toml_law T" and "os_fault os' (ReadFile p) = None"
  shows "(profile_save_to T os p prof s = (Inr (), s') \<longrightarrow> profile_load_from T os' p s' = (Inr prof, s'))
    \<and> (fs_files s p = None \<and> os_fault os (ReadFile p) = None \<and> profile_load_from T os p s = (Inr q, s') \<longrightarrow>
         q = profile_default \<and> profile_load_from T os' p s' = (Inr profile_default, s'))"
proof (intro conjI impI)
  show "profile_load_from T os' p s' = (Inr prof, s')" if "profile_save_to T os p prof s = (Inr (), s')"
    using load_after_save [OF assms(1) that assms(2)] .
next
  assume h: "fs_files s p = None \<and> os_fault os (ReadFile p) = None \<and> profile_load_from T os p s = (Inr q, s')"
  then have sv: "profile_save_to T os p profile_default s = (Inr (), s')" and q: "q = profile_default"
    by (auto simp: profile_load_from_def read_to_string_def sys_read_def io_err_def fio_then_Inr fio_return_def)
  show "q = profile_default" by (rule q)
  show "profile_load_from T os' p s' = (Inr profile_default, s')"
    using load_after_save [OF assms(1) sv assms(2)] .
qed

text \<open>
  Keys a file does not mention take their defaults, whatever other keys it holds: a file
  without the three sections reads as the default profile, and a relay section without
  \<^verbatim>\<open>custom\<close> leaves the custom relay off even when a URL is present.
\<close>

theorem profile_missing_keys_default:
  "(map_of t ''host'' = None \<and> map_of t ''join'' = None \<and> map_of t ''relay'' = None \<longrightarrow>
      profile_of_toml (TTable t) = Some profile_default)
   \<and> (map_of r ''custom'' = None \<and> map_of r ''url'' = Some (TStr u) \<longrightarrow>
      (\<exists>p. profile_of_toml (TTable [(''relay'', TTable r)]) = Some p
        \<and> pf_host p = host_profile_default \<and> pf_join p = join_profile_default
        \<and> resolve_relay_url X p None = Inr None))"
  by (auto simp: toml_field_def profile_default_def resolve_relay_url_def)

text \<open>
  The relay in use is the explicit argument if there is one, else the profile's URL if custom
  relays are on, else none; an error is an invalid-endpoint error about the text that was chosen.
\<close>

theorem relay_priority:
  "resolve_relay_url X p custom =
     (case (custom, rp_custom (pf_relay p), rp_url (pf_relay p)) of
        (Some s, _, _) \<Rightarrow> map_err PersistRelayUrlParse (map_sum id Some (cr_relay_parse X s))
      | (None, True, Some s) \<Rightarrow> map_err PersistRelayUrlParse (map_sum id Some (cr_relay_parse X s))
      | _ \<Rightarrow> Inr None)
   \<and> (\<forall>e. resolve_relay_url X p custom = Inl e \<longrightarrow> persist_category e = CatInvalidEndpoint)"
proof -
  have "and_then (map_err PersistRelayUrlParse x) (\<lambda>u. Inr (Some u))
      = map_err PersistRelayUrlParse (map_sum id Some x)" for x :: "string + relay_url"
    by (cases x) simp_all
  moreover have "map_err PersistRelayUrlParse (map_sum id Some x) = Inl e \<Longrightarrow> persist_category e = CatInvalidEndpoint"
    for e and x :: "string + relay_url"
    by (cases x) auto
  ultimately show ?thesis
    by (auto simp: resolve_relay_url_def Let_def split: option.splits bool.splits)
qed

section \<open>A concrete TOML crate for evaluation\<close>

text \<open>It prints one fixed document for the default profile's table and refuses every other table.\<close>

definition tiny_toml :: toml_crate where
  "tiny_toml =
     \<lparr>tm_parse = (\<lambda>s. if s = ''defaults'' then Inr (profile_to_toml profile_default) else Inl ''expected an equals''),
      tm_print = (\<lambda>t. if t = profile_to_toml profile_default then Inr ''defaults'' else Inl ''unsupported''),
      tm_mismatch = ''invalid type''\<rparr>"

lemma tiny_toml_law: "toml_law tiny_toml"
proof -
  have "utf8_valid (bytes_of_str ''defaults'')" by code_simp
  then show ?thesis by (simp add: toml_law_def tiny_toml_def)
qed

lemma tiny_save: "\<exists>s'. profile_save_to tiny_toml calm_os ''d/p'' profile_default empty_fs = (Inr (), s')"
  by (simp add: profile_save_to_def tiny_toml_def write_profile_atomic_def fio_defs sys_create_dirs_def
      TEMP_CREATE_ATTEMPTS_MAX_def numeral_eq_Suc sys_create_new_def sys_write_all_def sys_sync_all_def
      sys_rename_def sync_parent_def sys_sync_dir_def)

theorem profile_roundtrip_witness:
  "\<exists>s'. profile_save_to tiny_toml calm_os ''d/p'' profile_default empty_fs = (Inr (), s')
     \<and> profile_load_from tiny_toml calm_os ''d/p'' s' = (Inr profile_default, s')"
  using tiny_save profile_roundtrip [OF tiny_toml_law] by fastforce

theorem profile_missing_keys_default_witness:
  "profile_of_toml (TTable [(''theme'', TStr ''dark'')]) = Some profile_default
   \<and> (\<exists>p. profile_of_toml (TTable [(''relay'', TTable [(''url'', TStr ''x'')])]) = Some p
          \<and> pf_host p = host_profile_default)"
  using profile_missing_keys_default [of "[(''theme'', TStr ''dark'')]" "[(''url'', TStr ''x'')]" "''x''"]
  by auto

theorem relay_priority_witness:
  "\<forall>X. resolve_relay_url X profile_default None = Inr None"
  using relay_priority [of _ profile_default None]
  by (simp add: profile_default_def relay_profile_default_def)

end
