(* ===== verification/Key_Store.thy ===== *)
theory Key_Store
  imports File_Store Sculk_Types
begin

text \<open>
  \<^verbatim>\<open>core/src/persist/key.rs\<close>: the ed25519 secret of the node. The bytes a call draws with
  \<^verbatim>\<open>rand::random()\<close> are its argument \<open>fresh\<close>. The second half models concurrent callers of
  \<open>load_or_generate_key\<close> as a step relation on the shared file.
\<close>

section \<open>Operations\<close>

definition KEY_LEN :: nat where "KEY_LEN = 32"

definition key_temp :: "path \<Rightarrow> u64 \<Rightarrow> path" where
  "key_temp p r = temp_path ''secret.key'' p r"

definition key_inode :: "secret_key \<Rightarrow> inode" where
  "key_inode k = \<lparr>f_mode = OwnerOnly, f_data = secret_bytes k\<rparr>"

fun is_not_found :: "sculk_error \<Rightarrow> bool" where
  "is_not_found (Persist (PathIo _ _ e)) \<longleftrightarrow> io_kind e = NotFound"
| "is_not_found _ \<longleftrightarrow> False"

fun is_already_exists :: "sculk_error \<Rightarrow> bool" where
  "is_already_exists (Persist (PathIo _ _ e)) \<longleftrightarrow> io_kind e = AlreadyExists"
| "is_already_exists _ \<longleftrightarrow> False"

definition load_key :: "os \<Rightarrow> path \<Rightarrow> secret_key fio" where
  "load_key os p =
     fio_then (path_io ''read key file'' p (sys_read os p)) (\<lambda>bs.
       if length bs \<noteq> KEY_LEN then fio_fail (InvalidKeyLength KEY_LEN (length bs))
       else case secret_of_slice bs of
              None \<Rightarrow> fio_fail (InvalidKeyLength KEY_LEN (length bs))
            | Some k \<Rightarrow> fio_return k)"

definition fill_temp_key :: "os \<Rightarrow> secret_key \<Rightarrow> path \<Rightarrow> unit fio" where
  "fill_temp_key os k t =
     fio_then (path_io ''write temporary key file'' t (sys_write_all os t (secret_bytes k)))
       (\<lambda>_. path_io ''sync temporary key file'' t (sys_sync_all os t))"

definition write_temp_key :: "os \<Rightarrow> path \<Rightarrow> secret_key \<Rightarrow> path fio" where
  "write_temp_key os p k =
     fio_then (path_io ''create key directory'' (parent_dir p) (sys_create_dirs os (parent_dir p))) (\<lambda>_.
     fio_then (create_temp os OwnerOnly ''create temporary key file''
                 ''temporary key file name collision limit reached'' (key_temp p) p 0
                 TEMP_CREATE_ATTEMPTS_MAX) (\<lambda>t s.
       case fill_temp_key os k t s of
         (Inl e, s') \<Rightarrow> (Inl e, drop_temp os t s')
       | (Inr _, s') \<Rightarrow> (Inr t, s')))"

definition save_key_exclusive :: "os \<Rightarrow> path \<Rightarrow> secret_key \<Rightarrow> unit fio" where
  "save_key_exclusive os p k =
     fio_then (write_temp_key os p k) (\<lambda>t. with_temp os t (\<lambda>s.
       case sys_hard_link os t p s of
         (Inr _, s') \<Rightarrow> sync_parent os ''sync key directory'' (parent_dir p) s'
       | (Inl e, s') \<Rightarrow>
           if io_kind e = AlreadyExists then (Inl (PathIo ''create key file'' p e), s')
           else (Inl (PathIo ''publish key file'' p e), s')))"

definition save_key_replace :: "os \<Rightarrow> path \<Rightarrow> secret_key \<Rightarrow> unit fio" where
  "save_key_replace os p k =
     fio_then (write_temp_key os p k) (\<lambda>t. with_temp os t
       (fio_then (path_io ''replace key file'' p (sys_rename os t p))
          (\<lambda>_. sync_parent os ''sync key directory'' (parent_dir p))))"

definition generate_key_exclusive :: "os \<Rightarrow> path \<Rightarrow> secret_key \<Rightarrow> secret_key fio" where
  "generate_key_exclusive os p fresh s =
     (case save_key_exclusive os p fresh s of
        (Inr _, s') \<Rightarrow> (Inr fresh, s')
      | (Inl e, s') \<Rightarrow>
          if is_already_exists (Persist e) then load_key os p s' else (Inl e, s'))"

definition load_or_generate_key :: "os \<Rightarrow> path \<Rightarrow> secret_key \<Rightarrow> secret_key fio" where
  "load_or_generate_key os p fresh s =
     (case load_key os p s of
        (Inr k, s') \<Rightarrow> (Inr k, s')
      | (Inl e, s') \<Rightarrow>
          if is_not_found (Persist e) then generate_key_exclusive os p fresh s' else (Inl e, s'))"

definition generate_new_key :: "os \<Rightarrow> path \<Rightarrow> secret_key \<Rightarrow> secret_key fio" where
  "generate_new_key os p fresh = fio_then (save_key_replace os p fresh) (\<lambda>_. fio_return fresh)"

section \<open>What the operations do\<close>

lemma load_key_state: "load_key os p s = (r, s') \<Longrightarrow> s' = s"
  by (auto simp: load_key_def fio_defs sys_read_def split: option.splits if_splits)

lemma load_key_Inr:
  "load_key os p s = (Inr k, s') \<longleftrightarrow>
     s' = s \<and> os_fault os (ReadFile p) = None \<and> fs_data s p = Some (secret_bytes k)"
  by (auto simp: load_key_def fio_defs sys_read_def fs_data_def KEY_LEN_def codec_simps
      secret_bytes_inject split: option.splits if_splits)

lemma load_key_not_found:
  "load_key os p s = (Inl e, s') \<Longrightarrow> os_fault os (ReadFile p) = None \<Longrightarrow>
     is_not_found (Persist e) \<longleftrightarrow> fs_files s p = None"
  by (auto simp: load_key_def fio_defs sys_read_def io_err_def split: option.splits if_splits)

lemma key_temp_neq [simp]: "key_temp p r \<noteq> p"
  unfolding key_temp_def by (rule temp_path_neq) (simp add: is_sep_def)

lemma write_temp_key_cases:
  assumes "write_temp_key os p k s = (r, s')"
  obtains (early) e where "r = Inl e" "fs_files s' = fs_files s"
  | (dropped) e t where "r = Inl e" "t \<noteq> p" "temp_dropped os t s s'"
  | (written) t where "r = Inr t" "t \<noteq> p" "temp_written t (key_inode k) s s'"
proof -
  have "\<forall>w. key_temp p w \<noteq> p" by simp
  from assms [unfolded write_temp_key_def] this show thesis
  proof (cases rule: staging_cases)
    case (early e)
    then show thesis by (rule that(1))
  next
    case (fresh t s2)
    obtain r3 s3 where fill: "fill_temp_key os k t s2 = (r3, s3)" by force
    note w = write_sync_spec [OF fresh(1) fill [unfolded fill_temp_key_def]]
    have t: "t \<noteq> p" "fs_files s t = None" using fresh(1) by (simp_all add: fresh_temp_def)
    show thesis
    proof (cases r3)
      case (Inl e)
      with fresh(2) fill have "r = Inl e" "s' = drop_temp os t s3" by simp_all
      with t dropped_write [OF fresh(1)] w show thesis by (intro dropped) auto
    next
      case (Inr v)
      with fresh(2) fill have "r = Inr t" "s' = s3" by simp_all
      with t w Inr show thesis by (intro written) (auto simp: temp_written_def key_inode_def)
    qed
  qed
qed

lemma save_key_replace_spec:
  assumes "save_key_replace os p k s = (r, s')"
  shows "replaced_or_not os p (key_inode k) r s s'"
proof -
  obtain r1 s1 where w: "write_temp_key os p k s = (r1, s1)" by force
  then show ?thesis
  proof (cases rule: write_temp_key_cases)
    case (written t)
    with w assms have "with_temp os t (fio_then (path_io ''replace key file'' p (sys_rename os t p))
          (\<lambda>_. sync_parent os ''sync key directory'' (parent_dir p))) s1 = (r, s')"
      by (simp add: save_key_replace_def fio_then_def)
    from replace_spec [OF written(2,3) this] written(2) show ?thesis
      unfolding replaced_or_not_def by blast
  qed (use w assms in \<open>auto simp: save_key_replace_def fio_then_def replaced_or_not_def\<close>)
qed

interpretation key_file: atomic_writer save_key_replace key_inode
proof unfold_locales
  show "fs_files s' p = Some (key_inode x)" if "save_key_replace os p x s = (Inr (), s')" for os p x s s'
    by (rule replaced_ok [OF save_key_replace_spec [OF that]])
  show "fs_files s' p = fs_files s p \<or> fs_files s' p = Some (key_inode x)"
    if "save_key_replace os p x s = (r, s')" for os p x s r s'
    by (rule replaced_atomic [OF save_key_replace_spec [OF that]])
  show "fs_files s' q = fs_files s q"
    if "save_key_replace os p x s = (r, s')" "\<forall>q. os_fault os (RemoveFile q) = None" "q \<noteq> p"
    for os p x s r s' q
    by (rule replaced_frame [OF save_key_replace_spec [OF that(1)] that(2,3)])
qed

text \<open>The exclusive save publishes where there was nothing, and never over a key.\<close>

definition published_or_not :: "os \<Rightarrow> path \<Rightarrow> inode \<Rightarrow> persist_error + unit \<Rightarrow> fs \<Rightarrow> fs \<Rightarrow> bool" where
  "published_or_not os p f r s s' \<longleftrightarrow>
     (\<exists>t. t \<noteq> p \<and> fs_files s t = None \<and> (\<forall>q. q \<noteq> t \<and> q \<noteq> p \<longrightarrow> fs_files s' q = fs_files s q)
        \<and> (os_fault os (RemoveFile t) = None \<longrightarrow> fs_files s' t = None)
        \<and> (fs_files s p = None \<and> fs_files s' p = Some f \<or> (\<exists>e. r = Inl e) \<and> fs_files s' p = fs_files s p))
     \<or> (\<exists>e. r = Inl e) \<and> fs_files s' = fs_files s"

lemma save_key_exclusive_spec:
  assumes "save_key_exclusive os p k s = (r, s')"
  shows "published_or_not os p (key_inode k) r s s'"
proof -
  obtain r1 s1 where w: "write_temp_key os p k s = (r1, s1)" by force
  then show ?thesis
  proof (cases rule: write_temp_key_cases)
    case (early e)
    with w assms show ?thesis by (auto simp: save_key_exclusive_def fio_then_def published_or_not_def)
  next
    case (dropped e t)
    with w assms have "r = Inl e" "s' = s1" by (auto simp: save_key_exclusive_def fio_then_def)
    with dropped show ?thesis by (auto simp: published_or_not_def temp_dropped_def intro!: exI [of _ t])
  next
    case (written t)
    obtain r2 s2 where hl: "sys_hard_link os t p s1 = (r2, s2)" by force
    have t: "fs_files s1 t = Some (key_inode k)" "fs_files s1 p = fs_files s p" "fs_files s t = None"
      using written by (auto simp: temp_written_def)
    show ?thesis
    proof (cases r2)
      case (Inl e)
      then have "s2 = s1" using hl by (auto simp: sys_hard_link_def split: option.splits if_splits)
      moreover have "(\<exists>e. r = Inl e) \<and> s' = drop_temp os t s2"
        using assms w written hl Inl
        by (auto simp: save_key_exclusive_def fio_then_def with_temp_def split: if_splits)
      ultimately show ?thesis using written
        by (auto simp: published_or_not_def temp_dropped_def drop_temp_files temp_written_def
            intro!: exI [of _ t])
    next
      case (Inr u)
      with hl t have s2: "s2 = fs_put p (Some (key_inode k)) s1" "fs_files s p = None"
        by (auto simp: sys_hard_link_def split: option.splits if_splits)
      obtain s3 where "sync_parent os ''sync key directory'' (parent_dir p) s2 = (r, s3)" "s' = drop_temp os t s3"
        using assms w written(1) hl Inr
        by (auto simp: save_key_exclusive_def fio_then_def with_temp_def split: prod.splits)
      then have "s' = drop_temp os t s2" using sync_parent_spec by blast
      with s2 written show ?thesis
        by (auto simp: published_or_not_def temp_dropped_def drop_temp_files temp_written_def
            intro!: exI [of _ t])
    qed
  qed
qed

lemma published_keeps:
  "published_or_not os p f r s s' \<Longrightarrow> fs_files s p = Some g \<Longrightarrow> fs_files s' p = Some g"
  by (auto simp: published_or_not_def)

lemma published_ok: "published_or_not os p f (Inr u) s s' \<Longrightarrow> fs_files s' p = Some f"
  by (auto simp: published_or_not_def)

lemma published_frame:
  assumes "published_or_not os p f r s s'" "\<forall>q. os_fault os (RemoveFile q) = None" "q \<noteq> p"
  shows "fs_files s' q = fs_files s q"
  using assms unfolding published_or_not_def by (elim disjE exE conjE) (metis | simp)+

lemma generate_key_exclusive_Inr:
  assumes "generate_key_exclusive os p fresh s = (Inr k, s')"
  shows "fs_data s' p = Some (secret_bytes k) \<and> (fs_files s p = None \<longrightarrow> fs_files s' p = Some (key_inode k))"
proof -
  obtain r1 s1 where w: "save_key_exclusive os p fresh s = (r1, s1)" by force
  note pub = save_key_exclusive_spec [OF w]
  show ?thesis
  proof (cases r1)
    case (Inr u)
    with w assms have "k = fresh" "s' = s1" by (simp_all add: generate_key_exclusive_def)
    with published_ok pub Inr show ?thesis by (fastforce simp: fs_data_def key_inode_def)
  next
    case (Inl e)
    with w assms have "load_key os p s1 = (Inr k, s')"
      by (auto simp: generate_key_exclusive_def split: if_splits)
    then have l: "s' = s1" "fs_data s1 p = Some (secret_bytes k)" by (simp_all add: load_key_Inr)
    have "fs_files s p = None \<Longrightarrow> fs_files s1 p = Some (key_inode fresh)"
      using pub l(2) by (auto simp: published_or_not_def fs_data_def)
    with l show ?thesis by (auto simp: fs_data_def key_inode_def secret_bytes_inject)
  qed
qed

section \<open>Properties of the key file\<close>

text \<open>
  C29. Loading or generating a key settles it: once a call returned a key, the file holds that
  key's 32 bytes, and every later call returns the same key and changes nothing, whatever bytes
  it would have drawn. A file the call created is readable by its owner only.
\<close>

theorem load_or_generate_settles:
  assumes "load_or_generate_key os p fresh s = (Inr k, s')"
  shows "fs_data s' p = Some (secret_bytes k)
    \<and> (fs_files s p = None \<longrightarrow> fs_files s' p = Some \<lparr>f_mode = OwnerOnly, f_data = secret_bytes k\<rparr>)
    \<and> (os_fault os' (ReadFile p) = None \<longrightarrow> load_or_generate_key os' p fresh' s' = (Inr k, s'))"
proof -
  obtain r1 s1 where l: "load_key os p s = (r1, s1)" by force
  then have s1: "s1 = s" by (rule load_key_state)
  have "fs_data s' p = Some (secret_bytes k) \<and> (fs_files s p = None \<longrightarrow> fs_files s' p = Some (key_inode k))"
  proof (cases r1)
    case (Inl e)
    with assms l s1 have "generate_key_exclusive os p fresh s = (Inr k, s')"
      by (auto simp: load_or_generate_key_def split: if_splits)
    then show ?thesis by (rule generate_key_exclusive_Inr)
  next
    case (Inr k0)
    with assms l have "load_key os p s = (Inr k, s')" by (simp add: load_or_generate_key_def)
    then show ?thesis by (auto simp: load_key_Inr fs_data_def)
  qed
  moreover have "load_key os' p s' = (Inr k, s')"
    if "fs_data s' p = Some (secret_bytes k)" "os_fault os' (ReadFile p) = None"
    using that by (simp add: load_key_Inr)
  ultimately show ?thesis by (auto simp: load_or_generate_key_def key_inode_def)
qed

text \<open>
  C30. An existing key file is never overwritten by loading: if it does not hold exactly 32 bytes
  the error names the expected and the actual length, and the store is left as it was; a key is
  generated only where there was no file.
\<close>

theorem load_or_generate_keeps_file:
  assumes "fs_files s p = Some f" and "load_or_generate_key os p fresh s = (r, s')"
  shows "s' = s
    \<and> (os_fault os (ReadFile p) = None \<longrightarrow>
         r = (if length (f_data f) = 32 then Inr (Abs_secret_key (f_data f))
              else Inl (InvalidKeyLength 32 (length (f_data f)))))
    \<or> (\<exists>e. os_fault os (ReadFile p) = Some e \<and> io_kind e = NotFound) \<and> fs_files s' p = Some f"
proof (cases "os_fault os (ReadFile p)")
  case None
  with assms show ?thesis
    by (auto simp: load_or_generate_key_def load_key_def fio_defs sys_read_def KEY_LEN_def
        secret_of_slice_def split: if_splits)
next
  case (Some e)
  then have l: "load_key os p s = (Inl (PathIo ''read key file'' p e), s)"
    by (simp add: load_key_def fio_defs sys_read_def)
  show ?thesis
  proof (cases "io_kind e = NotFound")
    case False
    with l assms(2) Some show ?thesis by (simp add: load_or_generate_key_def)
  next
    case True
    obtain r1 s1 where w: "save_key_exclusive os p fresh s = (r1, s1)" by force
    have "fs_files s1 p = Some f" using published_keeps [OF save_key_exclusive_spec [OF w] assms(1)] .
    moreover have "s' = s1"
      using assms(2) l True w load_key_state [of os p s1]
      by (auto simp: load_or_generate_key_def generate_key_exclusive_def split: sum.splits if_splits)
    ultimately show ?thesis using True Some by blast
  qed
qed

text \<open>
  Replacing the key is atomic under every pattern of failing system calls, short writes and
  name collisions included: afterwards the target holds either what it held or the complete new
  key, readable by its owner only; it holds the new key whenever the call returned it; and no
  other file of the store differs as long as temporary files can be removed.
\<close>

theorem generate_new_key_atomic:
  assumes "generate_new_key os p fresh s = (r, s')"
  shows "(fs_files s' p = fs_files s p \<or> fs_files s' p = Some \<lparr>f_mode = OwnerOnly, f_data = secret_bytes fresh\<rparr>)
    \<and> (is_ok r \<longrightarrow> r = Inr fresh \<and> fs_data s' p = Some (secret_bytes fresh))
    \<and> ((\<forall>q. os_fault os (RemoveFile q) = None) \<longrightarrow> (\<forall>q. q \<noteq> p \<longrightarrow> fs_files s' q = fs_files s q))"
proof -
  obtain r1 where w: "save_key_replace os p fresh s = (r1, s')"
    and r: "r = (case r1 of Inl e \<Rightarrow> Inl e | Inr _ \<Rightarrow> Inr fresh)"
    using assms by (auto simp: generate_new_key_def fio_then_def fio_return_def split: prod.splits sum.splits)
  have "is_ok r \<Longrightarrow> r = Inr fresh \<and> fs_files s' p = Some (key_inode fresh)"
    using r w key_file.write_ok by (cases r1) auto
  with key_file.write_atomic [OF w] key_file.write_frame [OF w] show ?thesis
    by (auto simp: key_inode_def fs_data_def)
qed

section \<open>Concurrent callers\<close>

text \<open>
  Several processes call \<open>load_or_generate_key\<close> on one path, interleaved at their system calls:
  reading the file, publishing a finished temporary file with \<^verbatim>\<open>hard_link\<close>, and reading again
  after losing the race. The temporary files have distinct names, so only the target is shared;
  the calls themselves do not fail here.
\<close>

datatype key_pc =
    KeyRead
  | KeyLink secret_key
  | KeyReload
  | KeyDone "persist_error + secret_key"

record key_race =
  kr_file :: "bytes option"
  kr_pc :: "nat \<Rightarrow> key_pc"

text \<open>\<open>KeyStep i k\<close>: process \<open>i\<close> makes its next call; \<open>k\<close> is what it draws if it has to.\<close>

datatype key_label = KeyStep nat secret_key

definition read_result :: "bytes option \<Rightarrow> persist_error + secret_key" where
  "read_result b =
     (case b of
        None \<Rightarrow> Inl (PathIo ''read key file'' [] (io_err NotFound ''No such file or directory''))
      | Some bs \<Rightarrow> case secret_of_slice bs of
          None \<Rightarrow> Inl (InvalidKeyLength KEY_LEN (length bs))
        | Some k \<Rightarrow> Inr k)"

fun key_step :: "key_race \<Rightarrow> key_label \<Rightarrow> key_race" where
  "key_step s (KeyStep i fresh) =
     (case kr_pc s i of
        KeyRead \<Rightarrow>
          if kr_file s = None then s\<lparr>kr_pc := (kr_pc s)(i := KeyLink fresh)\<rparr>
          else s\<lparr>kr_pc := (kr_pc s)(i := KeyDone (read_result (kr_file s)))\<rparr>
      | KeyLink k \<Rightarrow>
          if kr_file s = None then
            s\<lparr>kr_file := Some (secret_bytes k), kr_pc := (kr_pc s)(i := KeyDone (Inr k))\<rparr>
          else s\<lparr>kr_pc := (kr_pc s)(i := KeyReload)\<rparr>
      | KeyReload \<Rightarrow> s\<lparr>kr_pc := (kr_pc s)(i := KeyDone (read_result (kr_file s)))\<rparr>
      | KeyDone r \<Rightarrow> s)"

definition key_race_start :: "bytes option \<Rightarrow> key_race \<Rightarrow> bool" where
  "key_race_start b s \<longleftrightarrow> kr_file s = b \<and> (\<forall>i. kr_pc s i = KeyRead)"

definition key_race_inv :: "bytes option \<Rightarrow> key_race \<Rightarrow> bool" where
  "key_race_inv b s \<longleftrightarrow>
     (b \<noteq> None \<longrightarrow> kr_file s = b)
     \<and> (b = None \<and> kr_file s \<noteq> None \<longrightarrow> (\<exists>k. kr_file s = Some (secret_bytes k)))
     \<and> (\<forall>i. kr_pc s i = KeyReload \<longrightarrow> kr_file s \<noteq> None)
     \<and> (\<forall>i r. kr_pc s i = KeyDone r \<longrightarrow> kr_file s \<noteq> None \<and> r = read_result (kr_file s))"

lemma read_result_secret [simp]: "read_result (Some (secret_bytes k)) = Inr k"
  by (simp add: read_result_def codec_simps)

interpretation key_race: invariant_system "key_race_start b" key_step "key_race_inv b" for b
proof unfold_locales
  show "key_race_start b s \<Longrightarrow> key_race_inv b s" for s
    by (auto simp: key_race_start_def key_race_inv_def)
next
  fix s l assume inv: "key_race_inv b s"
  obtain i fresh where l: "l = KeyStep i fresh" by (cases l)
  show "key_race_inv b (key_step s l)"
    using inv unfolding l key_race_inv_def by (cases "kr_pc s i") auto
qed

text \<open>
  C22. Callers that race to create the key agree: however their calls interleave and whatever each
  of them draws, all calls that have returned returned the same result, on an initially absent
  file a key, and it is the key the file holds.
\<close>

theorem concurrent_creators_agree:
  assumes "key_race_start None s" and "t = run_steps key_step s ls"
    and "kr_pc t i = KeyDone r" and "kr_pc t j = KeyDone r'"
  shows "\<exists>k. r = Inr k \<and> r' = Inr k \<and> kr_file t = Some (secret_bytes k)"
proof -
  have "key_race_inv None t" unfolding assms(2) by (rule key_race.inv_reachable [OF assms(1)])
  with assms(3,4) show ?thesis unfolding key_race_inv_def by fastforce
qed

theorem load_or_generate_settles_witness:
  "\<exists>s'. load_or_generate_key calm_os ''k'' (secret_filled 5)
          (fs_put ''k'' (Some (key_inode (secret_filled 9))) empty_fs) = (Inr (secret_filled 9), s')
     \<and> load_or_generate_key calm_os ''k'' (secret_filled 6) s' = (Inr (secret_filled 9), s')"
proof -
  have "load_or_generate_key calm_os ''k'' (secret_filled 5)
      (fs_put ''k'' (Some (key_inode (secret_filled 9))) empty_fs)
    = (Inr (secret_filled 9), fs_put ''k'' (Some (key_inode (secret_filled 9))) empty_fs)"
    by (simp add: load_or_generate_key_def load_key_def fio_defs sys_read_def KEY_LEN_def key_inode_def
        codec_simps)
  with load_or_generate_settles [OF this, of calm_os "secret_filled 6"] show ?thesis by auto
qed

theorem load_or_generate_keeps_file_witness:
  "\<exists>s'. load_or_generate_key calm_os ''k'' (secret_filled 5)
       (fs_put ''k'' (Some \<lparr>f_mode = DefaultMode, f_data = [1, 2, 3]\<rparr>) empty_fs)
     = (Inl (InvalidKeyLength 32 3), s')"
proof -
  define s where "s = fs_put ''k'' (Some \<lparr>f_mode = DefaultMode, f_data = [1, 2, 3]\<rparr>) empty_fs"
  obtain r s' where run: "load_or_generate_key calm_os ''k'' (secret_filled 5) s = (r, s')" by force
  have "fs_files s ''k'' = Some \<lparr>f_mode = DefaultMode, f_data = [1, 2, 3]\<rparr>" by (simp add: s_def)
  from load_or_generate_keeps_file [OF this run] run show ?thesis by (auto simp: s_def)
qed

theorem generate_new_key_atomic_witness:
  "\<exists>r s'. generate_new_key calm_os ''k'' (secret_filled 5) empty_fs = (r, s')
     \<and> (fs_files s' ''k'' = None \<or> fs_data s' ''k'' = Some (replicate 32 5))"
proof -
  obtain r s' where run: "generate_new_key calm_os ''k'' (secret_filled 5) empty_fs = (r, s')" by force
  from generate_new_key_atomic [OF this] run show ?thesis
    by (auto simp: empty_fs_def fs_data_def)
qed

definition two_creators :: key_race where
  "two_creators = run_steps key_step \<lparr>kr_file = None, kr_pc = (\<lambda>_. KeyRead)\<rparr>
     [KeyStep 0 (secret_filled 1), KeyStep 1 (secret_filled 2), KeyStep 1 (secret_filled 2),
      KeyStep 0 (secret_filled 1), KeyStep 0 (secret_filled 1)]"

lemma two_creators_done:
  "kr_pc two_creators 0 = KeyDone (Inr (secret_filled 2))"
  "kr_pc two_creators 1 = KeyDone (Inr (secret_filled 2))"
  by (simp_all add: two_creators_def read_result_def)

theorem concurrent_creators_agree_witness:
  "kr_file two_creators = Some (replicate 32 2)"
proof -
  have "key_race_start None \<lparr>kr_file = None, kr_pc = (\<lambda>_. KeyRead)\<rparr>"
    by (simp add: key_race_start_def)
  from concurrent_creators_agree [OF this two_creators_def two_creators_done]
  obtain k where "secret_filled 2 = k" "kr_file two_creators = Some (secret_bytes k)" by blast
  then show ?thesis by (metis filled_bytes(3))
qed

end
