(* ===== verification/Host_State.thy ===== *)
theory Host_State
  imports File_Store Token_Policy Sculk_Codec
begin

text \<open>
  \<^verbatim>\<open>core/src/persist/host_state.rs\<close>: the service id and the token with its creation time, in 61
  bytes. The layout is a canonical codec of fixed length, the file an atomic replacement.
\<close>

definition STATE_VERSION :: u8 where "STATE_VERSION = 1"
definition STATE_LEN :: nat where "STATE_LEN = 1 + 16 + 32 + 8 + 4"

record host_state =
  hs_service_id :: service_id
  hs_token_state :: token_state

section \<open>Layout\<close>

definition encode_host_state :: "host_state \<Rightarrow> bytes" where
  "encode_host_state st =
     (let created = nat (ts_created_at (hs_token_state st))
      in STATE_VERSION # service_bytes (hs_service_id st) @ token_bytes (ts_token (hs_token_state st))
         @ to_le 8 (as_secs created) @ to_le 4 (subsec_nanos created))"

definition decode_host_state :: "bytes \<Rightarrow> persist_error + host_state" where
  "decode_host_state bs =
     (if length bs \<noteq> STATE_LEN then Inl (InvalidHostStateLength STATE_LEN (length bs))
      else if bs ! 0 \<noteq> STATE_VERSION then Inl (UnsupportedHostStateVersion (bs ! 0))
      else
        let service_id = Abs_service_id (slice 1 17 bs);
            token = Abs_access_token (slice 17 49 bs);
            seconds = from_le (slice 49 57 bs);
            nanos = from_le (slice 57 61 bs)
        in if nanos \<ge> 1000000000 then Inl InvalidHostStateTimestamp
           else case time_checked_add 0 (from_secs seconds + nanos) of
                  None \<Rightarrow> Inl InvalidHostStateTimestamp
                | Some created_at \<Rightarrow>
                    Inr \<lparr>hs_service_id = service_id, hs_token_state = token_state_new token created_at\<rparr>)"

definition host_state_valid :: "host_state \<Rightarrow> bool" where
  "host_state_valid st \<longleftrightarrow>
     0 \<le> ts_created_at (hs_token_state st) \<and> ts_created_at (hs_token_state st) \<le> time_max"

lemma host_state_split:
  assumes "length bs = 61"
  obtains v s t a b where "bs = v # s @ t @ a @ b"
    "length s = 16" "length t = 32" "length a = 8" "length b = 4"
proof
  from assms have "bs = hd bs # drop 1 bs" by (cases bs) auto
  moreover have "drop 1 bs = slice 1 17 bs @ drop 17 bs" by (rule slice_split) simp
  moreover have "drop 17 bs = slice 17 49 bs @ drop 49 bs" by (rule slice_split) simp
  moreover have "drop 49 bs = slice 49 57 bs @ drop 57 bs" by (rule slice_split) simp
  moreover have "drop 57 bs = slice 57 61 bs @ drop 61 bs" by (rule slice_split) simp
  ultimately show "bs = hd bs # slice 1 17 bs @ slice 17 49 bs @ slice 49 57 bs @ slice 57 61 bs"
    using assms by simp
qed (use assms in simp_all)

lemma decode_fields:
  assumes "length s = 16" "length t = 32" "length a = 8" "length b = 4"
  shows "decode_host_state (v # s @ t @ a @ b) =
    (if v \<noteq> 1 then Inl (UnsupportedHostStateVersion v)
     else if from_le b \<ge> 1000000000 then Inl InvalidHostStateTimestamp
     else case time_checked_add 0 (from_secs (from_le a) + from_le b) of
            None \<Rightarrow> Inl InvalidHostStateTimestamp
          | Some at \<Rightarrow> Inr \<lparr>hs_service_id = Abs_service_id s,
              hs_token_state = token_state_new (Abs_access_token t) at\<rparr>)"
  using assms by (simp add: decode_host_state_def STATE_LEN_def STATE_VERSION_def codec_simps)

lemma created_secs_bound: "t \<le> time_max \<Longrightarrow> as_secs (nat t) < 256 ^ 8"
  by (simp add: as_secs_def nanos_per_sec_def time_max_def div_less_iff_less_mult)

lemma decode_encode_host_state:
  assumes "host_state_valid st"
  shows "decode_host_state (encode_host_state st) = Inr st"
proof -
  define c where "c = nat (ts_created_at (hs_token_state st))"
  have c: "int c = ts_created_at (hs_token_state st)" "int c \<le> time_max"
    using assms by (simp_all add: host_state_valid_def c_def)
  have secs: "from_le (to_le 8 (as_secs c)) = as_secs c"
    using created_secs_bound [of "int c"] c(2) by (intro from_le_to_le) simp
  have nanos: "from_le (to_le 4 (subsec_nanos c)) = subsec_nanos c"
    using subsec_nanos_less [of c] by (intro from_le_to_le) simp
  have sum: "time_checked_add 0 (from_secs (as_secs c) + subsec_nanos c) = Some (int c)"
    unfolding secs_nanos_split using c by (simp add: time_checked_add_def)
  show ?thesis
    unfolding encode_host_state_def Let_def c_def [symmetric] STATE_VERSION_def
    using subsec_nanos_less [of c] c(1)
    by (subst decode_fields)
      (simp_all add: secs nanos sum token_state_new_def service_bytes_inverse token_bytes_inverse)
qed

lemma encode_decode_host_state:
  assumes "decode_host_state bs = Inr st"
  shows "host_state_valid st \<and> encode_host_state st = bs"
proof -
  have "length bs = 61" using assms by (auto simp: decode_host_state_def STATE_LEN_def split: if_splits)
  then obtain v s t a b where bs: "bs = v # s @ t @ a @ b"
    and len: "length s = 16" "length t = 32" "length a = 8" "length b = 4" by (rule host_state_split)
  from assms [unfolded bs decode_fields [OF len]] have v: "v = 1" and n: "from_le b < 1000000000"
    and t: "from_secs (from_le a) + from_le b \<le> nat time_max"
    and st: "st = \<lparr>hs_service_id = Abs_service_id s, hs_token_state =
        token_state_new (Abs_access_token t) (int (from_secs (from_le a) + from_le b))\<rparr>"
    by (auto simp: time_checked_add_def split: if_splits)
  define c where "c = from_secs (from_le a) + from_le b"
  have "as_secs c = from_le a" "subsec_nanos c = from_le b"
    using n by (simp_all add: c_def as_secs_def subsec_nanos_def from_secs_def nanos_per_sec_def)
  moreover have "to_le 8 (from_le a) = a" "to_le 4 (from_le b) = b"
    using to_le_from_le [of a] to_le_from_le [of b] len by simp_all
  ultimately have "encode_host_state st = bs"
    using len by (simp add: st encode_host_state_def token_state_new_def c_def [symmetric] v bs
        STATE_VERSION_def Abs_service_id_inverse Abs_access_token_inverse)
  moreover have "host_state_valid st"
    using t by (simp add: st host_state_valid_def token_state_new_def time_max_def)
  ultimately show ?thesis by simp
qed

lemma encode_host_state_length: "length (encode_host_state st) = STATE_LEN"
  by (simp add: encode_host_state_def Let_def STATE_LEN_def)

interpretation state_codec: fixed_codec encode_host_state decode_host_state host_state_valid STATE_LEN
  by unfold_locales (simp_all add: decode_encode_host_state encode_decode_host_state encode_host_state_length)

section \<open>The file\<close>

definition state_temp :: "path \<Rightarrow> u64 \<Rightarrow> path" where
  "state_temp p r = temp_path ''host.state'' p r"

definition state_inode :: "bytes \<Rightarrow> inode" where
  "state_inode bs = \<lparr>f_mode = OwnerOnly, f_data = bs\<rparr>"

definition write_state_atomic :: "os \<Rightarrow> path \<Rightarrow> bytes \<Rightarrow> unit fio" where
  "write_state_atomic os p bs =
     fio_then (path_io ''create host state directory'' (parent_dir p) (sys_create_dirs os (parent_dir p))) (\<lambda>_.
     fio_then (create_temp os OwnerOnly ''create temporary host state''
                 ''temporary host state collision limit reached'' (state_temp p) p 0
                 TEMP_CREATE_ATTEMPTS_MAX) (\<lambda>t. with_temp os t
       (fio_then (fio_then (path_io ''write temporary host state'' t (sys_write_all os t bs))
                    (\<lambda>_. path_io ''write temporary host state'' t (sys_sync_all os t))) (\<lambda>_.
        fio_then (path_io ''replace host state'' p (sys_rename os t p)) (\<lambda>_.
        sync_parent os ''sync host state directory'' (parent_dir p))))))"

definition load_host_state :: "os \<Rightarrow> path \<Rightarrow> host_state option fio" where
  "load_host_state os p s =
     (case sys_read os p s of
        (Inl e, s') \<Rightarrow>
          if io_kind e = NotFound then (Inr None, s')
          else (Inl (PathIo ''read host state'' p e), s')
      | (Inr bs, s') \<Rightarrow> (case decode_host_state bs of Inl e \<Rightarrow> (Inl e, s') | Inr st \<Rightarrow> (Inr (Some st), s')))"

definition save_host_state :: "os \<Rightarrow> path \<Rightarrow> host_state \<Rightarrow> unit fio" where
  "save_host_state os p st =
     (case duration_since (ts_created_at (hs_token_state st)) 0 of
        None \<Rightarrow> fio_fail InvalidHostStateTimestamp
      | Some created \<Rightarrow> write_state_atomic os p (encode_host_state st))"

lemma state_temp_neq [simp]: "state_temp p r \<noteq> p"
  unfolding state_temp_def by (rule temp_path_neq) (simp add: is_sep_def)

lemma write_state_atomic_spec:
  "write_state_atomic os p bs s = (r, s') \<Longrightarrow> replaced_or_not os p (state_inode bs) r s s'"
  unfolding write_state_atomic_def state_inode_def by (erule replace_file_spec) simp

lemma save_host_state_valid:
  "0 \<le> ts_created_at (hs_token_state st) \<Longrightarrow> save_host_state os p st = write_state_atomic os p (encode_host_state st)"
  by (simp add: save_host_state_def duration_since_def)

lemma save_host_state_spec:
  assumes "save_host_state os p st s = (r, s')"
  shows "replaced_or_not os p (state_inode (encode_host_state st)) r s s'"
proof (cases "0 \<le> ts_created_at (hs_token_state st)")
  case True
  with assms write_state_atomic_spec show ?thesis by (simp add: save_host_state_valid)
next
  case False
  with assms show ?thesis
    by (auto simp: save_host_state_def duration_since_def fio_fail_def replaced_or_not_def)
qed

interpretation state_file: atomic_writer save_host_state "\<lambda>st. state_inode (encode_host_state st)"
proof unfold_locales
  show "fs_files s' p = Some (state_inode (encode_host_state x))" if "save_host_state os p x s = (Inr (), s')"
    for os p x s s'
    by (rule replaced_ok [OF save_host_state_spec [OF that]])
  show "fs_files s' p = fs_files s p \<or> fs_files s' p = Some (state_inode (encode_host_state x))"
    if "save_host_state os p x s = (r, s')" for os p x s r s'
    by (rule replaced_atomic [OF save_host_state_spec [OF that]])
  show "fs_files s' q = fs_files s q"
    if "save_host_state os p x s = (r, s')" "\<forall>q. os_fault os (RemoveFile q) = None" "q \<noteq> p"
    for os p x s r s' q
    by (rule replaced_frame [OF save_host_state_spec [OF that(1)] that(2,3)])
qed

section \<open>Properties\<close>

text \<open>
  C31. The decoder accepts exactly the byte strings the encoder produces for a Host state whose
  creation time is representable: 61 bytes, version 1, a nanosecond part below one second and a
  time within the system clock. Every other file is refused, none is read as another state.
\<close>

theorem host_state_canonical:
  "decode_host_state bs = Inr st \<longleftrightarrow> host_state_valid st \<and> encode_host_state st = bs"
  by (rule state_codec.decode_iff)

text \<open>
  What was saved is what is loaded: after a successful save of a Host state, loading returns
  it, with the same service id, token and creation time to the nanosecond, and the file is
  readable by its owner only.
\<close>

theorem host_state_roundtrip:
  assumes "save_host_state os p st s = (Inr (), s')"
    and "ts_created_at (hs_token_state st) \<le> time_max"
    and "os_fault os' (ReadFile p) = None"
  shows "load_host_state os' p s' = (Inr (Some st), s')
    \<and> map_option f_mode (fs_files s' p) = Some OwnerOnly"
proof -
  have "0 \<le> ts_created_at (hs_token_state st)"
    using assms(1) by (auto simp: save_host_state_def duration_since_def fio_fail_def split: if_splits)
  with assms(2) have "host_state_valid st" by (simp add: host_state_valid_def)
  then have "decode_host_state (encode_host_state st) = Inr st" by (rule state_codec.decode_encode)
  with state_file.write_then_read [OF assms(1,3)] state_file.write_ok [OF assms(1)] show ?thesis
    by (simp add: load_host_state_def state_inode_def)
qed

text \<open>
  C32. Saving the Host state never leaves a torn file: under every pattern of failing calls the
  target holds the old bytes or the complete new ones, and no other file changes as long as
  temporary files can be removed. A creation time before the epoch is refused before any call.
\<close>

theorem host_state_save_atomic:
  assumes "save_host_state os p st s = (r, s')"
  shows "(fs_files s' p = fs_files s p \<or> fs_data s' p = Some (encode_host_state st))
    \<and> ((\<forall>q. os_fault os (RemoveFile q) = None) \<longrightarrow> (\<forall>q. q \<noteq> p \<longrightarrow> fs_files s' q = fs_files s q))
    \<and> (ts_created_at (hs_token_state st) < 0 \<longrightarrow> r = Inl InvalidHostStateTimestamp \<and> s' = s)"
  using state_file.write_atomic [OF assms] state_file.write_frame [OF assms] assms
  by (auto simp: fs_data_def state_inode_def save_host_state_def duration_since_def fio_fail_def)

definition sample_state :: host_state where
  "sample_state = \<lparr>hs_service_id = service_filled 7,
     hs_token_state = token_state_new (token_filled 9) 1500000000\<rparr>"

lemma sample_state_saved: "\<exists>s'. save_host_state calm_os ''d/host.state'' sample_state empty_fs = (Inr (), s')"
  by (simp add: save_host_state_valid sample_state_def token_state_new_def write_state_atomic_def
      fio_defs sys_create_dirs_def  TEMP_CREATE_ATTEMPTS_MAX_def numeral_eq_Suc
      sys_create_new_def sys_write_all_def sys_sync_all_def sys_rename_def sync_parent_def sys_sync_dir_def
      drop_temp_def)

theorem host_state_roundtrip_witness:
  "\<exists>s'. save_host_state calm_os ''d/host.state'' sample_state empty_fs = (Inr (), s')
     \<and> load_host_state calm_os ''d/host.state'' s' = (Inr (Some sample_state), s')"
proof -
  obtain s' where run: "save_host_state calm_os ''d/host.state'' sample_state empty_fs = (Inr (), s')"
    using sample_state_saved by blast
  have "ts_created_at (hs_token_state sample_state) \<le> time_max"
    by (simp add: sample_state_def token_state_new_def time_max_def)
  from host_state_roundtrip [OF run this] run show ?thesis by auto
qed

theorem host_state_save_atomic_witness:
  "\<exists>r s'. save_host_state calm_os ''d/host.state'' sample_state empty_fs = (r, s')
     \<and> fs_files s' ''d/other'' = None"
proof -
  obtain r s' where run: "save_host_state calm_os ''d/host.state'' sample_state empty_fs = (r, s')" by force
  from host_state_save_atomic [OF run] run show ?thesis by auto
qed

end
