(* ===== verification/Cli_Client.thy ===== *)
theory Cli_Client
  imports Service_Properties Node_Invariant Profile Key_Store Host_State
begin

text \<open>
  \<^verbatim>\<open>cli/src/main.rs\<close>: what the commands do with the library. Each call into the persistence code
  gets its own \<open>os\<close>, so that any of them may fail; what the terminal shows is a list of lines.
  Parsing the command line is \<^verbatim>\<open>clap\<close>, colours and the clipboard are left out of the lines.
\<close>

section \<open>Arguments\<close>

datatype token_refresh =
    RefreshAlways | RefreshNever | RefreshOneHour | RefreshThreeHours | RefreshSixHours
  | RefreshTwelveHours | RefreshTwentyFourHours

fun refresh_policy :: "token_refresh \<Rightarrow> token_refresh_policy" where
  "refresh_policy RefreshAlways = PolicyAlways"
| "refresh_policy RefreshNever = PolicyNever"
| "refresh_policy RefreshOneHour = PolicyAfter (from_secs (60 * 60))"
| "refresh_policy RefreshThreeHours = PolicyAfter (from_secs (3 * 60 * 60))"
| "refresh_policy RefreshSixHours = PolicyAfter (from_secs (6 * 60 * 60))"
| "refresh_policy RefreshTwelveHours = PolicyAfter (from_secs (12 * 60 * 60))"
| "refresh_policy RefreshTwentyFourHours = PolicyAfter (from_secs (24 * 60 * 60))"

fun refresh_setting :: "token_refresh \<Rightarrow> token_refresh_setting" where
  "refresh_setting RefreshAlways = SetAlways"
| "refresh_setting RefreshNever = SetNever"
| "refresh_setting RefreshOneHour = SetOneHour"
| "refresh_setting RefreshThreeHours = SetThreeHours"
| "refresh_setting RefreshSixHours = SetSixHours"
| "refresh_setting RefreshTwelveHours = SetTwelveHours"
| "refresh_setting RefreshTwentyFourHours = SetTwentyFourHours"

fun refresh_of_setting :: "token_refresh_setting \<Rightarrow> token_refresh" where
  "refresh_of_setting SetAlways = RefreshAlways"
| "refresh_of_setting SetNever = RefreshNever"
| "refresh_of_setting SetOneHour = RefreshOneHour"
| "refresh_of_setting SetThreeHours = RefreshThreeHours"
| "refresh_of_setting SetSixHours = RefreshSixHours"
| "refresh_of_setting SetTwelveHours = RefreshTwelveHours"
| "refresh_of_setting SetTwentyFourHours = RefreshTwentyFourHours"

record host_args =
  ha_port :: u16
  ha_relay :: "string option"
  ha_delay :: u64
  ha_token_refresh :: "token_refresh option"
  ha_new_key :: bool
  ha_new_uri :: bool
  ha_key_path :: "path option"
  ha_max_players :: "u32 option"

text \<open>Any error ends the command; \<open>CliText\<close> are the ones made with \<^verbatim>\<open>anyhow!\<close> and \<^verbatim>\<open>bail!\<close>.\<close>

datatype cli_error =
    CliPersist persist_error
  | CliNode sculk_node_error
  | CliJoinUri join_uri_error
  | CliService tunnel_service_error
  | CliSignal io_error
  | CliText string

section \<open>Lines on the terminal\<close>

datatype printed = Out string | Err string

fun show_peer :: "peer_id \<Rightarrow> string" where
  "show_peer (PeerId s) = s"

text \<open>\<^verbatim>\<open>{:?}\<close> of a \<^verbatim>\<open>Duration\<close>: the largest unit that fits, with the digits after the point that matter.\<close>

fun pad_digits :: "nat \<Rightarrow> nat \<Rightarrow> string" where
  "pad_digits 0 n = []"
| "pad_digits (Suc k) n = pad_digits k (n div 10) @ [digit_char (n mod 10)]"

definition debug_fraction :: "nat \<Rightarrow> nat \<Rightarrow> string" where
  "debug_fraction k n =
     (let ds = rev (dropWhile (\<lambda>c. c = CHR ''0'') (rev (pad_digits k n)))
      in if ds = [] then [] else CHR ''.'' # ds)"

definition debug_duration :: "duration \<Rightarrow> string" where
  "debug_duration d =
     (if d \<ge> 1000000000 then show_nat (d div 1000000000) @ debug_fraction 9 (d mod 1000000000) @ ''s''
      else if d \<ge> 1000000 then show_nat (d div 1000000) @ debug_fraction 6 (d mod 1000000) @ ''ms''
      else if d \<ge> 1000 then show_nat (d div 1000) @ debug_fraction 3 (d mod 1000) @ [CHR 0xC2, CHR 0xB5] @ ''s''
      else show_nat d @ ''ns'')"

fun print_event :: "tunnel_event \<Rightarrow> printed list" where
  "print_event (PlayerJoined p) = [Out (''[+] Player joined: '' @ show_peer p)]"
| "print_event (PlayerLeft p reason) = [Out (''[-] Player left: '' @ show_peer p @ '' ('' @ reason @ '')'')]"
| "print_event Connected = [Out ''[*] Connected to host'']"
| "print_event (Disconnected reason) = [Out (''[!] Disconnected: '' @ reason)]"
| "print_event (PathChanged p is_relay rtt) =
     [Out (''[~] '' @ show_peer p @ '' path: '' @ (if is_relay then ''relay'' else ''direct'')
        @ '', RTT: '' @ show_nat (unat rtt) @ ''ms'')]"
| "print_event (EventError c message) = [Err (''[!] Error: '' @ message)]"
| "print_event (Reconnecting attempt) = [Out (''[~] Reconnecting (attempt '' @ show_nat (unat attempt) @ '')...'')]"
| "print_event Reconnected = [Out ''[*] Reconnected to host'']"
| "print_event (TokenRotationFailed retry_in) =
     [Err (''[!] Token rotation failed; retrying in '' @ debug_duration retry_in)]"
| "print_event (AuthFailed p) = [Out (''[!] Auth failed: '' @ show_peer p)]"
| "print_event (PlayerRejected p reason) = [Out (''[-] Player rejected: '' @ show_peer p @ '' ('' @ reason @ '')'')]"
| "print_event TokenRotated = []"

section \<open>Preparing to host\<close>

definition fio_of :: "persist_error + 'a \<Rightarrow> 'a fio" where
  "fio_of r s = (r, s)"

record host_setup =
  hu_key :: secret_key
  hu_relay :: "relay_url option"
  hu_refresh :: token_refresh
  hu_config :: host_config

text \<open>\<open>fresh\<close> is the key that is generated if one is needed.\<close>

definition host_command ::
  "crates \<Rightarrow> toml_crate \<Rightarrow> path option \<Rightarrow> (nat \<Rightarrow> os) \<Rightarrow> secret_key \<Rightarrow> host_args \<Rightarrow> host_setup fio" where
  "host_command X T dirs oss fresh args =
     fio_then (fio_of (case ha_key_path args of Some p \<Rightarrow> Inr p | None \<Rightarrow> default_key_path dirs)) (\<lambda>p.
     fio_then (if ha_new_key args then generate_new_key (oss 0) p fresh else load_or_generate_key (oss 0) p fresh) (\<lambda>key.
     fio_then (profile_load T dirs (oss 1)) (\<lambda>prof.
     fio_then (fio_of (resolve_relay_url X prof (ha_relay args))) (\<lambda>relay.
     fio_then
       (case ha_token_refresh args of
          Some r \<Rightarrow>
            fio_then (profile_save T dirs (oss 2)
                (prof\<lparr>pf_host := (pf_host prof)\<lparr>hp_token_refresh := refresh_setting r\<rparr>\<rparr>)) (\<lambda>_. fio_return r)
        | None \<Rightarrow> fio_return (refresh_of_setting (hp_token_refresh (pf_host prof)))) (\<lambda>refresh.
     fio_return \<lparr>hu_key = key, hu_relay = relay, hu_refresh = refresh,
       hu_config = host_config_default\<lparr>hc_event_delay := from_secs (unat (ha_delay args)),
                                        hc_max_players := ha_max_players args\<rparr>\<rparr>)))))"

section \<open>The relay command\<close>

definition relay_command ::
  "crates \<Rightarrow> toml_crate \<Rightarrow> path option \<Rightarrow> (nat \<Rightarrow> os) \<Rightarrow> string option \<Rightarrow> bool \<Rightarrow> bool \<Rightarrow> printed list fio" where
  "relay_command X T dirs oss url list_it reset =
     fio_then (profile_load T dirs (oss 0)) (\<lambda>prof.
       let relay = pf_relay prof
       in if reset then
            fio_then (profile_save T dirs (oss 1) (prof\<lparr>pf_relay := relay\<lparr>rp_custom := False\<rparr>\<rparr>)) (\<lambda>_.
              fio_return [Out ''Reset to default n0 relay servers.''])
          else case url of
            Some u \<Rightarrow>
              fio_then (fio_of (resolve_relay_url X prof (Some u))) (\<lambda>_.
              fio_then (profile_save T dirs (oss 1) (prof\<lparr>pf_relay := relay\<lparr>rp_custom := True, rp_url := Some u\<rparr>\<rparr>)) (\<lambda>_.
                fio_return [Out (''Custom relay saved: '' @ u)]))
          | None \<Rightarrow>
              fio_return
                (if \<not> list_it then []
                 else if rp_custom relay then
                   (case rp_url relay of
                      Some u \<Rightarrow> [Out (''Current relay: '' @ u @ '' (custom)'')]
                    | None \<Rightarrow> [Out ''Custom relay enabled but URL not set.''])
                 else [Out ''Using default n0 relay servers.'']))"

section \<open>Hosting\<close>

text \<open>\<^verbatim>\<open>run_host\<close> up to binding: where the state is kept, and what is in it.\<close>

definition run_host_state :: "path option \<Rightarrow> os \<Rightarrow> (path \<times> host_state option) fio" where
  "run_host_state dirs os =
     fio_then (fio_of (default_host_state_path dirs)) (\<lambda>p.
     fio_then (load_host_state os p) (\<lambda>saved. fio_return (p, saved)))"

definition run_host_options :: "secret_key \<Rightarrow> relay_url option \<Rightarrow> node_options" where
  "run_host_options key relay = node_options_default\<lparr>no_secret_key := Some key, no_relay_url := relay\<rparr>"

text \<open>\<open>fresh_id\<close> is the service id that is generated when no state was saved.\<close>

definition host_service_options ::
  "u16 \<Rightarrow> host_config \<Rightarrow> token_refresh \<Rightarrow> bool \<Rightarrow> host_state option \<Rightarrow> service_id \<Rightarrow> hosted_service_options" where
  "host_service_options port config refresh new_uri saved fresh_id =
     \<lparr>so_service_id = (case saved of None \<Rightarrow> fresh_id | Some st \<Rightarrow> hs_service_id st),
      so_target_addr = \<lparr>sa_ip = V4 127 0 0 1, sa_port = port\<rparr>,
      so_token_state = (if new_uri then None else map_option hs_token_state saved),
      so_token_refresh = refresh_policy refresh, so_config = config\<rparr>"

text \<open>The handle's \<^verbatim>\<open>token_state\<close> and \<^verbatim>\<open>join_uri\<close>, as they are answered when they are asked.\<close>

record handle_answers =
  an_token_state :: "sculk_node_error + token_state"
  an_join_uri :: "sculk_node_error + join_uri"

definition save_current_state ::
  "os \<Rightarrow> path \<Rightarrow> service_id \<Rightarrow> sculk_node_error + token_state \<Rightarrow> fs \<Rightarrow> (cli_error + unit) \<times> fs" where
  "save_current_state os p sid ts s =
     (case ts of
        Inl e \<Rightarrow> (Inl (CliNode e), s)
      | Inr state \<Rightarrow>
          (case save_host_state os p \<lparr>hs_service_id = sid, hs_token_state = state\<rparr> s of
             (r, s') \<Rightarrow> (map_err CliPersist r, s')))"

definition print_join_uri :: "crates \<Rightarrow> bool \<Rightarrow> join_uri \<Rightarrow> bool \<Rightarrow> cli_error + printed list" where
  "print_join_uri X copied uri rotated =
     and_then (map_err CliJoinUri (expose_secret_uri X uri)) (\<lambda>txt.
       Inr (Out ((if rotated then ''Updated Join URI'' else ''Join URI'') @ '': '' @ [CHR 0x22] @ txt @ [CHR 0x22])
            # (if copied then [Out ''(Copied to clipboard)''] else [])
            @ [Out ''Share this URI with players.'']))"

text \<open>
  What the loop of \<^verbatim>\<open>run_host_until_shutdown\<close> wakes up for; a status comes with the answers of
  the handle and whether copying works. \<open>hl_result\<close> is set when the function returns.
\<close>

datatype event_recv = EventReceived tunnel_event | EventsLagged nat | EventsClosed

datatype host_wake =
    HostCtrlC "io_error + unit"
  | HostEventRecv event_recv
  | HostStatusRecv "hosted_service_status option" handle_answers os bool

record host_loop =
  hl_service_id :: service_id
  hl_generation :: u64
  hl_fs :: fs
  hl_printed :: "printed list"
  hl_result :: "(cli_error + unit) option"

text \<open>Saving and printing what the handle answers, at the start and after a rotation.\<close>

definition share_current ::
  "crates \<Rightarrow> path \<Rightarrow> os \<Rightarrow> bool \<Rightarrow> handle_answers \<Rightarrow> bool \<Rightarrow> host_loop \<Rightarrow> host_loop" where
  "share_current X p os copied an rotated h =
     (case save_current_state os p (hl_service_id h) (an_token_state an) (hl_fs h) of
        (Inl e, s) \<Rightarrow> h\<lparr>hl_fs := s, hl_result := Some (Inl e)\<rparr>
      | (Inr _, s) \<Rightarrow>
          (case and_then (map_err CliNode (an_join_uri an)) (\<lambda>uri. print_join_uri X copied uri rotated) of
             Inl e \<Rightarrow> h\<lparr>hl_fs := s, hl_result := Some (Inl e)\<rparr>
           | Inr shown \<Rightarrow> h\<lparr>hl_fs := s, hl_printed := hl_printed h @ shown\<rparr>))"

definition host_loop_start ::
  "crates \<Rightarrow> path \<Rightarrow> service_id \<Rightarrow> u64 \<Rightarrow> os \<Rightarrow> bool \<Rightarrow> handle_answers \<Rightarrow> fs \<Rightarrow> host_loop" where
  "host_loop_start X p sid generation os copied an s =
     (let h = share_current X p os copied an False
                \<lparr>hl_service_id = sid, hl_generation = generation, hl_fs = s, hl_printed = [], hl_result = None\<rparr>
      in if hl_result h = None then h\<lparr>hl_printed := hl_printed h @ [Out ''Press Ctrl+C to stop.'']\<rparr> else h)"

fun host_loop_step :: "crates \<Rightarrow> path \<Rightarrow> host_loop \<Rightarrow> host_wake \<Rightarrow> host_loop" where
  "host_loop_step X p h (HostCtrlC r) =
     (if hl_result h \<noteq> None then h else h\<lparr>hl_result := Some (map_err CliSignal r)\<rparr>)"
| "host_loop_step X p h (HostEventRecv ev) =
     (if hl_result h \<noteq> None then h
      else case ev of
        EventReceived e \<Rightarrow> h\<lparr>hl_printed := hl_printed h @ print_event e\<rparr>
      | EventsLagged n \<Rightarrow> h\<lparr>hl_printed := hl_printed h @ [Err (''[!] Missed '' @ show_nat n @ '' tunnel events'')]\<rparr>
      | EventsClosed \<Rightarrow> h\<lparr>hl_result := Some (Inr ())\<rparr>)"
| "host_loop_step X p h (HostStatusRecv st an os copied) =
     (if hl_result h \<noteq> None then h
      else case st of
        None \<Rightarrow> h\<lparr>hl_result := Some (Inr ())\<rparr>
      | Some status \<Rightarrow>
          if st_uri_generation status > hl_generation h
          then share_current X p os copied an True (h\<lparr>hl_generation := st_uri_generation status\<rparr>)
          else h)"

text \<open>The Node is closed however the loop ends; \<open>Closed.\<close> is shown unless it failed.\<close>

definition run_host_end :: "net_view \<Rightarrow> (cli_error + unit) \<Rightarrow> node \<Rightarrow> (cli_error + printed list) \<times> node" where
  "run_host_end net r n = (and_then r (\<lambda>_. Inr [Out '''', Out ''Closed.'']), node_close net n)"

section \<open>Joining\<close>

definition join_command_options ::
  "crates \<Rightarrow> string \<Rightarrow> u16 option \<Rightarrow> u64 \<Rightarrow> u64 \<Rightarrow> cli_error + printed list \<times> join_options" where
  "join_command_options X uri_text port delay timeout =
     and_then (map_err (\<lambda>e. CliText (join_uri_error_text e)) (parse_join_uri X uri_text)) (\<lambda>uri.
       let shown = (case ju_relay_url uri of None \<Rightarrow> [] | Some url \<Rightarrow> [Out (''Relay: '' @ relay_display url)]);
           config = join_config_default\<lparr>jc_event_delay := from_secs (unat delay),
             jc_reconnect_timeout := (if timeout \<noteq> 0 then Some (from_secs (unat timeout)) else None)\<rparr>
       in Inr (shown, (join_options_new uri)\<lparr>
            jo_local_port := (case port of None \<Rightarrow> LocalAuto | Some q \<Rightarrow> LocalFixed q), jo_config := config\<rparr>))"

text \<open>The updates as the subscription returns them; \<open>None\<close> is its end. \<open>None\<close> as a result: still waiting.\<close>

fun wait_until_active ::
  "tunnel_mode \<Rightarrow> tunnel_update option list \<Rightarrow> printed list \<times> (cli_error + tunnel_status) option" where
  "wait_until_active m [] = ([], None)"
| "wait_until_active m (None # us) = ([], Some (Inl (CliText ''tunnel service closed before becoming active'')))"
| "wait_until_active m (Some (UpdateStatus st) # us) =
     (if tn_phase (tu_state st) = PhaseActive \<and> tn_mode (tu_state st) = Some m then ([], Some (Inr st))
      else if tn_phase (tu_state st) = PhaseIdle
      then ([], Some (Inl (CliText ''tunnel stopped before becoming active'')))
      else wait_until_active m us)"
| "wait_until_active m (Some (UpdateEvent ev) # us) =
     (case ev of
        EventError c message \<Rightarrow> ([], Some (Inl (CliText message)))
      | _ \<Rightarrow> (case wait_until_active m us of (shown, r) \<Rightarrow> (print_event ev @ shown, r)))"

definition join_local_addr :: "tunnel_status \<Rightarrow> cli_error + socket_addr" where
  "join_local_addr st = ok_or (CliText ''join started without a local listener'') (tn_local_addr (tu_state st))"

datatype shutdown_wake = ShutCtrlC "io_error + unit" | ShutUpdate "tunnel_update option"

text \<open>Whether it was interrupted; \<open>None\<close> is still waiting.\<close>

fun wait_for_shutdown :: "shutdown_wake list \<Rightarrow> printed list \<times> (cli_error + bool) option" where
  "wait_for_shutdown [] = ([], None)"
| "wait_for_shutdown (ShutCtrlC r # ws) = ([], Some (and_then (map_err CliSignal r) (\<lambda>_. Inr True)))"
| "wait_for_shutdown (ShutUpdate u # ws) =
     (case u of
        None \<Rightarrow> ([], Some (Inr False))
      | Some (UpdateStatus st) \<Rightarrow>
          if tn_phase (tu_state st) = PhaseIdle then ([], Some (Inr False)) else wait_for_shutdown ws
      | Some (UpdateEvent ev) \<Rightarrow> (case wait_for_shutdown ws of (shown, r) \<Rightarrow> (print_event ev @ shown, r)))"

text \<open>The service is shut down in any case; the closing line is shown only after an interrupt.\<close>

definition wait_for_shutdown_end :: "bool \<Rightarrow> tunnel_service_error + unit \<Rightarrow> cli_error + printed list" where
  "wait_for_shutdown_end interrupted shut =
     and_then (map_err CliService shut) (\<lambda>_. Inr (if interrupted then [Out '''', Out ''Closed.''] else []))"

end
