(* ===== verification/Cli_Properties.thy ===== *)
theory Cli_Properties
  imports Cli_Client Node_Properties
begin

text \<open>
  What a user of the command line relies on: preferences given once are used again, the share URI
  survives a restart, and the state file follows every rotation.
\<close>

section \<open>Reading back\<close>

lemma load_existing_key:
  assumes "fs_data s p = Some (secret_bytes k)" and "os_fault os (ReadFile p) = None"
  shows "load_or_generate_key os p fresh s = (Inr k, s)"
  using assms load_key_Inr [of os p s k s] by (simp add: load_or_generate_key_def)

lemma existing_key_state:
  assumes "load_or_generate_key os p fresh s = (Inr k, s')" "fs_files s p \<noteq> None" "os_fault os (ReadFile p) = None"
  shows "s' = s"
proof -
  obtain r s1 where l: "load_key os p s = (r, s1)" by force
  with load_key_state have "s1 = s" by blast
  with l assms load_key_not_found [of os p s] show ?thesis
    by (cases r) (auto simp: load_or_generate_key_def)
qed

lemma profile_save_other:
  assumes "profile_save T dirs os prof s = (Inr (), s')" "profile_path dirs = Inr pp" "q \<noteq> pp"
  shows "fs_files s' q = fs_files s q"
  using assms profile_save_to_spec [of T os pp prof s] by (auto simp: profile_save_def replaced_or_not_def)

lemma profile_load_cases:
  assumes "profile_load T dirs os s = (Inr prof, s')" and "profile_path dirs = Inr pp"
  obtains (found) "s' = s" "\<And>os'. os_fault os' (ReadFile pp) = None \<Longrightarrow> profile_load T dirs os' s' = (Inr prof, s')"
  | (created) "profile_save T dirs os prof s = (Inr (), s')"
proof -
  from assms have l: "profile_load_from T os pp s = (Inr prof, s')" by (simp add: profile_load_def)
  obtain r s1 where r: "read_to_string os pp s = (r, s1)" by force
  have s1: "s1 = s" using r by (auto simp: read_to_string_def sys_read_def split: option.splits if_splits)
  show thesis
  proof (cases r)
    case (Inl e)
    with l r s1 have "profile_save_to T os pp prof s = (Inr (), s')"
      by (auto simp: profile_load_from_def fio_then_Inr fio_return_def split: if_splits)
    with assms(2) show thesis by (intro created) (simp add: profile_save_def)
  next
    case (Inr content)
    have "read_to_string os' pp s = (Inr content, s)" if "os_fault os' (ReadFile pp) = None" for os'
      using r Inr that by (auto simp: read_to_string_def sys_read_def split: option.splits if_splits)
    with l r s1 Inr assms(2) show thesis
      by (intro found) (auto simp: profile_load_def profile_load_from_def split: sum.splits)
  qed
qed

lemma profile_saved:
  assumes "toml_law T" "profile_save T dirs os prof s = (Inr (), s')" "profile_path dirs = Inr pp"
    "os_fault os' (ReadFile pp) = None"
  shows "profile_load T dirs os' s' = (Inr prof, s')"
  using assms load_after_save [of T os pp prof s s' os'] by (simp add: profile_load_def profile_save_def)

lemma profile_load_again:
  assumes "toml_law T" "profile_load T dirs os s = (Inr prof, s')" "profile_path dirs = Inr pp"
    "os_fault os' (ReadFile pp) = None"
  shows "profile_load T dirs os' s' = (Inr prof, s')"
  using assms(2,3)
proof (cases rule: profile_load_cases)
  case created
  with assms profile_saved show ?thesis by blast
qed (use assms in blast)

lemma profile_load_other:
  assumes "profile_load T dirs os s = (Inr prof, s')" "profile_path dirs = Inr pp" "q \<noteq> pp"
  shows "fs_files s' q = fs_files s q"
  using assms(1,2)
proof (cases rule: profile_load_cases)
  case created
  with assms profile_save_other show ?thesis by blast
qed simp

lemma refresh_setting_inverse [simp]: "refresh_of_setting (refresh_setting r) = r"
  by (cases r) simp_all

lemma load_or_generate_data:
  assumes "load_or_generate_key os p fresh s = (Inr k, s')"
  shows "fs_data s' p = Some (secret_bytes k)"
proof -
  obtain r1 s1 where l: "load_key os p s = (r1, s1)" by force
  then have "s1 = s" by (rule load_key_state)
  with assms l generate_key_exclusive_Inr [of os p fresh s k s'] show ?thesis
    by (cases r1) (auto simp: load_or_generate_key_def load_key_Inr split: if_splits)
qed

lemma generate_new_data:
  assumes "generate_new_key os p fresh s = (Inr k, s')"
  shows "fs_data s' p = Some (secret_bytes k)"
proof -
  have "save_key_replace os p fresh s = (Inr (), s')" "k = fresh"
    using assms by (auto simp: generate_new_key_def fio_then_Inr fio_return_def)
  with key_file.write_ok show ?thesis by (fastforce simp: fs_data_def key_inode_def)
qed

section \<open>Preferences\<close>

definition key_path_of :: "path option \<Rightarrow> host_args \<Rightarrow> persist_error + path" where
  "key_path_of dirs args = (case ha_key_path args of Some p \<Rightarrow> Inr p | None \<Rightarrow> default_key_path dirs)"

text \<open>A successful run of the command, step by step.\<close>

lemma host_command_steps:
  assumes "host_command X T dirs oss fresh args s = (Inr u, s')"
  obtains kp s1 prof s2 where "key_path_of dirs args = Inr kp"
    "(if ha_new_key args then generate_new_key (oss 0) kp fresh else load_or_generate_key (oss 0) kp fresh) s = (Inr (hu_key u), s1)"
    "profile_load T dirs (oss 1) s1 = (Inr prof, s2)"
    "resolve_relay_url X prof (ha_relay args) = Inr (hu_relay u)"
    "case ha_token_refresh args of
       Some r \<Rightarrow> hu_refresh u = r \<and> profile_save T dirs (oss 2)
           (prof\<lparr>pf_host := (pf_host prof)\<lparr>hp_token_refresh := refresh_setting r\<rparr>\<rparr>) s2 = (Inr (), s')
     | None \<Rightarrow> hu_refresh u = refresh_of_setting (hp_token_refresh (pf_host prof)) \<and> s' = s2"
  using assms
  by (force simp: host_command_def fio_then_Inr fio_of_def fio_return_def key_path_of_def split: option.splits)

lemma key_step_data:
  "(if new then generate_new_key os p fresh else load_or_generate_key os p fresh) s = (Inr k, s') \<Longrightarrow>
     fs_data s' p = Some (secret_bytes k)"
  by (auto simp: load_or_generate_data generate_new_data split: if_splits)

lemma resolve_relay_cong: "pf_relay a = pf_relay b \<Longrightarrow> resolve_relay_url X a c = resolve_relay_url X b c"
  by (cases c) (simp_all add: resolve_relay_url_def)

text \<open>What a successful run leaves in the two files.\<close>

lemma host_command_leaves:
  assumes run: "host_command X T dirs oss fresh args s = (Inr u, s')" and law: "toml_law T"
    and pp: "profile_path dirs = Inr pp" and kp: "key_path_of dirs args = Inr kp" "kp \<noteq> pp"
  obtains prof where "fs_data s' kp = Some (secret_bytes (hu_key u))"
    "refresh_of_setting (hp_token_refresh (pf_host prof)) = hu_refresh u"
    "resolve_relay_url X prof (ha_relay args) = Inr (hu_relay u)"
    "\<forall>os'. os_fault os' (ReadFile pp) = None \<longrightarrow> profile_load T dirs os' s' = (Inr prof, s')"
  using run
proof (cases rule: host_command_steps)
  case (1 kp' s1 prof s2)
  from key_step_data [OF 1(2)] 1(1) kp(1) have "fs_data s1 kp = Some (secret_bytes (hu_key u))" by simp
  with profile_load_other [OF 1(3) pp] kp(2) have k2: "fs_data s2 kp = Some (secret_bytes (hu_key u))"
    by (simp add: fs_data_def)
  show thesis
  proof (cases "ha_token_refresh args")
    case None
    with 1 k2 profile_load_again [OF law 1(3) pp] show thesis by (intro that [of prof]) auto
  next
    case (Some r)
    define prof' where "prof' = prof\<lparr>pf_host := (pf_host prof)\<lparr>hp_token_refresh := refresh_setting r\<rparr>\<rparr>"
    have sv: "profile_save T dirs (oss 2) prof' s2 = (Inr (), s')" "hu_refresh u = r"
      using 1(5) Some by (simp_all add: prof'_def)
    with profile_save_other [OF sv(1) pp] k2 kp(2) have "fs_data s' kp = Some (secret_bytes (hu_key u))"
      by (simp add: fs_data_def)
    moreover have "resolve_relay_url X prof' (ha_relay args) = Inr (hu_relay u)"
      using 1(4) resolve_relay_cong [of prof' prof] by (simp add: prof'_def)
    ultimately show thesis
      using profile_saved [OF law sv(1) pp] sv(2) by (intro that [of prof']) (simp_all add: prof'_def)
  qed
qed

text \<open>
  Preferences are kept: hosting again without options uses the key, the token refresh policy
  and the relay that were used last, whether they were given, configured or generated then, and
  writes nothing.
\<close>

theorem host_preferences_persist:
  assumes "host_command X T dirs oss fresh args s = (Inr u, s1)" and "toml_law T"
    and "profile_path dirs = Inr pp" and "key_path_of dirs args = Inr kp" and "kp \<noteq> pp"
    and "ha_key_path args' = ha_key_path args" "ha_relay args' = ha_relay args"
    and "ha_token_refresh args' = None" "\<not> ha_new_key args'"
    and "\<forall>k. os_fault (oss' k) (ReadFile kp) = None \<and> os_fault (oss' k) (ReadFile pp) = None"
  shows "\<exists>u'. host_command X T dirs oss' fresh' args' s1 = (Inr u', s1)
    \<and> hu_key u' = hu_key u \<and> hu_refresh u' = hu_refresh u \<and> hu_relay u' = hu_relay u"
proof -
  from assms(1-5) obtain prof where left: "fs_data s1 kp = Some (secret_bytes (hu_key u))"
    "refresh_of_setting (hp_token_refresh (pf_host prof)) = hu_refresh u"
    "resolve_relay_url X prof (ha_relay args) = Inr (hu_relay u)"
    "\<forall>os'. os_fault os' (ReadFile pp) = None \<longrightarrow> profile_load T dirs os' s1 = (Inr prof, s1)"
    by (rule host_command_leaves)
  have "load_or_generate_key (oss' 0) kp fresh' s1 = (Inr (hu_key u), s1)"
    using load_existing_key [OF left(1)] assms(10) by blast
  moreover have "profile_load T dirs (oss' 1) s1 = (Inr prof, s1)" using left(4) assms(10) by blast
  moreover have "key_path_of dirs args' = Inr kp" using assms(4,6) by (simp add: key_path_of_def)
  ultimately show ?thesis
    using left(2,3) assms(7-9) by (simp add: host_command_def fio_then_def fio_of_def fio_return_def key_path_of_def)
qed

text \<open>
  The relay command takes effect: after a URL was set, hosting without an explicit relay uses
  that URL, parsed; after a reset it uses none, and the URL is still there to be shown; a URL that
  does not parse is refused and leaves the profile as it was.
\<close>

theorem relay_command_takes_effect:
  assumes "toml_law T" and "profile_path dirs = Inr pp" and "os_fault os' (ReadFile pp) = None"
    and "relay_command X T dirs oss url list_it reset s = (r, s')"
  shows "(\<forall>shown u. r = Inr shown \<and> url = Some u \<and> \<not> reset \<longrightarrow>
        (\<exists>prof relay. profile_load T dirs os' s' = (Inr prof, s') \<and> cr_relay_parse X u = Inr relay
           \<and> resolve_relay_url X prof None = Inr (Some relay)))
    \<and> (\<forall>shown. r = Inr shown \<and> reset \<longrightarrow>
        (\<exists>prof. profile_load T dirs os' s' = (Inr prof, s') \<and> resolve_relay_url X prof None = Inr None))
    \<and> (\<forall>u e prof. url = Some u \<and> \<not> reset \<and> cr_relay_parse X u = Inl e
          \<and> profile_load T dirs (oss 0) s = (Inr prof, s) \<longrightarrow> r = Inl (PersistRelayUrlParse e) \<and> s' = s)"
proof (intro conjI allI impI)
  fix shown u
  assume h: "r = Inr shown \<and> url = Some u \<and> \<not> reset"
  with assms(4) obtain prof s1 v where
    rel: "resolve_relay_url X prof (Some u) = Inr v"
    and sv: "profile_save T dirs (oss 1) (prof\<lparr>pf_relay := (pf_relay prof)\<lparr>rp_custom := True, rp_url := Some u\<rparr>\<rparr>) s1 = (Inr (), s')"
    by (auto simp: relay_command_def fio_then_Inr fio_of_def fio_return_def Let_def)
  from rel obtain relay where "cr_relay_parse X u = Inr relay"
    by (auto simp: resolve_relay_url_def Let_def and_then_Inr)
  with profile_saved [OF assms(1) sv assms(2,3)]
  show "\<exists>prof relay. profile_load T dirs os' s' = (Inr prof, s') \<and> cr_relay_parse X u = Inr relay
           \<and> resolve_relay_url X prof None = Inr (Some relay)"
    by (auto simp: resolve_relay_url_def)
next
  fix shown
  assume h: "r = Inr shown \<and> reset"
  with assms(4) obtain prof s1 where
    sv: "profile_save T dirs (oss 1) (prof\<lparr>pf_relay := (pf_relay prof)\<lparr>rp_custom := False\<rparr>\<rparr>) s1 = (Inr (), s')"
    by (auto simp: relay_command_def fio_then_Inr fio_return_def Let_def)
  from profile_saved [OF assms(1) sv assms(2,3)]
  show "\<exists>prof. profile_load T dirs os' s' = (Inr prof, s') \<and> resolve_relay_url X prof None = Inr None"
    by (auto simp: resolve_relay_url_def)
next
  fix u e prof
  assume "url = Some u \<and> \<not> reset \<and> cr_relay_parse X u = Inl e \<and> profile_load T dirs (oss 0) s = (Inr prof, s)"
  with assms(4) show "r = Inl (PersistRelayUrlParse e)" "s' = s"
    by (auto simp: relay_command_def fio_then_def fio_of_def resolve_relay_url_def)
qed

section \<open>Restarting\<close>

text \<open>The token state the user was last shown the URI of, at the start or after a rotation.\<close>

fun last_shared :: "u64 \<Rightarrow> token_state \<Rightarrow> host_wake list \<Rightarrow> token_state" where
  "last_shared g ts [] = ts"
| "last_shared g ts (HostCtrlC r # ws) = ts"
| "last_shared g ts (HostEventRecv EventsClosed # ws) = ts"
| "last_shared g ts (HostEventRecv ev # ws) = last_shared g ts ws"
| "last_shared g ts (HostStatusRecv None an os copied # ws) = ts"
| "last_shared g ts (HostStatusRecv (Some st) an os copied # ws) =
     (if st_uri_generation st > g
      then (case an_token_state an of Inr ts' \<Rightarrow> last_shared (st_uri_generation st) ts' ws | Inl _ \<Rightarrow> ts)
      else last_shared g ts ws)"

definition representable :: "sculk_node_error + token_state \<Rightarrow> bool" where
  "representable r = (case r of Inl _ \<Rightarrow> True | Inr ts \<Rightarrow> ts_created_at ts \<le> time_max)"

fun wake_representable :: "host_wake \<Rightarrow> bool" where
  "wake_representable (HostStatusRecv st an os copied) = representable (an_token_state an)"
| "wake_representable _ = True"

definition file_holds :: "path \<Rightarrow> service_id \<Rightarrow> token_state \<Rightarrow> fs \<Rightarrow> bool" where
  "file_holds p sid ts s \<longleftrightarrow>
     (\<exists>st. st = \<lparr>hs_service_id = sid, hs_token_state = ts\<rparr> \<and> host_state_valid st
        \<and> fs_files s p = Some (state_inode (encode_host_state st)))"

lemma saved_file_holds:
  assumes "save_current_state os p sid (Inr ts) s = (Inr (), s')" and "ts_created_at ts \<le> time_max"
  shows "file_holds p sid ts s'"
proof -
  define st where "st = \<lparr>hs_service_id = sid, hs_token_state = ts\<rparr>"
  obtain r s1 where "save_host_state os p st s = (r, s1)" by force
  with assms have sv: "save_host_state os p st s = (Inr (), s')"
    by (cases r) (simp_all add: save_current_state_def st_def)
  moreover have "0 \<le> ts_created_at ts"
    using sv by (auto simp: st_def save_host_state_def duration_since_def fio_fail_def split: if_splits)
  ultimately show ?thesis
    using assms(2) state_file.write_ok [OF sv] by (simp add: file_holds_def st_def host_state_valid_def)
qed

lemma file_holds_load:
  assumes "file_holds p sid ts s" and "os_fault os (ReadFile p) = None"
  shows "load_host_state os p s = (Inr (Some \<lparr>hs_service_id = sid, hs_token_state = ts\<rparr>), s)"
  using assms decode_encode_host_state
  by (auto simp: file_holds_def load_host_state_def sys_read_def state_inode_def)

text \<open>Sharing either fails, or the file holds what was shared.\<close>

lemma share_current_cases:
  assumes "hl_result h = None" "representable (an_token_state an)"
  shows "(\<exists>e. hl_result (share_current X p os copied an rotated h) = Some (Inl e))
    \<or> hl_result (share_current X p os copied an rotated h) = None
       \<and> hl_service_id (share_current X p os copied an rotated h) = hl_service_id h
       \<and> hl_generation (share_current X p os copied an rotated h) = hl_generation h
       \<and> (\<exists>ts. an_token_state an = Inr ts
           \<and> file_holds p (hl_service_id h) ts (hl_fs (share_current X p os copied an rotated h)))"
proof (cases "an_token_state an")
  case (Inl e)
  then show ?thesis by (simp add: share_current_def save_current_state_def)
next
  case (Inr ts)
  obtain r s' where sv: "save_current_state os p (hl_service_id h) (Inr ts) (hl_fs h) = (r, s')" by force
  show ?thesis
  proof (cases r)
    case (Inl e)
    with sv Inr show ?thesis by (simp add: share_current_def)
  next
    case ok: (Inr u)
    with saved_file_holds [of os p "hl_service_id h" ts "hl_fs h" s'] sv assms(2) Inr
    have "file_holds p (hl_service_id h) ts s'" by (simp add: representable_def)
    with sv ok Inr assms(1) show ?thesis by (auto simp: share_current_def split: sum.split)
  qed
qed

lemma host_loop_done: "hl_result h \<noteq> None \<Longrightarrow> run_steps (host_loop_step X p) h ws = h"
proof (induction ws)
  case (Cons w ws)
  then have "host_loop_step X p h w = h" by (cases w) auto
  with Cons show ?case by simp
qed simp

lemma host_loop_holds:
  assumes "hl_result h = None" "file_holds p (hl_service_id h) ts (hl_fs h)" "list_all wake_representable ws"
    and "\<nexists>e. hl_result (run_steps (host_loop_step X p) h ws) = Some (Inl e)"
  shows "file_holds p (hl_service_id h) (last_shared (hl_generation h) ts ws) (hl_fs (run_steps (host_loop_step X p) h ws))"
  using assms
proof (induction ws arbitrary: h ts)
  case (Cons w ws)
  show ?case
  proof (cases w)
    case (HostCtrlC r)
    with Cons.prems show ?thesis by (simp add: host_loop_done)
  next
    case (HostEventRecv ev)
    show ?thesis
    proof (cases ev)
      case EventsClosed
      with HostEventRecv Cons.prems show ?thesis by (simp add: host_loop_done)
    next
      case (EventReceived e)
      with HostEventRecv Cons.prems Cons.IH [of "h\<lparr>hl_printed := hl_printed h @ print_event e\<rparr>" ts]
      show ?thesis by simp
    next
      case (EventsLagged k)
      with HostEventRecv Cons.prems
        Cons.IH [of "h\<lparr>hl_printed := hl_printed h @ [Err (''[!] Missed '' @ show_nat k @ '' tunnel events'')]\<rparr>" ts]
      show ?thesis by simp
    qed
  next
    case (HostStatusRecv st an os copied)
    show ?thesis
    proof (cases "\<exists>status. st = Some status \<and> hl_generation h < st_uri_generation status")
      case False
      with HostStatusRecv Cons show ?thesis by (cases st) (auto simp: host_loop_done)
    next
      case True
      then obtain status where st: "st = Some status" "hl_generation h < st_uri_generation status" by blast
      define h1 where "h1 = share_current X p os copied an True (h\<lparr>hl_generation := st_uri_generation status\<rparr>)"
      have step: "host_loop_step X p h w = h1" using HostStatusRecv st Cons.prems(1) by (simp add: h1_def)
      have "\<nexists>e. hl_result h1 = Some (Inl e)"
        using Cons.prems(4) step host_loop_done [of h1 X p ws] by auto
      with share_current_cases [of "h\<lparr>hl_generation := st_uri_generation status\<rparr>" an X p os copied True]
        Cons.prems(1,3) HostStatusRecv obtain ts' where
        h1: "hl_result h1 = None" "hl_service_id h1 = hl_service_id h" "hl_generation h1 = st_uri_generation status"
        and ts': "an_token_state an = Inr ts'" "file_holds p (hl_service_id h) ts' (hl_fs h1)"
        by (auto simp: h1_def [symmetric])
      with Cons.IH [of h1 ts'] Cons.prems(3,4) step HostStatusRecv st show ?thesis by simp
    qed
  qed
qed simp

lemma host_loop_file:
  assumes "h = run_steps (host_loop_step X p) (host_loop_start X p sid g os copied an s) ws"
    and "\<nexists>e. hl_result h = Some (Inl e)" and "an_token_state an = Inr ts" and "ts_created_at ts \<le> time_max"
    and "list_all wake_representable ws"
  shows "file_holds p sid (last_shared g ts ws) (hl_fs h)"
proof -
  define h0 where "h0 = host_loop_start X p sid g os copied an s"
  define first where "first = \<lparr>hl_service_id = sid, hl_generation = g, hl_fs = s, hl_printed = [], hl_result = None\<rparr>"
  have "\<nexists>e. hl_result h0 = Some (Inl e)"
    using assms(1,2) host_loop_done [of h0 X p ws] by (auto simp: h0_def)
  with share_current_cases [of first an X p os copied False] assms(3,4)
  have "hl_result h0 = None \<and> hl_service_id h0 = sid \<and> hl_generation h0 = g \<and> file_holds p sid ts (hl_fs h0)"
    by (auto simp: h0_def host_loop_start_def first_def [symmetric] Let_def representable_def) (simp_all add: first_def)
  with host_loop_holds [of h0 p ts ws X] assms show ?thesis by (simp add: h0_def)
qed

text \<open>A service that was published is found with the token that was resolved for it.\<close>

lemma started_answers:
  assumes "start_service X opts fresh now mt n = (Inr sid, n')"
  obtains resolved where "sid = so_service_id opts"
    "resolve_token_state (so_token_refresh opts) (so_token_state opts) fresh now mt = Inr resolved"
    "handle_join_uri sid n' = Some (Inr (node_join_uri_value n sid (ts_token (rt_state resolved))))"
    "handle_token_state sid n' = Some (Inr (rt_state resolved))"
  using assms
proof (cases rule: start_service_cases)
  case (started nxt resolved)
  define sv where "sv = new_service opts resolved (nd_session_next n)"
  have "lookup_service n' sid = Some (length (nd_objects n))" "nd_objects n' ! length (nd_objects n) = sv"
    using started(1,7) by (simp_all add: lookup_service_def with_new_service_def sv_def update_conv')
  moreover have "sv_token sv = ts_token (rt_state resolved)" "sv_rotating sv = False" "sv_service_id sv = so_service_id opts"
    "map_option st_token_created_at (service_status sv) = Some (ts_created_at (rt_state resolved))"
    by (simp_all add: sv_def new_service_def Let_def service_status_def host_world_new_def host_context_new_def
        hosted_status_new_def status_snapshot_def)
  moreover have "node_join_uri_value n' i t = node_join_uri_value n i t" for i t
    using started(7) by (simp add: node_join_uri_value_def with_new_service_def)
  ultimately show thesis
    using started(1,5) by (intro that [of resolved])
      (auto simp: handle_join_uri_def handle_token_state_def token_state_new_def)
qed simp_all


section \<open>On a concrete machine\<close>

text \<open>The key and the default profile are there, no state has been saved yet.\<close>

definition demo_profile_path :: path where "demo_profile_path = ''d/sculk/profile.toml''"

definition demo_disk :: fs where
  "demo_disk = fs_put demo_profile_path (Some (profile_inode tiny_toml profile_default))
     (fs_put ''k'' (Some (key_inode (secret_filled 9))) empty_fs)"

definition demo_args :: host_args where
  "demo_args = \<lparr>ha_port = 25565, ha_relay = None, ha_delay = 0, ha_token_refresh = None, ha_new_key = False,
     ha_new_uri = False, ha_key_path = Some ''k'', ha_max_players = None\<rparr>"

lemma demo_profile_path: "profile_path (Some ''d'') = Inr demo_profile_path"
  by (simp add: profile_path_def data_dir_def ok_or_def path_join_def is_sep_def demo_profile_path_def)

lemma demo_profile_loads: "profile_load tiny_toml (Some ''d'') calm_os demo_disk = (Inr profile_default, demo_disk)"
proof -
  have "utf8_valid (bytes_of_str ''defaults'')" "str_of_bytes (bytes_of_str ''defaults'') = ''defaults''" by code_simp+
  then show ?thesis
    by (simp add: profile_load_def demo_profile_path profile_load_from_def read_to_string_def sys_read_def demo_disk_def
        profile_inode_def toml_from_str_def tiny_toml_def calm_os_def profile_toml_roundtrip ok_or_def)
qed

lemma demo_host_command:
  "\<exists>u. host_command host_ref_crates tiny_toml (Some ''d'') (\<lambda>_. calm_os) fresh demo_args demo_disk = (Inr u, demo_disk)
     \<and> hu_key u = secret_filled 9 \<and> hu_refresh u = RefreshAlways"
proof -
  have "load_or_generate_key calm_os ''k'' fresh demo_disk = (Inr (secret_filled 9), demo_disk)"
    by (rule load_existing_key) (simp_all add: demo_disk_def fs_data_def key_inode_def demo_profile_path_def calm_os_def)
  then show ?thesis
    by (simp add: host_command_def fio_then_def fio_of_def fio_return_def demo_args_def demo_profile_loads resolve_relay_url_def
        profile_default_def relay_profile_default_def host_profile_default_def)
qed

theorem host_preferences_persist_witness:
  "\<exists>u. host_command host_ref_crates tiny_toml (Some ''d'') (\<lambda>_. calm_os) (secret_filled 5) demo_args demo_disk = (Inr u, demo_disk)
     \<and> hu_key u = secret_filled 9"
proof -
  obtain u where u: "host_command host_ref_crates tiny_toml (Some ''d'') (\<lambda>_. calm_os) (secret_filled 4) demo_args demo_disk
      = (Inr u, demo_disk)" "hu_key u = secret_filled 9" using demo_host_command by blast
  have "key_path_of (Some ''d'') demo_args = Inr ''k''" "''k'' \<noteq> demo_profile_path"
    by (simp_all add: key_path_of_def demo_args_def demo_profile_path_def)
  from host_preferences_persist [OF u(1) tiny_toml_law demo_profile_path this refl refl, of "\<lambda>_. calm_os" "secret_filled 5"] u(2)
  show ?thesis by (force simp: demo_args_def calm_os_def)
qed

lemma calm_profile_save:
  assumes "tm_print T (profile_to_toml prof) = Inr c" and "\<forall>r. fs_files s (profile_temp p r) = None"
  shows "\<exists>s'. profile_save_to T calm_os p prof s = (Inr (), s')"
  using assms
  by (simp add: profile_save_to_def write_profile_atomic_def fio_defs
      sys_create_dirs_def TEMP_CREATE_ATTEMPTS_MAX_def numeral_eq_Suc sys_create_new_def sys_write_all_def sys_sync_all_def
      sys_rename_def sync_parent_def sys_sync_dir_def)

text \<open>Resetting the relay saves the default profile again.\<close>

lemma demo_reset:
  "\<exists>s'. relay_command host_ref_crates tiny_toml (Some ''d'') (\<lambda>_. calm_os) None False True demo_disk
     = (Inr [Out ''Reset to default n0 relay servers.''], s')"
proof -
  have reset: "profile_default\<lparr>pf_relay := (pf_relay profile_default)\<lparr>rp_custom := False\<rparr>\<rparr> = profile_default"
    by (simp add: profile_default_def relay_profile_default_def)
  have free: "fs_files demo_disk (profile_temp demo_profile_path r) = None" for r
  proof -
    have "profile_temp demo_profile_path r \<noteq> demo_profile_path"
      unfolding profile_temp_def by (rule temp_path_neq) (simp add: is_sep_def)
    moreover have "length (profile_temp demo_profile_path r) \<noteq> length ''k''"
      by (simp add: profile_temp_def temp_path_def temp_name_def path_join_def)
    then have "profile_temp demo_profile_path r \<noteq> ''k''" by metis
    ultimately show ?thesis by (simp add: demo_disk_def empty_fs_def)
  qed
  have "\<exists>s'. profile_save tiny_toml (Some ''d'') calm_os profile_default demo_disk = (Inr (), s')"
    using calm_profile_save [of tiny_toml profile_default] free
    by (simp add: profile_save_def demo_profile_path) (simp add: tiny_toml_def)
  then show ?thesis
    by (auto simp: relay_command_def fio_then_def fio_return_def demo_profile_loads reset Let_def)
qed

theorem relay_command_takes_effect_witness:
  "\<exists>r s'. relay_command host_ref_crates tiny_toml (Some ''d'') (\<lambda>_. calm_os) None False True demo_disk = (r, s')
     \<and> (\<exists>prof. profile_load tiny_toml (Some ''d'') calm_os s' = (Inr prof, s') \<and> resolve_relay_url host_ref_crates prof None = Inr None)"
proof -
  obtain s' where run: "relay_command host_ref_crates tiny_toml (Some ''d'') (\<lambda>_. calm_os) None False True demo_disk
      = (Inr [Out ''Reset to default n0 relay servers.''], s')" using demo_reset by blast
  have "os_fault calm_os (ReadFile demo_profile_path) = None" by (simp add: calm_os_def)
  from relay_command_takes_effect [OF tiny_toml_law demo_profile_path this run]
  have "\<exists>prof. profile_load tiny_toml (Some ''d'') calm_os s' = (Inr prof, s') \<and> resolve_relay_url host_ref_crates prof None = Inr None"
    by simp
  with run show ?thesis by - (rule exI, rule exI, rule conjI)
qed

text \<open>A host that rotates its token once, is stopped, and starts again.\<close>

lemma calm_save:
  assumes "\<forall>r. fs_files s (state_temp p r) = None" "0 \<le> ts_created_at ts"
  shows "\<exists>s'. save_current_state calm_os p sid (Inr ts) s = (Inr (), s') \<and> (\<forall>r. fs_files s' (state_temp p r) = None)"
proof -
  define st where "st = \<lparr>hs_service_id = sid, hs_token_state = ts\<rparr>"
  have "\<exists>s'. save_host_state calm_os p st s = (Inr (), s')"
    using assms by (simp add: st_def save_host_state_valid write_state_atomic_def
        fio_defs sys_create_dirs_def TEMP_CREATE_ATTEMPTS_MAX_def numeral_eq_Suc
        sys_create_new_def sys_write_all_def sys_sync_all_def sys_rename_def sync_parent_def sys_sync_dir_def)
  then obtain s' where sv: "save_host_state calm_os p st s = (Inr (), s')" by blast
  with save_host_state_spec assms(1) have "\<forall>r. fs_files s' (state_temp p r) = None"
    by (fastforce simp: replaced_or_not_def)
  with sv show ?thesis by (simp add: save_current_state_def st_def)
qed

lemma calm_share:
  assumes "\<forall>r. fs_files (hl_fs h) (state_temp p r) = None" and "an_token_state an = Inr ts" "0 \<le> ts_created_at ts"
    and "an_join_uri an = Inr uri" "ju_relay_url uri = None"
  shows "\<exists>s' shown. share_current host_ref_crates p calm_os copied an rotated h = h\<lparr>hl_fs := s', hl_printed := shown\<rparr>
    \<and> (\<forall>r. fs_files s' (state_temp p r) = None)"
proof -
  obtain s' where s': "save_current_state calm_os p (hl_service_id h) (Inr ts) (hl_fs h) = (Inr (), s')"
      "\<forall>r. fs_files s' (state_temp p r) = None" using calm_save [OF assms(1,3)] by blast
  obtain txt1 where "expose_secret_uri host_ref_crates uri = Inr txt1" using host_ref_exposes assms(5) by blast
  then obtain shown where "print_join_uri host_ref_crates copied uri rotated = Inr shown"
    by (simp add: print_join_uri_def)
  then have "share_current host_ref_crates p calm_os copied an rotated h = h\<lparr>hl_fs := s', hl_printed := hl_printed h @ shown\<rparr>"
    using s'(1) assms(2,4) by (simp add: share_current_def)
  with s'(2) show ?thesis by blast
qed

definition demo_answers :: "u8 \<Rightarrow> handle_answers" where
  "demo_answers b = \<lparr>an_token_state = Inr (token_state_new (token_filled b) 0),
     an_join_uri = Inr (node_join_uri_value demo_bound (service_filled 1) (token_filled b))\<rparr>"

definition demo_status :: hosted_service_status where
  "demo_status = \<lparr>st_service_id = service_filled 1, st_phase = Active, st_uri_generation = 2, st_token_created_at = 0,
     st_next_rotation_at = None, st_connection_count = 0, st_bridge_count = 0, st_last_error = None\<rparr>"

definition demo_wakes :: "host_wake list" where
  "demo_wakes = [HostEventRecv (EventReceived TokenRotated),
     HostStatusRecv (Some demo_status) (demo_answers 4) calm_os False, HostCtrlC (Inr ())]"

definition demo_hosting :: host_loop where
  "demo_hosting = run_steps (host_loop_step host_ref_crates ''s'')
     (host_loop_start host_ref_crates ''s'' (service_filled 1) 1 calm_os False (demo_answers 3) demo_disk) demo_wakes"

lemma demo_relay: "ju_relay_url (node_join_uri_value demo_bound sid t) = None"
  by (simp add: node_join_uri_value_def join_uri_new_def demo_bound_def)

lemma demo_share:
  assumes "\<forall>r. fs_files (hl_fs h) (state_temp p r) = None"
  shows "\<exists>s' shown. share_current host_ref_crates p calm_os copied (demo_answers b) rotated h = h\<lparr>hl_fs := s', hl_printed := shown\<rparr>
    \<and> (\<forall>r. fs_files s' (state_temp p r) = None)"
  by (rule calm_share [OF assms, of _ "token_state_new (token_filled b) 0" "node_join_uri_value demo_bound (service_filled 1) (token_filled b)"])
    (simp_all add: demo_answers_def token_state_new_def demo_relay)

lemma demo_disk_free: "fs_files demo_disk (state_temp ''s'' r) = None"
proof -
  have "state_temp ''s'' r \<noteq> q" if "hd (rev q) \<noteq> CHR ''p''" "q \<noteq> []" for q
    using that by (auto simp: state_temp_def temp_path_def temp_name_def path_join_def)
  then show ?thesis by (simp add: demo_disk_def demo_profile_path_def)
qed

lemma demo_hosting_ends: "hl_result demo_hosting = Some (Inr ())"
proof -
  define h0 where "h0 = \<lparr>hl_service_id = service_filled 1, hl_generation = 1, hl_fs = demo_disk, hl_printed = [], hl_result = None\<rparr>"
  obtain s1 shown where h1: "share_current host_ref_crates ''s'' calm_os False (demo_answers 3) False h0
      = h0\<lparr>hl_fs := s1, hl_printed := shown\<rparr>" "\<forall>r. fs_files s1 (state_temp ''s'' r) = None"
    using demo_share [of h0 "''s''" False 3 False] demo_disk_free by (fastforce simp: h0_def)
  define h2 where "h2 = h0\<lparr>hl_fs := s1, hl_printed := shown @ [Out ''Press Ctrl+C to stop.''], hl_generation := 2\<rparr>"
  obtain s3 shown3 where h3: "share_current host_ref_crates ''s'' calm_os False (demo_answers 4) True h2
      = h2\<lparr>hl_fs := s3, hl_printed := shown3\<rparr>"
    using demo_share [of h2 "''s''" False 4 True] h1(2) by (fastforce simp: h2_def)
  show ?thesis
    using h1(1) h3 unfolding h0_def
    by (simp add: demo_hosting_def demo_wakes_def host_loop_start_def demo_status_def h2_def h0_def)
qed


section \<open>Waiting for a tunnel\<close>

text \<open>Waiting succeeds only with a status that is active in the expected mode.\<close>

lemma wait_until_active_only_active:
  "wait_until_active m us = (shown, Some (Inr st)) \<Longrightarrow>
     Some (UpdateStatus st) \<in> set us \<and> tn_phase (tu_state st) = PhaseActive \<and> tn_mode (tu_state st) = Some m"
  by (induction m us arbitrary: shown rule: wait_until_active.induct)
    (auto split: if_splits tunnel_event.splits prod.splits)

text \<open>
  A start that fails is first published as idle; a client that reads this status gives up with
  a message that hides the reason, which is published afterwards.
\<close>

lemma start_failure_is_hidden:
  "let s = run_steps tunnel_service_step tunnel_service_new
       [SvcStartJoin demo_join, SvcAttach 1, SvcComplete 1 (Inl (TunnelErr AuthRejectedByHost)) (Inr []), SvcFailStart 1]
   in wait_until_active JoinMode (Some (UpdateStatus (tsv_published s)) # us)
     = ([], Some (Inl (CliText ''tunnel stopped before becoming active'')))"
  by (simp add: service_eval fail_start_def reset_operation_def tunnel_status_idle_def tunnel_state_idle_def)

end
