(* ===== verification/Host_Session.thy ===== *)
theory Host_Session
  imports Service_Shape Cli_Properties
begin

text \<open>
  \<^verbatim>\<open>run_host_until_shutdown\<close> of \<^verbatim>\<open>cli/src/main.rs\<close> on the Node it serves: the client subscribes to the
  service's status, saves the token and shows the URI, and does both again after every rotation,
  while everything else happens on the Node between any two of its steps. Saving and showing
  ask the handle separately and wait for a rotation that is under way.
\<close>

section \<open>The session\<close>

text \<open>
  Where the function is: about to read the generation, to save, to show (for a rotation or for
  the first time), or waiting in the \<^verbatim>\<open>select!\<close>.
\<close>

datatype session_pc = SesReading | SesSaving bool | SesShowing bool | SesWaiting

record host_session =
  hz_node :: node
  hz_sub :: status_subscription
  hz_loop :: host_loop
  hz_shown :: "join_uri option"
  hz_pc :: session_pc

definition session_new :: "node \<Rightarrow> service_id \<Rightarrow> status_subscription \<Rightarrow> fs \<Rightarrow> host_session" where
  "session_new n sid sub s =
     \<lparr>hz_node = n, hz_sub = sub,
      hz_loop = \<lparr>hl_service_id = sid, hl_generation = 0, hl_fs = s, hl_printed = [], hl_result = None\<rparr>,
      hz_shown = None, hz_pc = SesReading\<rparr>"

definition session_end :: "cli_error + unit \<Rightarrow> host_session \<Rightarrow> host_session" where
  "session_end r z = z\<lparr>hz_loop := (hz_loop z)\<lparr>hl_result := Some r\<rparr>\<rparr>"

definition session_read :: "host_session \<Rightarrow> host_session" where
  "session_read z =
     (case handle_status (hl_service_id (hz_loop z)) (hz_node z) of
        Inl e \<Rightarrow> session_end (Inl (CliNode e)) z
      | Inr st \<Rightarrow> z\<lparr>hz_loop := (hz_loop z)\<lparr>hl_generation := st_uri_generation st\<rparr>, hz_pc := SesSaving False\<rparr>)"

text \<open>\<^verbatim>\<open>save_host_state\<close>, once the handle answers.\<close>

definition session_save :: "path \<Rightarrow> os \<Rightarrow> bool \<Rightarrow> host_session \<Rightarrow> host_session" where
  "session_save p os rotated z =
     (let sid = hl_service_id (hz_loop z) in
      case handle_token_state sid (hz_node z) of
        None \<Rightarrow> z
      | Some ts \<Rightarrow>
          (case save_current_state os p sid ts (hl_fs (hz_loop z)) of
             (Inl e, s) \<Rightarrow> session_end (Inl e) (z\<lparr>hz_loop := (hz_loop z)\<lparr>hl_fs := s\<rparr>\<rparr>)
           | (Inr _, s) \<Rightarrow> z\<lparr>hz_loop := (hz_loop z)\<lparr>hl_fs := s\<rparr>, hz_pc := SesShowing rotated\<rparr>))"

text \<open>\<^verbatim>\<open>print_join_uri\<close>, once the handle answers; the first time the hint to stop follows.\<close>

definition session_show :: "crates \<Rightarrow> bool \<Rightarrow> bool \<Rightarrow> host_session \<Rightarrow> host_session" where
  "session_show X copied rotated z =
     (case handle_join_uri (hl_service_id (hz_loop z)) (hz_node z) of
        None \<Rightarrow> z
      | Some (Inl e) \<Rightarrow> session_end (Inl (CliNode e)) z
      | Some (Inr uri) \<Rightarrow>
          (case print_join_uri X copied uri rotated of
             Inl e \<Rightarrow> session_end (Inl e) z
           | Inr shown \<Rightarrow>
               z\<lparr>hz_loop := (hz_loop z)\<lparr>hl_printed := hl_printed (hz_loop z) @ shown
                    @ (if rotated then [] else [Out ''Press Ctrl+C to stop.''])\<rparr>,
                 hz_shown := Some uri, hz_pc := SesWaiting\<rparr>))"

text \<open>The status branch of the \<^verbatim>\<open>select!\<close>; \<open>h\<close> is the status channel of the service.\<close>

definition session_recv :: "hosted_status \<Rightarrow> bool \<Rightarrow> host_session \<Rightarrow> host_session" where
  "session_recv h alive z =
     (case status_recv h alive (hz_sub z) of
        (None, _) \<Rightarrow> z
      | (Some None, sub) \<Rightarrow> session_end (Inr ()) (z\<lparr>hz_sub := sub\<rparr>)
      | (Some (Some st), sub) \<Rightarrow>
          if st_uri_generation st > hl_generation (hz_loop z)
          then z\<lparr>hz_sub := sub, hz_loop := (hz_loop z)\<lparr>hl_generation := st_uri_generation st\<rparr>, hz_pc := SesSaving True\<rparr>
          else z\<lparr>hz_sub := sub\<rparr>)"

datatype session_label =
    SesNode node_label
  | SesRead
  | SesSave os
  | SesShow bool
  | SesRecv bool
  | SesEvent event_recv
  | SesCtrlC "io_error + unit"

text \<open>\<open>i\<close> is the object of the service, whose status the subscription follows.\<close>

fun host_session_step ::
  "crates \<Rightarrow> (conn_id \<Rightarrow> endpoint_id) \<Rightarrow> path \<Rightarrow> nat \<Rightarrow> host_session \<Rightarrow> session_label \<Rightarrow> host_session" where
  "host_session_step X remote p i z (SesNode l) = z\<lparr>hz_node := node_step X remote (hz_node z) l\<rparr>"
| "host_session_step X remote p i z SesRead =
     (if hl_result (hz_loop z) = None \<and> hz_pc z = SesReading then session_read z else z)"
| "host_session_step X remote p i z (SesSave os) =
     (if hl_result (hz_loop z) \<noteq> None then z
      else case hz_pc z of SesSaving rotated \<Rightarrow> session_save p os rotated z | _ \<Rightarrow> z)"
| "host_session_step X remote p i z (SesShow copied) =
     (if hl_result (hz_loop z) \<noteq> None then z
      else case hz_pc z of SesShowing rotated \<Rightarrow> session_show X copied rotated z | _ \<Rightarrow> z)"
| "host_session_step X remote p i z (SesRecv alive) =
     (if hl_result (hz_loop z) \<noteq> None \<or> hz_pc z \<noteq> SesWaiting then z
      else case object_watch i (hz_node z) of Some h \<Rightarrow> session_recv h alive z | None \<Rightarrow> z)"
| "host_session_step X remote p i z (SesEvent ev) =
     (if hz_pc z = SesWaiting then z\<lparr>hz_loop := host_loop_step X p (hz_loop z) (HostEventRecv ev)\<rparr> else z)"
| "host_session_step X remote p i z (SesCtrlC r) =
     (if hz_pc z = SesWaiting then z\<lparr>hz_loop := host_loop_step X p (hz_loop z) (HostCtrlC r)\<rparr> else z)"

section \<open>A token lives as long as its generation\<close>

text \<open>What a service answers: its generation with the token and the time it was created.\<close>

definition service_uri :: "hosted_service \<Rightarrow> access_token \<times> (u64 \<times> system_time) option" where
  "service_uri sv = (sv_token sv,
     map_option (\<lambda>h. (st_uri_generation (hx_current h), st_token_created_at (hx_current h))) (world_watch (sv_world sv)))"

lemma service_uri_shape: "service_shape a = service_shape b \<Longrightarrow> service_uri a = service_uri b"
  by (cases "world_watch (sv_world a)"; cases "world_watch (sv_world b)")
    (simp_all add: service_shape_def world_shape_def service_uri_def status_shape_def)

text \<open>
  From one Node to the next: the generation of a service stays or grows by one, and as long as
  it stays, below the largest one, so do the token and its creation time.
\<close>

definition uri_follows :: "access_token \<times> (u64 \<times> system_time) option \<Rightarrow> access_token \<times> (u64 \<times> system_time) option \<Rightarrow> bool" where
  "uri_follows a b \<longleftrightarrow> b = a
     \<or> (\<exists>t g c. a = (t, Some (g, c)) \<and> (\<exists>t' c'. b = (t', Some (saturating_inc g, c'))))"

lemma moved_uri:
  assumes "moved X remote n n'" "i < length (nd_objects n)"
  shows "i < length (nd_objects n') \<and> service_uri (nd_objects n' ! i) = service_uri (nd_objects n ! i)"
  using moved_shape [OF assms] service_uri_shape by blast

lemma service_uri_rotation:
  assumes "world_watch (sv_world sv) \<noteq> None"
  shows "uri_follows (service_uri sv) (service_uri (apply_rotation pr sv))"
  using assms by (auto simp: uri_follows_def service_uri_def apply_rotation_def Let_def)

lemma uri_follows_refl [simp]: "uri_follows a a"
  by (simp add: uri_follows_def)

lemma node_follows_step:
  assumes "watched i n"
  shows "uri_follows (service_uri (nd_objects n ! i)) (service_uri (nd_objects (node_step X remote n l) ! i))"
proof -
  have i: "world_watch (sv_world (nd_objects n ! i)) \<noteq> None" "i < length (nd_objects n)"
    using assms by (auto simp: watched_def object_watch_def)
  show ?thesis
  proof (cases "\<exists>pr. l = NodeRotateFinish pr")
    case True
    then obtain pr where l: "l = NodeRotateFinish pr" by blast
    have "i < length (nd_objects (rotation_written pr n))
        \<and> uri_follows (service_uri (nd_objects n ! i)) (service_uri (nd_objects (rotation_written pr n) ! i))"
      using i by (auto simp: rotation_written_def nth_update_object service_uri_rotation)
    with moved_uri [OF rotate_finish_moved, of i pr n] l show ?thesis by simp
  next
    case False
    with moved_uri [OF moved_step i(2)] show ?thesis by (metis uri_follows_refl)
  qed
qed

section \<open>What the client keeps\<close>

text \<open>
  \<open>(tok, G, C)\<close> is what the service answers now and \<open>ver\<close> the version of its status: the client
  never runs ahead of the generation, it has the current one if there is nothing to receive, and
  what it saved and showed is of a generation at least as new as the one it knows.
\<close>

definition session_data ::
  "path \<Rightarrow> service_id \<Rightarrow> (access_token \<Rightarrow> join_uri) \<Rightarrow> status_subscription \<Rightarrow> host_loop \<Rightarrow> join_uri option \<Rightarrow> session_pc
     \<Rightarrow> access_token \<Rightarrow> u64 \<Rightarrow> system_time \<Rightarrow> nat \<Rightarrow> bool" where
  "session_data p sid uri sub l shown pc tok G C ver \<longleftrightarrow>
     (pc \<noteq> SesReading \<longrightarrow> hl_generation l \<le> G \<and> (\<not> ss_initial_pending sub \<and> ss_seen sub = ver \<longrightarrow> hl_generation l = G))
     \<and> (pc = SesWaiting \<or> (\<exists>r. pc = SesShowing r) \<longrightarrow>
          (\<exists>g \<ge> hl_generation l. g \<le> G \<and> (g = G \<longrightarrow> C \<le> time_max \<longrightarrow> file_holds p sid (token_state_new tok C) (hl_fs l))))
     \<and> (pc = SesWaiting \<longrightarrow> (\<exists>g \<ge> hl_generation l. g \<le> G \<and> (g = G \<longrightarrow> shown = Some (uri tok))))"

definition session_inv :: "path \<Rightarrow> nat \<Rightarrow> service_id \<Rightarrow> nat \<Rightarrow> host_session \<Rightarrow> bool" where
  "session_inv p i sid k z \<longleftrightarrow>
     watched i (hz_node z) \<and> sv_service_id (nd_objects (hz_node z) ! i) = sid
     \<and> (\<forall>j. lookup_service (hz_node z) sid = Some j \<longrightarrow> j = i)
     \<and> hl_service_id (hz_loop z) = sid \<and> ss_seen (hz_sub z) \<le> status_version i (hz_node z)
     \<and> (\<exists>tok G C. service_uri (nd_objects (hz_node z) ! i) = (tok, Some (G, C)) \<and> unat G \<le> Suc k
          \<and> (hl_result (hz_loop z) = None \<longrightarrow>
               session_data p sid (node_join_uri_value (hz_node z) sid) (hz_sub z) (hz_loop z) (hz_shown z) (hz_pc z)
                 tok G C (status_version i (hz_node z))))"

lemma session_data_later:
  assumes "session_data p sid uri sub l shown pc tok G C ver" "ss_seen sub \<le> ver" "ver \<le> ver'"
    and "tok' = tok \<and> G' = G \<and> C' = C \<or> G < G' \<and> ver < ver'"
  shows "session_data p sid uri sub l shown pc tok' G' C' ver'"
proof (cases "G < G' \<and> ver < ver'")
  case True
  have gen: "hl_generation l \<le> G" if "pc \<noteq> SesReading" using assms(1) that by (simp add: session_data_def)
  have "hl_generation l \<le> G'" "hl_generation l \<noteq> G'" if "pc \<noteq> SesReading" using gen [OF that] True by auto
  moreover have "ss_seen sub \<noteq> ver'" using assms(2) True by simp
  ultimately show ?thesis unfolding session_data_def by blast
next
  case False
  with assms show ?thesis by (auto simp: session_data_def)
qed

lemma saturating_inc_less: "unat g < 2 ^ 64 - 1 \<Longrightarrow> g < saturating_inc g" for g :: u64
  by (simp add: word_less_nat_alt unat_saturating_inc)

lemma service_uri_status:
  assumes "object_watch i n = Some h" "i < length (nd_objects n)"
  shows "service_uri (nd_objects n ! i) = (sv_token (nd_objects n ! i),
    Some (st_uri_generation (hx_current h), st_token_created_at (hx_current h)))"
  using assms by (simp add: object_watch_def service_uri_def)

lemma watched_status:
  assumes "watched i n"
  obtains h where "object_watch i n = Some h" "hx_published h = hx_current h" "i < length (nd_objects n)"
    "status_version i n = hx_version h"
  using assms by (auto simp: watched_def status_synced_def status_version_def)

text \<open>The service's answers and version after a step of the Node.\<close>

lemma node_step_uri:
  assumes "watched i n" "service_uri (nd_objects n ! i) = (tok, Some (G, C))" "unat G < 2 ^ 64 - 1"
  obtains tok' G' C' where "service_uri (nd_objects (node_step X remote n l) ! i) = (tok', Some (G', C'))"
    "unat G' \<le> Suc (unat G)" "status_version i n \<le> status_version i (node_step X remote n l)"
    "tok' = tok \<and> G' = G \<and> C' = C \<or> G < G' \<and> status_version i n < status_version i (node_step X remote n l)"
proof -
  let ?n' = "node_step X remote n l"
  obtain h where h: "object_watch i n = Some h" "i < length (nd_objects n)" by (rule watched_status [OF assms(1)])
  obtain h' where h': "object_watch i ?n' = Some h'" "i < length (nd_objects ?n')" "hx_version h \<le> hx_version h'"
      "hx_version h' = hx_version h \<Longrightarrow> h' = h"
  proof -
    from node_later_step [of n X remote l] h have "i < length (nd_objects ?n')" "watch_later (Some h) (object_watch i ?n')"
      by (metis node_later_def)+
    with that show thesis by auto
  qed
  have ver: "status_version i n = hx_version h" "status_version i ?n' = hx_version h'"
    using h h' by (simp_all add: status_version_def)
  have follows: "uri_follows (tok, Some (G, C)) (service_uri (nd_objects ?n' ! i))"
    using node_follows_step [OF assms(1), of X remote l] assms(2) by simp
  then consider (same) "service_uri (nd_objects ?n' ! i) = (tok, Some (G, C))"
    | (rotated) t' c' where "service_uri (nd_objects ?n' ! i) = (t', Some (saturating_inc G, c'))"
    by (auto simp: uri_follows_def)
  then show thesis
  proof cases
    case same
    with that ver h'(3) show thesis by simp
  next
    case rotated
    have "G < saturating_inc G" by (rule saturating_inc_less [OF assms(3)])
    moreover have "hx_version h \<noteq> hx_version h'"
    proof
      assume "hx_version h = hx_version h'"
      with h'(4) have "h' = h" by simp
      with rotated assms(2) service_uri_status [OF h] service_uri_status [OF h'(1,2)] \<open>G < saturating_inc G\<close> show False by auto
    qed
    ultimately show thesis
      using that [OF rotated] ver h'(3) by (simp add: unat_saturating_inc)
  qed
qed

lemma session_node_inv:
  assumes inv: "session_inv p i sid k z" and l: "\<And>opts fresh now mt. l \<noteq> NodeStart opts fresh now mt"
    and k: "Suc k < 2 ^ 64 - 1"
  shows "session_inv p i sid (Suc k) (z\<lparr>hz_node := node_step X remote (hz_node z) l\<rparr>)"
proof -
  let ?n = "hz_node z" and ?n' = "node_step X remote (hz_node z) l"
  from inv obtain tok G C where w: "watched i ?n" and uri: "service_uri (nd_objects ?n ! i) = (tok, Some (G, C))"
    and G: "unat G \<le> Suc k" and data: "hl_result (hz_loop z) = None \<longrightarrow>
      session_data p sid (node_join_uri_value ?n sid) (hz_sub z) (hz_loop z) (hz_shown z) (hz_pc z) tok G C (status_version i ?n)"
    by (auto simp: session_inv_def)
  from G k have "unat G < 2 ^ 64 - 1" by simp
  from node_step_uri [OF w uri this, of X remote l] obtain tok' G' C' where
    next': "service_uri (nd_objects ?n' ! i) = (tok', Some (G', C'))" "unat G' \<le> Suc (unat G)"
      "status_version i ?n \<le> status_version i ?n'"
      "tok' = tok \<and> G' = G \<and> C' = C \<or> G < G' \<and> status_version i ?n < status_version i ?n'" by blast
  have i: "i < length (nd_objects ?n)" using w by (simp add: watched_def)
  have look: "lookup_service ?n' sid = Some j \<Longrightarrow> lookup_service ?n sid = Some j" for j
    using step_shrinks [OF l, of ?n X remote] by (simp add: node_shrinks_def)
  have "session_data p sid (node_join_uri_value ?n' sid) (hz_sub z) (hz_loop z) (hz_shown z) (hz_pc z) tok' G' C' (status_version i ?n')"
    if "hl_result (hz_loop z) = None"
    unfolding node_identity_uri [OF node_identity_step]
    by (rule session_data_later [OF _ _ next'(3,4)]) (use data that inv in \<open>auto simp: session_inv_def\<close>)
  with inv next' G look watched_later [OF node_later_step w] object_identity_step [OF i] show ?thesis
    by (simp add: session_inv_def)
qed

text \<open>A step of the client; what the handle answers are the current values.\<close>

lemma session_inv_cases:
  assumes "session_inv p i sid k z"
  obtains h where "object_watch i (hz_node z) = Some h" "hx_published h = hx_current h"
    "status_version i (hz_node z) = hx_version h" "sv_service_id (nd_objects (hz_node z) ! i) = sid"
    "service_status (nd_objects (hz_node z) ! i) = Some (hx_current h)" "hl_service_id (hz_loop z) = sid"
    "lookup_service (hz_node z) sid = None \<or> lookup_service (hz_node z) sid = Some i"
    "hl_result (hz_loop z) = None \<Longrightarrow> session_data p sid (node_join_uri_value (hz_node z) sid) (hz_sub z) (hz_loop z)
       (hz_shown z) (hz_pc z) (sv_token (nd_objects (hz_node z) ! i)) (st_uri_generation (hx_current h))
       (st_token_created_at (hx_current h)) (hx_version h)"
proof -
  from assms have w: "watched i (hz_node z)" by (simp add: session_inv_def)
  obtain h where h: "object_watch i (hz_node z) = Some h" "hx_published h = hx_current h" "i < length (nd_objects (hz_node z))"
      "status_version i (hz_node z) = hx_version h" by (rule watched_status [OF w])
  have st: "service_status (nd_objects (hz_node z) ! i) = Some (hx_current h)"
    using h(1,3) by (simp add: object_watch_def service_status_def status_snapshot_def)
  from assms have look: "lookup_service (hz_node z) sid = None \<or> lookup_service (hz_node z) sid = Some i"
    by (cases "lookup_service (hz_node z) sid") (simp_all add: session_inv_def)
  from assms have ids: "sv_service_id (nd_objects (hz_node z) ! i) = sid" "hl_service_id (hz_loop z) = sid"
    by (simp_all add: session_inv_def)
  show thesis
    by (rule that [OF h(1,2,4) ids(1) st ids(2) look])
      (use assms service_uri_status [OF h(1,3)] h(4) in \<open>auto simp: session_inv_def\<close>)
qed

text \<open>The invariant for a client that moved while the Node stood still.\<close>

lemma session_inv_moved:
  assumes inv: "session_inv p i sid k z" and "hz_node z' = hz_node z" "hl_service_id (hz_loop z') = sid"
    and "ss_seen (hz_sub z') \<le> status_version i (hz_node z)"
    and h: "object_watch i (hz_node z) = Some h"
    and "hl_result (hz_loop z') = None \<Longrightarrow> session_data p sid (node_join_uri_value (hz_node z) sid) (hz_sub z') (hz_loop z')
       (hz_shown z') (hz_pc z') (sv_token (nd_objects (hz_node z) ! i)) (st_uri_generation (hx_current h))
       (st_token_created_at (hx_current h)) (hx_version h)"
  shows "session_inv p i sid k z'"
proof -
  from inv have "i < length (nd_objects (hz_node z))" "status_version i (hz_node z) = hx_version h"
    using h by (auto simp: session_inv_def watched_def status_version_def)
  with assms service_uri_status [OF h] show ?thesis by (auto simp: session_inv_def)
qed

lemma session_inv_seen: "session_inv p i sid k z \<Longrightarrow> ss_seen (hz_sub z) \<le> status_version i (hz_node z)"
  by (simp add: session_inv_def)

lemma session_read_inv:
  assumes inv: "session_inv p i sid k z" and "hl_result (hz_loop z) = None"
  shows "session_inv p i sid k (session_read z)"
proof (rule session_inv_cases [OF inv])
  fix h assume h: "object_watch i (hz_node z) = Some h" "hl_service_id (hz_loop z) = sid"
    "service_status (nd_objects (hz_node z) ! i) = Some (hx_current h)"
    "lookup_service (hz_node z) sid = None \<or> lookup_service (hz_node z) sid = Some i"
  then show ?thesis
    by (intro session_inv_moved [OF inv _ _ _ h(1)])
      (use session_inv_seen [OF inv] in \<open>auto simp: session_read_def handle_status_def session_end_def session_data_def\<close>)
qed

lemma session_save_inv:
  assumes inv: "session_inv p i sid k z" and "hl_result (hz_loop z) = None" "hz_pc z = SesSaving rotated"
  shows "session_inv p i sid k (session_save p os rotated z)"
proof (rule session_inv_cases [OF inv])
  fix h assume h: "object_watch i (hz_node z) = Some h" "hl_service_id (hz_loop z) = sid"
    "service_status (nd_objects (hz_node z) ! i) = Some (hx_current h)"
    "lookup_service (hz_node z) sid = None \<or> lookup_service (hz_node z) sid = Some i"
    and data: "hl_result (hz_loop z) = None \<Longrightarrow> session_data p sid (node_join_uri_value (hz_node z) sid) (hz_sub z) (hz_loop z)
       (hz_shown z) (hz_pc z) (sv_token (nd_objects (hz_node z) ! i)) (st_uri_generation (hx_current h))
       (st_token_created_at (hx_current h)) (hx_version h)"
  define ts where "ts = token_state_new (sv_token (nd_objects (hz_node z) ! i)) (st_token_created_at (hx_current h))"
  show ?thesis
  proof (cases "handle_token_state sid (hz_node z)")
    case None
    with inv h(2) show ?thesis by (simp add: session_save_def Let_def)
  next
    case (Some r)
    obtain r' s where sv: "save_current_state os p sid r (hl_fs (hz_loop z)) = (r', s)" by force
    show ?thesis
    proof (cases r')
      case (Inl e)
      with Some sv h(2) show ?thesis
        by (intro session_inv_moved [OF inv _ _ _ h(1)])
          (use session_inv_seen [OF inv] in \<open>simp_all add: session_save_def Let_def session_end_def\<close>)
    next
      case (Inr u)
      then have r: "r = Inr ts"
        using Some sv h(3,4) by (auto simp: handle_token_state_def save_current_state_def Let_def ts_def split: if_splits)
      have saved: "file_holds p sid ts s" if "st_token_created_at (hx_current h) \<le> time_max"
        by (rule saved_file_holds) (use sv r Inr that in \<open>simp_all add: ts_def token_state_new_def\<close>)
      show ?thesis
        by (rule session_inv_moved [OF inv _ _ _ h(1)])
          (use Some sv Inr h(2) session_inv_seen [OF inv] data [OF assms(2)] assms(3) saved in
            \<open>auto simp: session_save_def Let_def session_data_def ts_def\<close>)
    qed
  qed
qed

lemma session_show_inv:
  assumes inv: "session_inv p i sid k z" and "hl_result (hz_loop z) = None" "hz_pc z = SesShowing rotated"
  shows "session_inv p i sid k (session_show X copied rotated z)"
proof (rule session_inv_cases [OF inv])
  fix h assume h: "object_watch i (hz_node z) = Some h" "hl_service_id (hz_loop z) = sid"
    "sv_service_id (nd_objects (hz_node z) ! i) = sid"
    "lookup_service (hz_node z) sid = None \<or> lookup_service (hz_node z) sid = Some i"
    and data: "hl_result (hz_loop z) = None \<Longrightarrow> session_data p sid (node_join_uri_value (hz_node z) sid) (hz_sub z) (hz_loop z)
       (hz_shown z) (hz_pc z) (sv_token (nd_objects (hz_node z) ! i)) (st_uri_generation (hx_current h))
       (st_token_created_at (hx_current h)) (hx_version h)"
  let ?tok = "sv_token (nd_objects (hz_node z) ! i)"
  have answers: "handle_join_uri sid (hz_node z) \<in>
      {None, Some (Inl ServiceNotFound), Some (Inr (node_join_uri_value (hz_node z) sid ?tok))}"
    using h(3,4) by (elim disjE) (simp_all add: handle_join_uri_def Let_def)
  have ended: "session_inv p i sid k (session_end (Inl e) z)" for e
    by (rule session_inv_moved [OF inv _ _ _ h(1)])
      (use session_inv_seen [OF inv] h(2) in \<open>simp_all add: session_end_def\<close>)
  have moved: "session_inv p i sid k (z\<lparr>hz_loop := (hz_loop z)\<lparr>hl_printed := shown\<rparr>,
      hz_shown := Some (node_join_uri_value (hz_node z) sid ?tok), hz_pc := SesWaiting\<rparr>)" for shown
    by (rule session_inv_moved [OF inv _ _ _ h(1)])
      (use h(2) session_inv_seen [OF inv] data [OF assms(2)] assms(3) in \<open>auto simp: session_data_def\<close>)
  from answers ended moved inv h(2) show ?thesis
    by (auto simp: session_show_def split: sum.split)
qed

lemma session_recv_inv:
  assumes inv: "session_inv p i sid k z" and "hl_result (hz_loop z) = None" "hz_pc z = SesWaiting"
    and "object_watch i (hz_node z) = Some h"
  shows "session_inv p i sid k (session_recv h alive z)"
proof (rule session_inv_cases [OF inv])
  fix h' assume h: "object_watch i (hz_node z) = Some h'" "hx_published h' = hx_current h'"
    "status_version i (hz_node z) = hx_version h'" "hl_service_id (hz_loop z) = sid"
    and data: "hl_result (hz_loop z) = None \<Longrightarrow> session_data p sid (node_join_uri_value (hz_node z) sid) (hz_sub z) (hz_loop z)
       (hz_shown z) (hz_pc z) (sv_token (nd_objects (hz_node z) ! i)) (st_uri_generation (hx_current h'))
       (st_token_created_at (hx_current h')) (hx_version h')"
  have [simp]: "h' = h" using h(1) assms(4) by simp
  have seen: "ss_seen (hz_sub z) \<le> hx_version h" using session_inv_seen [OF inv] h(3) by simp
  obtain r sub where r: "status_recv h alive (hz_sub z) = (r, sub)" by force
  then have sub: "ss_seen sub \<le> hx_version h" using seen by (auto simp: status_recv_def split: if_splits)
  consider (waits) "r = None" | (ends) "r = Some None" | (got) "r = Some (Some (hx_current h))"
    using r h(2) by (auto simp: status_recv_def split: if_splits)
  then show ?thesis
  proof cases
    case waits
    with r inv show ?thesis by (simp add: session_recv_def)
  next
    case ends
    show ?thesis
      by (rule session_inv_moved [OF inv _ _ _ assms(4)])
        (use r ends h sub in \<open>simp_all add: session_recv_def session_end_def\<close>)
  next
    case got
    show ?thesis
      by (rule session_inv_moved [OF inv _ _ _ assms(4)])
        (use r got h sub data [OF assms(2)] assms(2,3) in \<open>auto simp: session_recv_def session_data_def\<close>)
  qed
qed

fun starts_service :: "node_label \<Rightarrow> bool" where
  "starts_service (NodeStart opts fresh now mt) = True"
| "starts_service _ = False"

lemma starts_service_iff: "starts_service l \<longleftrightarrow> (\<exists>opts fresh now mt. l = NodeStart opts fresh now mt)"
  by (cases l) simp_all

fun session_starts :: "session_label \<Rightarrow> bool" where
  "session_starts (SesNode l) = starts_service l"
| "session_starts _ = False"

lemma session_inv_mono: "session_inv p i sid k z \<Longrightarrow> k \<le> k' \<Longrightarrow> session_inv p i sid k' z"
  unfolding session_inv_def by (meson Suc_le_mono order_trans)

lemma session_loop_inv:
  assumes inv: "session_inv p i sid k z" and "l = hz_loop z" "hl_service_id l' = hl_service_id l" "hl_fs l' = hl_fs l"
    and "hl_generation l' = hl_generation l" "hl_result l' = None \<Longrightarrow> hl_result l = None"
  shows "session_inv p i sid k (z\<lparr>hz_loop := l'\<rparr>)"
proof (rule session_inv_cases [OF inv])
  fix h assume h: "object_watch i (hz_node z) = Some h" "hl_service_id (hz_loop z) = sid"
    and data: "hl_result (hz_loop z) = None \<Longrightarrow> session_data p sid (node_join_uri_value (hz_node z) sid) (hz_sub z) (hz_loop z)
       (hz_shown z) (hz_pc z) (sv_token (nd_objects (hz_node z) ! i)) (st_uri_generation (hx_current h))
       (st_token_created_at (hx_current h)) (hx_version h)"
  show ?thesis
    by (rule session_inv_moved [OF inv _ _ _ h(1)])
      (use h data assms(2-) session_inv_seen [OF inv] in \<open>simp_all add: session_data_def\<close>)
qed

lemma session_step_inv:
  assumes inv: "session_inv p i sid k z" and l: "\<not> session_starts l" and k: "Suc k < 2 ^ 64 - 1"
  shows "session_inv p i sid (Suc k) (host_session_step X remote p i z l)"
proof (cases "\<exists>nl. l = SesNode nl")
  case True
  then obtain nl where nl: "l = SesNode nl" by blast
  have "nl \<noteq> NodeStart opts fresh now mt" for opts fresh now mt using l nl by auto
  from session_node_inv [OF inv this k, of X remote] nl show ?thesis by simp
next
  case False
  have loop: "session_inv p i sid k (z\<lparr>hz_loop := host_loop_step X p (hz_loop z) w\<rparr>)"
    if "\<And>st an os copied. w \<noteq> HostStatusRecv st an os copied" for w
    by (rule session_loop_inv [OF inv refl]; cases w)
      (use that in \<open>auto split: if_splits event_recv.splits\<close>)
  have "session_inv p i sid k (host_session_step X remote p i z l)"
  proof (cases l)
    case SesRead
    with inv session_read_inv show ?thesis by simp
  next
    case (SesSave os)
    with inv session_save_inv show ?thesis by (auto split: session_pc.split)
  next
    case (SesShow copied)
    with inv session_show_inv show ?thesis by (auto split: session_pc.split)
  next
    case (SesRecv alive)
    with inv session_recv_inv show ?thesis by (auto split: option.split)
  next
    case (SesEvent ev)
    with inv loop [of "HostEventRecv ev"] show ?thesis by (simp del: host_loop_step.simps)
  next
    case (SesCtrlC r)
    with inv loop [of "HostCtrlC r"] show ?thesis by (simp del: host_loop_step.simps)
  qed (use False in simp)
  then show ?thesis by (rule session_inv_mono) simp
qed

lemma session_run_inv:
  assumes "session_inv p i sid k z" "\<not> list_ex session_starts zs" "k + length zs < 2 ^ 64 - 1"
  shows "session_inv p i sid (k + length zs) (run_steps (host_session_step X remote p i) z zs)"
  using assms
proof (induction zs arbitrary: k z)
  case (Cons l zs)
  then have "session_inv p i sid (Suc k) (host_session_step X remote p i z l)"
    by (intro session_step_inv) simp_all
  from Cons.IH [OF this] Cons.prems show ?case by simp
qed simp

text \<open>Before the session there is only the Node; the same invariant with a session that is over covers it.\<close>

lemma served_before:
  assumes "node_start n0" and "start_service X opts fresh now mt n0 = (Inr sid, n1)" and "\<not> list_ex starts_service ls"
    and "length ls < 2 ^ 64 - 2"
  shows "session_inv p 0 sid (length ls)
    (session_end (Inr ()) (session_new (run_steps (node_step X remote) n1 ls) sid \<lparr>ss_seen = 0, ss_initial_pending = True\<rparr> s))"
proof -
  define z where "z n = session_end (Inr ()) (session_new n sid \<lparr>ss_seen = 0, ss_initial_pending = True\<rparr> s)" for n
  have none: "nd_objects n0 = []" "nd_services n0 = []" using assms(1) by (auto simp: node_start_def node_bind_def)
  have "all_watched n0" using none by (simp add: all_watched_def)
  have "session_inv p 0 sid 0 (z n1)" using assms(2)
  proof (cases rule: start_service_cases)
    case (started nxt resolved)
    from new_objects_watched [OF \<open>all_watched n0\<close>, of 0 X opts fresh now mt] assms(2) started(7)
    have "watched 0 n1" by (simp add: with_new_service_def)
    with started none show ?thesis
      by (simp add: session_inv_def z_def session_end_def session_new_def with_new_service_def lookup_service_def
          service_uri_def new_service_def Let_def host_world_new_def host_context_new_def hosted_status_new_def)
  qed simp_all
  moreover have "run_steps (host_session_step X remote p 0) (z n) (map SesNode ls) = z (run_steps (node_step X remote) n ls)" for n
    by (induction ls arbitrary: n) (simp_all add: z_def session_end_def session_new_def)
  ultimately show ?thesis
    using session_run_inv [of p 0 sid 0 "z n1" "map SesNode ls" X remote] assms(3,4)
    by (simp add: z_def list.pred_map list_ex_iff)
qed

lemma session_starts_ok:
  assumes "session_inv p i sid k (session_end r (session_new n sid sub0 s))" and "lookup_service n sid = Some j"
    and "handle_subscribe_status sid n = Inr sub"
  shows "session_inv p i sid k (session_new n sid sub s)"
proof (rule session_inv_cases [OF assms(1)])
  fix h assume h: "object_watch i (hz_node (session_end r (session_new n sid sub0 s))) = Some h"
    "status_version i (hz_node (session_end r (session_new n sid sub0 s))) = hx_version h"
  have node: "hz_node (session_end r (session_new n sid sub0 s)) = n" by (simp add: session_end_def session_new_def)
  from assms(1,2) have "j = i" by (simp add: session_inv_def node)
  with assms(2,3) h have sub: "sub = status_subscribe h" by (simp add: handle_subscribe_status_def node)
  show ?thesis
    by (rule session_inv_moved [OF assms(1) _ _ _ h(1)])
      (use h sub node in \<open>simp_all add: session_data_def status_subscribe_def, simp_all add: session_new_def session_end_def\<close>)
qed

section \<open>The saved state is the current one\<close>

text \<open>
  C3. A host client keeps its file and its display up to date with a Node that rotates the
  token whenever it wants to: however rotations, connections and stops interleave with the
  client's steps between its status calls, saving and showing, whenever it waits with no status
  left to receive the file loads as the service's current token with its creation time, and the
  URI shown last is the one that token makes.
\<close>

theorem saved_state_is_current:
  assumes "node_start n0" and "start_service X opts fresh now mt n0 = (Inr sid, n1)"
    and "n = run_steps (node_step X remote) n1 ls" and "lookup_service n sid = Some i"
    and "handle_subscribe_status sid n = Inr sub"
    and "z = run_steps (host_session_step X remote p i) (session_new n sid sub s) zs"
    and "\<not> list_ex starts_service ls" "\<not> list_ex session_starts zs" "length ls + length zs < 2 ^ 64 - 2"
    and "hl_result (hz_loop z) = None" "hz_pc z = SesWaiting"
    and "object_watch i (hz_node z) = Some h" "fst (status_recv h alive (hz_sub z)) \<in> {None, Some None}"
    and "st_token_created_at (hx_current h) \<le> time_max" "os_fault os (ReadFile p) = None"
  shows "let tok = sv_token (nd_objects (hz_node z) ! i)
    in load_host_state os p (hl_fs (hz_loop z))
         = (Inr (Some \<lparr>hs_service_id = sid, hs_token_state = token_state_new tok (st_token_created_at (hx_current h))\<rparr>),
            hl_fs (hz_loop z))
       \<and> hz_shown z = Some (node_join_uri_value (hz_node z) sid tok)"
proof -
  have inv0: "session_inv p 0 sid (length ls) (session_end (Inr ()) (session_new n sid \<lparr>ss_seen = 0, ss_initial_pending = True\<rparr> s))"
    unfolding assms(3) by (rule served_before [OF assms(1,2,7)]) (use assms(9) in simp)
  then have i: "i = 0" using assms(4) by (simp add: session_inv_def session_end_def session_new_def)
  have "session_inv p i sid (length ls) (session_new n sid sub s)"
    using session_starts_ok [OF inv0 assms(4,5)] i by simp
  then have inv: "session_inv p i sid (length ls + length zs) z"
    unfolding assms(6) by (rule session_run_inv [OF _ assms(8)]) (use assms(9) in simp)
  show ?thesis
  proof (rule session_inv_cases [OF inv])
    fix h' assume h: "object_watch i (hz_node z) = Some h'"
      and data: "hl_result (hz_loop z) = None \<Longrightarrow> session_data p sid (node_join_uri_value (hz_node z) sid) (hz_sub z) (hz_loop z)
       (hz_shown z) (hz_pc z) (sv_token (nd_objects (hz_node z) ! i)) (st_uri_generation (hx_current h'))
       (st_token_created_at (hx_current h')) (hx_version h')"
    have [simp]: "h' = h" using h assms(12) by simp
    have "\<not> ss_initial_pending (hz_sub z) \<and> ss_seen (hz_sub z) = hx_version h"
      using assms(13) by (auto simp: status_recv_def split: if_splits)
    with data [OF assms(10)] assms(11,14)
    have "file_holds p sid (token_state_new (sv_token (nd_objects (hz_node z) ! i)) (st_token_created_at (hx_current h)))
        (hl_fs (hz_loop z))
      \<and> hz_shown z = Some (node_join_uri_value (hz_node z) sid (sv_token (nd_objects (hz_node z) ! i)))"
      by (auto simp: session_data_def)
    with file_holds_load [OF _ assms(15)] show ?thesis by (simp add: Let_def)
  qed
qed

text \<open>A client whose service rotates once while it waits.\<close>

definition demo_sub :: "nat \<Rightarrow> bool \<Rightarrow> status_subscription" where
  "demo_sub v pending = \<lparr>ss_seen = v, ss_initial_pending = pending\<rparr>"

definition demo_served :: node where
  "demo_served = snd (start_service host_ref_crates demo_options (token_filled 2) 0 0 demo_bound)"

definition demo_rotated :: node where
  "demo_rotated = snd (rotate_finish demo_rotation demo_node)"

abbreviation demo_uri :: "u8 \<Rightarrow> join_uri" where
  "demo_uri b \<equiv> node_join_uri_value demo_bound (service_filled 1) (token_filled b)"

lemma demo_served_start:
  "start_service host_ref_crates demo_options (token_filled 2) 0 0 demo_bound = (Inr (service_filled 1), demo_served)"
proof -
  obtain s where "expose_secret_uri host_ref_crates (demo_uri 2) = Inr s"
    using demo_exposes [of demo_bound] by (auto simp: demo_bound_def)
  then have "fst (start_service host_ref_crates demo_options (token_filled 2) 0 0 demo_bound) = Inr (service_filled 1)"
    by (simp add: start_service_def demo_options_def validate_target_def resolve_token_state_def
        token_state_generate_def token_state_new_def lookup_service_def checked_inc_def Let_def) (simp add: demo_bound_def)
  then show ?thesis by (simp add: demo_served_def prod_eq_iff)
qed

lemma demo_begins: "demo_node = node_step host_ref_crates demo_remote demo_served (NodeRotate (service_filled 1) None True (token_filled 3) 5)"
  by (simp add: demo_node_def demo_served_def)

lemma demo_answers_served:
  obtains h where "object_watch 0 demo_served = Some h" "hx_version h = 0" "hx_published h = hx_current h"
    "handle_status (service_filled 1) demo_served = Inr (hx_current h)" "st_uri_generation (hx_current h) = 1"
    "handle_subscribe_status (service_filled 1) demo_served = Inr (demo_sub 0 True)"
    "handle_token_state (service_filled 1) demo_served = Some (Inr (token_state_new (token_filled 2) 0))"
    "handle_join_uri (service_filled 1) demo_served = Some (Inr (demo_uri 2))"
    "lookup_service demo_served (service_filled 1) = Some 0"
  using demo_served_start
proof (cases rule: start_service_cases)
  case (started nxt resolved)
  have r: "resolved = \<lparr>rt_state = token_state_new (token_filled 2) 0, rt_refresh = None, rt_deadline = None, rt_deadline_monotonic = None\<rparr>"
    using started(5) by (simp add: demo_options_def resolve_token_state_def token_state_generate_def token_state_new_def)
  define h where "h = hosted_status_new (service_filled 1) 0 None"
  have obj: "object_watch 0 demo_served = Some h" "lookup_service demo_served (service_filled 1) = Some 0"
    "sv_token (nd_objects demo_served ! 0) = token_filled 2" "\<not> sv_rotating (nd_objects demo_served ! 0)"
    "sv_service_id (nd_objects demo_served ! 0) = service_filled 1"
    unfolding started(7) by (simp_all add: r h_def object_watch_def with_new_service_def demo_bound_def lookup_service_def
        new_service_def Let_def host_world_new_def host_context_new_def demo_options_def token_state_new_def)
  have h: "hx_version h = 0" "hx_published h = hx_current h" "st_uri_generation (hx_current h) = 1"
    "st_token_created_at (hx_current h) = 0" by (simp_all add: h_def hosted_status_new_def Let_def)
  have stat: "service_status (nd_objects demo_served ! 0) = Some (hx_current h)"
    using obj(1) by (auto simp: object_watch_def service_status_def status_snapshot_def split: if_splits)
  have uri: "node_join_uri_value demo_served sid t = node_join_uri_value demo_bound sid t" for sid t
    unfolding started(7) by (simp add: with_new_service_def node_join_uri_value_def)
  show thesis
    by (rule that [OF obj(1) h(1,2) _ h(3) _ _ _ obj(2)])
      (simp_all add: obj h stat uri handle_status_def ok_or_def handle_subscribe_status_def handle_token_state_def handle_join_uri_def
        Let_def status_subscribe_def demo_sub_def)
qed simp_all

lemma demo_answers_rotated:
  obtains h where "object_watch 0 demo_rotated = Some h" "hx_version h = 1" "hx_published h = hx_current h"
    "st_uri_generation (hx_current h) = 2" "st_token_created_at (hx_current h) = 5"
    "handle_token_state (service_filled 1) demo_rotated = Some (Inr (token_state_new (token_filled 3) 5))"
    "handle_join_uri (service_filled 1) demo_rotated = Some (Inr (demo_uri 3))"
    "sv_token (nd_objects demo_rotated ! 0) = token_filled 3" "node_join_uri_value demo_rotated = node_join_uri_value demo_bound"
proof -
  define h where "h = rotate_uri 5 None (hosted_status_new (service_filled 1) 0 None)"
  have fin: "demo_rotated = release_rotation demo_rotation (update_object 0 (apply_rotation demo_rotation) demo_node)"
    unfolding demo_rotated_def rotate_finish_alt by (simp add: demo_rotation_def demo_state(1))
  have len: "0 < length (nd_objects demo_node)" by (simp add: demo_state(4))
  define sv where "sv = (apply_rotation demo_rotation (nd_objects demo_node ! 0))\<lparr>sv_rotating := False\<rparr>"
  have sv: "nd_objects demo_rotated ! 0 = sv" "length (nd_objects demo_rotated) = 1"
    using len demo_state(4) by (simp_all add: fin release_rotation_def nth_update_object demo_rotation_def sv_def)
  have obj: "object_watch 0 demo_rotated = Some h" "\<not> sv_rotating sv" "sv_token sv = token_filled 3" "sv_service_id sv = service_filled 1"
    by (simp_all add: object_watch_def sv, simp_all add: sv_def apply_rotation_def Let_def demo_rotation_def)
      (simp_all add: demo_state(5) h_def new_service_def Let_def host_world_new_def host_context_new_def demo_options_def token_state_new_def)
  have h: "hx_version h = 1" "hx_published h = hx_current h" "st_uri_generation (hx_current h) = 2"
    "st_token_created_at (hx_current h) = 5"
    by (simp_all add: h_def rotate_uri_def status_update_def hosted_status_new_def Let_def saturating_inc_def)
  have look: "lookup_service demo_rotated (service_filled 1) = Some 0"
    using demo_state(1) by (simp add: fin release_rotation_def lookup_service_def)
  have stat: "service_status (nd_objects demo_rotated ! 0) = Some (hx_current h)"
    using obj(1) by (auto simp: object_watch_def service_status_def status_snapshot_def split: if_splits)
  have uri: "node_join_uri_value demo_rotated = node_join_uri_value demo_bound"
    unfolding fin by (rule node_identity_uri) (simp add: demo_node_def del: node_step.simps)
  show thesis
    by (rule that [OF obj(1) h _ _ _ uri])
      (simp_all add: sv obj h stat [unfolded sv] uri look handle_token_state_def handle_join_uri_def Let_def)
qed

abbreviation demo_step :: "host_session \<Rightarrow> session_label \<Rightarrow> host_session" where
  "demo_step \<equiv> host_session_step host_ref_crates demo_remote ''s'' 0"

text \<open>Saving and showing while the Node stands still.\<close>

lemma demo_saves_and_shows:
  assumes z: "z = \<lparr>hz_node = n, hz_sub = sub,
      hz_loop = \<lparr>hl_service_id = service_filled 1, hl_generation = g, hl_fs = s, hl_printed = out, hl_result = None\<rparr>,
      hz_shown = u, hz_pc = SesSaving rotated\<rparr>"
    and "\<forall>r. fs_files s (state_temp p r) = None"
    and "handle_token_state (service_filled 1) n = Some (Inr (token_state_new t c))" "0 \<le> c"
    and "handle_join_uri (service_filled 1) n = Some (Inr (demo_uri b))"
  shows "\<exists>s' out'. run_steps (host_session_step host_ref_crates demo_remote p 0) z [SesSave calm_os, SesShow False] = \<lparr>hz_node = n, hz_sub = sub,
      hz_loop = \<lparr>hl_service_id = service_filled 1, hl_generation = g, hl_fs = s', hl_printed = out', hl_result = None\<rparr>,
      hz_shown = Some (demo_uri b), hz_pc = SesWaiting\<rparr> \<and> (\<forall>r. fs_files s' (state_temp p r) = None)"
proof -
  obtain s' where s': "save_current_state calm_os p (service_filled 1) (Inr (token_state_new t c)) s = (Inr (), s')"
      "\<forall>r. fs_files s' (state_temp p r) = None"
    using calm_save [OF assms(2), of "token_state_new t c" "service_filled 1"] assms(4) by (auto simp: token_state_new_def)
  obtain txt1 where "expose_secret_uri host_ref_crates (demo_uri b) = Inr txt1" using host_ref_exposes demo_relay by blast
  then obtain shown where "print_join_uri host_ref_crates False (demo_uri b) rotated = Inr shown" by (simp add: print_join_uri_def)
  then show ?thesis using s' assms(3,5) by (simp add: z session_save_def session_show_def Let_def)
qed

definition demo_session_labels :: "session_label list" where
  "demo_session_labels = [SesRead] @ [SesSave calm_os, SesShow False] @
     [SesRecv True, SesNode (NodeRotate (service_filled 1) None True (token_filled 3) 5),
      SesNode (NodeRotateFinish demo_rotation), SesRecv True] @ [SesSave calm_os, SesShow False]"

lemma demo_session:
  obtains s out where "run_steps demo_step (session_new demo_served (service_filled 1) (demo_sub 0 True) demo_disk) demo_session_labels
    = \<lparr>hz_node = demo_rotated, hz_sub = demo_sub 1 False,
       hz_loop = \<lparr>hl_service_id = service_filled 1, hl_generation = 2, hl_fs = s, hl_printed = out, hl_result = None\<rparr>,
       hz_shown = Some (demo_uri 3), hz_pc = SesWaiting\<rparr>"
proof -
  obtain h where h: "object_watch 0 demo_served = Some h" "hx_version h = 0" "hx_published h = hx_current h"
    "handle_status (service_filled 1) demo_served = Inr (hx_current h)" "st_uri_generation (hx_current h) = 1"
    "handle_token_state (service_filled 1) demo_served = Some (Inr (token_state_new (token_filled 2) 0))"
    "handle_join_uri (service_filled 1) demo_served = Some (Inr (demo_uri 2))" by (rule demo_answers_served) blast
  obtain h2 where h2: "object_watch 0 demo_rotated = Some h2" "hx_version h2 = 1" "hx_published h2 = hx_current h2"
    "st_uri_generation (hx_current h2) = 2" "st_token_created_at (hx_current h2) = 5"
    "handle_token_state (service_filled 1) demo_rotated = Some (Inr (token_state_new (token_filled 3) 5))"
    "handle_join_uri (service_filled 1) demo_rotated = Some (Inr (demo_uri 3))" by (rule demo_answers_rotated) blast
  define at where "at n v pend g s out u pc = \<lparr>hz_node = n, hz_sub = demo_sub v pend,
       hz_loop = \<lparr>hl_service_id = service_filled 1, hl_generation = g, hl_fs = s, hl_printed = out, hl_result = None\<rparr>,
       hz_shown = u, hz_pc = pc\<rparr>" for n v pend g s out u pc
  have free: "\<forall>r. fs_files demo_disk (state_temp ''s'' r) = None" by (simp add: demo_disk_free)
  obtain s1 out1 where one: "run_steps demo_step (at demo_served 0 True 1 demo_disk [] None (SesSaving False)) [SesSave calm_os, SesShow False]
      = at demo_served 0 True 1 s1 out1 (Some (demo_uri 2)) SesWaiting" "\<forall>r. fs_files s1 (state_temp ''s'' r) = None"
    using demo_saves_and_shows [OF refl free h(6) _ h(7), of "demo_sub 0 True" 1 "[]" None False] unfolding at_def by auto
  obtain s2 out2 where two: "run_steps demo_step (at demo_rotated 1 False 2 s1 out1 (Some (demo_uri 2)) (SesSaving True)) [SesSave calm_os, SesShow False]
      = at demo_rotated 1 False 2 s2 out2 (Some (demo_uri 3)) SesWaiting"
    using demo_saves_and_shows [OF refl one(2) h2(6) _ h2(7), of "demo_sub 1 False" 2 out1 "Some (demo_uri 2)" True]
    unfolding at_def by auto
  have first: "run_steps demo_step (session_new demo_served (service_filled 1) (demo_sub 0 True) demo_disk) [SesRead]
      = at demo_served 0 True 1 demo_disk [] None (SesSaving False)"
    using h by (simp add: session_new_def session_read_def at_def)
  define l r where "l = NodeRotate (service_filled 1) None True (token_filled 3) 5" and "r = NodeRotateFinish demo_rotation"
  have moves: "node_step host_ref_crates demo_remote demo_served l = demo_node"
    "node_step host_ref_crates demo_remote demo_node r = demo_rotated"
    by (simp_all add: l_def r_def demo_begins [symmetric] demo_rotated_def demo_state(2) del: node_step.simps(3))
  have between: "run_steps demo_step (at demo_served 0 True 1 s1 out1 (Some (demo_uri 2)) SesWaiting)
      [SesRecv True, SesNode l, SesNode r, SesRecv True]
      = at demo_rotated 1 False 2 s1 out1 (Some (demo_uri 2)) (SesSaving True)"
    using h h2 by (simp add: at_def session_recv_def status_recv_def demo_sub_def moves)
  show thesis
    by (rule that [of s2 out2, folded at_def])
      (simp only: demo_session_labels_def run_steps_append first one(1) between [unfolded l_def r_def] two)
qed

theorem saved_state_is_current_witness:
  "let z = run_steps demo_step (session_new demo_served (service_filled 1) (demo_sub 0 True) demo_disk) demo_session_labels
   in load_host_state calm_os ''s'' (hl_fs (hz_loop z))
      = (Inr (Some \<lparr>hs_service_id = service_filled 1, hs_token_state = token_state_new (token_filled 3) 5\<rparr>), hl_fs (hz_loop z))
    \<and> hz_shown z = Some (demo_uri 3)"
proof -
  define z where "z = run_steps demo_step (session_new demo_served (service_filled 1) (demo_sub 0 True) demo_disk) demo_session_labels"
  obtain s out where z: "z = \<lparr>hz_node = demo_rotated, hz_sub = demo_sub 1 False,
       hz_loop = \<lparr>hl_service_id = service_filled 1, hl_generation = 2, hl_fs = s, hl_printed = out, hl_result = None\<rparr>,
       hz_shown = Some (demo_uri 3), hz_pc = SesWaiting\<rparr>" unfolding z_def by (rule demo_session)
  obtain h where h: "object_watch 0 demo_rotated = Some h" "hx_version h = 1" "st_token_created_at (hx_current h) = 5"
    "sv_token (nd_objects demo_rotated ! 0) = token_filled 3" "node_join_uri_value demo_rotated = node_join_uri_value demo_bound"
    by (rule demo_answers_rotated) blast
  have sub: "handle_subscribe_status (service_filled 1) demo_served = Inr (demo_sub 0 True)"
    "lookup_service demo_served (service_filled 1) = Some 0" by (rule demo_answers_served; blast)+
  have "demo_served = run_steps (node_step host_ref_crates demo_remote) demo_served []" by simp
  from saved_state_is_current [OF demo_start demo_served_start this sub(2,1) z_def, of h True calm_os] h
  show ?thesis unfolding z_def [symmetric]
    by (simp add: z demo_session_labels_def status_recv_def demo_sub_def time_max_def calm_os_def Let_def)
qed

end
