(* ===== verification/Host_Command.thy ===== *)
theory Host_Command
  imports Host_Session
begin

text \<open>
  \<^verbatim>\<open>run_host\<close> and \<^verbatim>\<open>run_host_until_shutdown\<close> of \<^verbatim>\<open>cli/src/main.rs\<close> as a whole: the saved state, the
  endpoint, the service, the two subscriptions, the session, and the end of the Node. What other
  tasks do on the Node between two of these is a list of labels; \<open>None\<close> as a result is a command
  that is still running when its labels end.
\<close>

section \<open>The command\<close>

record host_run =
  hr_result :: "(cli_error + printed list) option"
  hr_node :: "node option"
  hr_fs :: fs
  hr_printed :: "printed list"

text \<open>What happens while the command waits for the locks of the Node, and in its session.\<close>

record host_interleaving =
  hi_before_events :: "node_label list"
  hi_before_statuses :: "node_label list"
  hi_session :: "session_label list"

definition run_host_until_shutdown ::
  "crates \<Rightarrow> (conn_id \<Rightarrow> endpoint_id) \<Rightarrow> path \<Rightarrow> hosted_service_options \<Rightarrow> access_token \<Rightarrow> system_time \<Rightarrow> instant
     \<Rightarrow> host_interleaving \<Rightarrow> node \<Rightarrow> fs \<Rightarrow> (cli_error + unit) option \<times> node \<times> fs \<times> printed list" where
  "run_host_until_shutdown X remote p opts fresh now mt il n s =
     (case start_service X opts fresh now mt n of
        (Inl e, n1) \<Rightarrow> (Some (Inl (CliNode e)), n1, s, [])
      | (Inr sid, n1) \<Rightarrow>
          let n2 = run_steps (node_step X remote) n1 (hi_before_events il)
          in case handle_subscribe sid n2 of
            Inl e \<Rightarrow> (Some (Inl (CliNode e)), n2, s, [])
          | Inr i \<Rightarrow>
              let n3 = run_steps (node_step X remote) n2 (hi_before_statuses il)
              in case handle_subscribe_status sid n3 of
                Inl e \<Rightarrow> (Some (Inl (CliNode e)), n3, s, [])
              | Inr sub \<Rightarrow>
                  let z = run_steps (host_session_step X remote p i) (session_new n3 sid sub s) (hi_session il)
                  in (hl_result (hz_loop z), hz_node z, hl_fs (hz_loop z), hl_printed (hz_loop z)))"

definition run_host ::
  "crates \<Rightarrow> (conn_id \<Rightarrow> endpoint_id) \<Rightarrow> path option \<Rightarrow> os \<Rightarrow> endpoint_id \<Rightarrow> box_error + unit \<Rightarrow> net_view
     \<Rightarrow> u16 \<Rightarrow> secret_key \<Rightarrow> relay_url option \<Rightarrow> host_config \<Rightarrow> token_refresh \<Rightarrow> bool
     \<Rightarrow> service_id \<Rightarrow> access_token \<Rightarrow> system_time \<Rightarrow> instant \<Rightarrow> host_interleaving \<Rightarrow> fs \<Rightarrow> host_run" where
  "run_host X remote dirs os endpoint bound net port key relay config refresh new_uri fresh_id fresh now mt il s =
     (case run_host_state dirs os s of
        (Inl e, s1) \<Rightarrow> \<lparr>hr_result = Some (Inl (CliPersist e)), hr_node = None, hr_fs = s1, hr_printed = []\<rparr>
      | (Inr (p, saved), s1) \<Rightarrow>
          (case node_bind endpoint (run_host_options key relay) bound of
             Inl e \<Rightarrow> \<lparr>hr_result = Some (Inl (CliNode e)), hr_node = None, hr_fs = s1, hr_printed = []\<rparr>
           | Inr n \<Rightarrow>
               (case run_host_until_shutdown X remote p (host_service_options port config refresh new_uri saved fresh_id)
                       fresh now mt il n s1 of
                  (None, n', s', shown) \<Rightarrow> \<lparr>hr_result = None, hr_node = Some n', hr_fs = s', hr_printed = shown\<rparr>
                | (Some r, n', s', shown) \<Rightarrow>
                    (case run_host_end net r n' of
                       (r', n'') \<Rightarrow> \<lparr>hr_result = Some r', hr_node = Some n'', hr_fs = s', hr_printed = shown\<rparr>))))"

section \<open>The Node of the command\<close>

lemma session_step_node:
  "\<exists>ls. hz_node (host_session_step X remote p i z l) = run_steps (node_step X remote) (hz_node z) ls"
proof (cases "\<exists>nl. l = SesNode nl")
  case True
  then obtain nl where "l = SesNode nl" by blast
  then show ?thesis by (intro exI [of _ "[nl]"]) simp
next
  case False
  then have "hz_node (host_session_step X remote p i z l) = hz_node z"
    by (cases l) (auto simp: session_read_def session_save_def session_show_def session_recv_def session_end_def Let_def
        split: session_pc.splits option.splits sum.splits prod.splits)
  then show ?thesis by (intro exI [of _ "[]"]) simp
qed

lemma session_run_node:
  "\<exists>ls. hz_node (run_steps (host_session_step X remote p i) z zs) = run_steps (node_step X remote) (hz_node z) ls"
proof (induction zs arbitrary: z)
  case Nil
  show ?case by (intro exI [of _ "[]"]) simp
next
  case (Cons l zs)
  obtain ls1 where one: "hz_node (host_session_step X remote p i z l) = run_steps (node_step X remote) (hz_node z) ls1"
    using session_step_node by blast
  obtain ls2 where "hz_node (run_steps (host_session_step X remote p i) (host_session_step X remote p i z l) zs)
      = run_steps (node_step X remote) (hz_node (host_session_step X remote p i z l)) ls2" using Cons by blast
  then show ?case using one by (intro exI [of _ "ls1 @ ls2"]) (simp add: run_steps_append)
qed

lemma until_shutdown_node:
  assumes "run_host_until_shutdown X remote p opts fresh now mt il n s = (r, n', s', shown)" "node_inv remote n"
  shows "node_inv remote n'"
proof -
  obtain a n1 where start: "start_service X opts fresh now mt n = (a, n1)" by force
  have n1: "node_inv remote n1" using node_step_inv [OF assms(2), of X "NodeStart opts fresh now mt"] start by simp
  define ran where "ran m \<longleftrightarrow> (\<exists>ls. m = run_steps (node_step X remote) n1 ls)" for m
  have more: "ran (run_steps (node_step X remote) m ls)" if "ran m" for m ls
    using that unfolding ran_def by (metis run_steps_append)
  have "ran n1" unfolding ran_def by (intro exI [of _ "[]"]) simp
  have "ran n'"
  proof (cases a)
    case (Inl e)
    with assms(1) start \<open>ran n1\<close> show ?thesis by (simp add: run_host_until_shutdown_def)
  next
    case (Inr sid)
    define n2 where "n2 = run_steps (node_step X remote) n1 (hi_before_events il)"
    define n3 where "n3 = run_steps (node_step X remote) n2 (hi_before_statuses il)"
    have ran: "ran n2" "ran n3" unfolding n3_def n2_def by (intro more \<open>ran n1\<close>)+
    have "ran (hz_node (run_steps (host_session_step X remote p i) (session_new n3 sid sub s) zs))" for i sub zs
      using session_run_node [of X remote p i "session_new n3 sid sub s" zs] more [OF ran(2)] by (auto simp: session_new_def)
    with ran assms(1) start Inr show ?thesis
      unfolding run_host_until_shutdown_def
      by (auto simp: Let_def n2_def [symmetric] n3_def [symmetric] split: sum.splits)
  qed
  with n1 node_sys.inv_run show ?thesis unfolding ran_def by blast
qed

lemma closed_stays_empty:
  "nd_services n = [] \<Longrightarrow> \<not> list_ex starts_service ls \<Longrightarrow> lookup_service (run_steps (node_step X remote) n ls) sid = None"
proof -
  have step: "lookup_service (node_step X remote m l) sid = None"
    if "lookup_service m sid = None" "\<not> starts_service l" for m l
    using step_shrinks [of l m X remote] that starts_service_iff
    by (cases "lookup_service (node_step X remote m l) sid") (auto simp: node_shrinks_def)
  assume "nd_services n = []" and ls: "\<not> list_ex starts_service ls"
  then have "lookup_service n sid = None" by (simp add: lookup_service_def)
  then show ?thesis using ls by (induction ls arbitrary: n) (simp_all add: step)
qed

section \<open>However it ends, nothing is left running\<close>

text \<open>
  C25. However the host command ends, by an interrupt, a closed channel, a failed save, a service
  that could not be started or one that was stopped meanwhile, it leaves nothing behind: its
  Node accepts no connections, has no service left, every service it ever had is stopped, and
  from then on no request of a guest finds one.
\<close>

theorem host_command_ends_clean:
  assumes "run_host X remote dirs os endpoint bound net port key relay config refresh new_uri fresh_id fresh now mt il s = run"
    and "hr_result run = Some r" and "hr_node run = Some n" and "\<not> list_ex starts_service ls"
  shows "nd_services n = [] \<and> \<not> nd_open n
    \<and> (\<forall>i < length (nd_objects n). world_phase (sv_world (nd_objects n ! i)) = Some Stopped)
    \<and> lookup_service (run_steps (node_step X remote) n ls) sid = None
    \<and> (is_ok r \<longleftrightarrow> r = Inr [Out '''', Out ''Closed.''])"
proof -
  obtain a s1 where st: "run_host_state dirs os s = (a, s1)" by force
  show ?thesis
  proof (cases a)
    case (Inl e)
    with st assms(1,3) show ?thesis by (auto simp: run_host_def)
  next
    case (Inr ps)
    then obtain p saved where ps: "a = Inr (p, saved)" by (cases ps) simp
    show ?thesis
    proof (cases "node_bind endpoint (run_host_options key relay) bound")
      case (Inl e)
      with st ps assms(1,3) show ?thesis by (auto simp: run_host_def)
    next
      case (Inr n0)
      then have "node_inv remote n0" by (intro node_start_inv) (auto simp: node_start_def node_bind_def split: sum.splits)
      obtain ro n1 s2 shown where u: "run_host_until_shutdown X remote p
          (host_service_options port config refresh new_uri saved fresh_id) fresh now mt il n0 s1 = (ro, n1, s2, shown)"
        by (metis prod_cases4)
      have inv1: "node_inv remote n1" by (rule until_shutdown_node [OF u]) fact
      obtain r1 where r1: "ro = Some r1" "n = node_close net n1" "r = and_then r1 (\<lambda>_. Inr [Out '''', Out ''Closed.''])"
        using assms(1-3) st ps Inr u by (cases ro) (auto simp: run_host_def run_host_end_def)
      have inv: "node_inv remote n" using node_close_inv [OF inv1] by (simp add: r1)
      have "nd_services n = []" "\<not> nd_open n"
        using stop_all_meta [of net "nd_services n1" "n1\<lparr>nd_services := []\<rparr>"]
        by (simp_all add: r1 node_close_def Let_def stop_all_def)
      with inv closed_stays_empty [OF _ assms(4)] show ?thesis
        by (auto simp: node_inv_def phases_ok_def object_live_def lookup_service_def r1(3) and_then_def is_ok_def split: sum.splits)
    qed
  qed
qed

text \<open>A host that is interrupted right after its URI was shown.\<close>

definition demo_interleaving :: host_interleaving where
  "demo_interleaving = \<lparr>hi_before_events = [], hi_before_statuses = [],
     hi_session = [SesRead] @ [SesSave calm_os, SesShow False] @ [SesCtrlC (Inr ())]\<rparr>"

definition demo_run :: host_run where
  "demo_run = run_host host_ref_crates demo_remote (Some ''d'') calm_os (endpoint_filled 9) (Inr ()) (\<lambda>_. None) 25565
     (secret_filled 9) None host_config_default RefreshAlways False (service_filled 1) (token_filled 2) 0 0 demo_interleaving empty_fs"

lemma demo_run_ends:
  obtains n where "hr_result demo_run = Some (Inr [Out '''', Out ''Closed.''])" "hr_node demo_run = Some n"
proof -
  obtain h where h: "object_watch 0 demo_served = Some h" "handle_status (service_filled 1) demo_served = Inr (hx_current h)"
    "handle_subscribe_status (service_filled 1) demo_served = Inr (demo_sub 0 True)"
    "handle_token_state (service_filled 1) demo_served = Some (Inr (token_state_new (token_filled 2) 0))"
    "handle_join_uri (service_filled 1) demo_served = Some (Inr (demo_uri 2))"
    "lookup_service demo_served (service_filled 1) = Some 0" by (rule demo_answers_served) blast
  obtain p where state: "run_host_state (Some ''d'') calm_os empty_fs = (Inr (p, None), empty_fs)"
    by (simp add: run_host_state_def fio_then_def fio_of_def fio_return_def default_host_state_path_def data_dir_def ok_or_def
        load_host_state_def sys_read_def calm_os_def empty_fs_def io_err_def)
  have bound: "node_bind (endpoint_filled 9) (run_host_options (secret_filled 9) None) (Inr ()) = Inr demo_bound"
    by (simp add: node_bind_def run_host_options_def node_options_default_def demo_bound_def NODE_UNAUTHENTICATED_CONNECTIONS_MAX_def)
  have opts: "host_service_options 25565 host_config_default RefreshAlways False None (service_filled 1) = demo_options"
    by (simp add: host_service_options_def demo_options_def)
  define at where "at s out u pc = \<lparr>hz_node = demo_served, hz_sub = demo_sub 0 True,
       hz_loop = \<lparr>hl_service_id = service_filled 1, hl_generation = st_uri_generation (hx_current h), hl_fs = s, hl_printed = out, hl_result = None\<rparr>,
       hz_shown = u, hz_pc = pc\<rparr>" for s out u pc
  let ?step = "host_session_step host_ref_crates demo_remote p 0"
  have "\<forall>r. fs_files empty_fs (state_temp p r) = None" by (simp add: empty_fs_def)
  then obtain s1 out1 where shares: "run_steps ?step (at empty_fs [] None (SesSaving False)) [SesSave calm_os, SesShow False]
      = at s1 out1 (Some (demo_uri 2)) SesWaiting"
    using demo_saves_and_shows [where s = empty_fs and p = p and sub = "demo_sub 0 True" and g = "st_uri_generation (hx_current h)"
        and out = "[]" and u = None and rotated = False, OF refl _ h(4) _ h(5)]
    unfolding at_def by auto
  have first: "run_steps ?step (session_new demo_served (service_filled 1) (demo_sub 0 True) empty_fs) [SesRead]
      = at empty_fs [] None (SesSaving False)"
    using h by (simp add: session_new_def session_read_def at_def)
  define z where "z = run_steps ?step (session_new demo_served (service_filled 1) (demo_sub 0 True) empty_fs) (hi_session demo_interleaving)"
  have "z = run_steps ?step (at s1 out1 (Some (demo_uri 2)) SesWaiting) [SesCtrlC (Inr ())]"
    unfolding z_def demo_interleaving_def host_interleaving.simps by (simp only: run_steps_append first shares)
  then have z: "hl_result (hz_loop z) = Some (Inr ())" by (simp add: at_def map_err_def)
  have il: "hi_before_events demo_interleaving = []" "hi_before_statuses demo_interleaving = []"
    by (simp_all add: demo_interleaving_def)
  have sub: "handle_subscribe (service_filled 1) demo_served = Inr 0" by (simp add: handle_subscribe_def h(6) ok_or_def)
  have "run_host_until_shutdown host_ref_crates demo_remote p demo_options (token_filled 2) 0 0 demo_interleaving demo_bound empty_fs
      = (Some (Inr ()), hz_node z, hl_fs (hz_loop z), hl_printed (hz_loop z))"
    using z sub h(3) demo_served_start il by (simp add: run_host_until_shutdown_def Let_def z_def [symmetric])
  then have "hr_result demo_run = Some (Inr [Out '''', Out ''Closed.'']) \<and> hr_node demo_run \<noteq> None"
    by (simp add: demo_run_def run_host_def state bound opts run_host_end_def)
  with that show thesis by blast
qed

theorem host_command_ends_clean_witness:
  "\<exists>n. hr_node demo_run = Some n \<and> nd_services n = [] \<and> \<not> nd_open n"
proof -
  obtain n where n: "hr_result demo_run = Some (Inr [Out '''', Out ''Closed.''])" "hr_node demo_run = Some n" by (rule demo_run_ends)
  from host_command_ends_clean [OF demo_run_def [symmetric] n, of "[]"] n(2) show ?thesis by simp
qed

end
