(* ===== verification/Join_Command.thy ===== *)
theory Join_Command
  imports Cli_Properties Sculk_Reference
begin

text \<open>
  The \<^verbatim>\<open>join\<close> command of \<^verbatim>\<open>cli/src/main.rs\<close> on the managed service it owns: it starts one tunnel,
  follows the updates until the tunnel is active, shows the local address, and shuts the service
  down when it is interrupted or the tunnel is gone. What the service's own tasks do comes
  between any two of its steps.
\<close>

section \<open>The command\<close>

text \<open>\<open>JzStopping\<close> is closing the tunnel, for the stop operation it names.\<close>

datatype join_pc =
    JzAttaching u64
  | JzActivating
  | JzRunning socket_addr
  | JzStopping u64 bool
  | JzDone "cli_error + unit"

record join_session =
  jz_service :: tunnel_service
  jz_pc :: join_pc
  jz_printed :: "printed list"

definition join_begin :: "crates \<Rightarrow> string \<Rightarrow> u16 option \<Rightarrow> u64 \<Rightarrow> u64 \<Rightarrow> join_session" where
  "join_begin X uri_text port delay timeout =
     (case join_command_options X uri_text port delay timeout of
        Inl e \<Rightarrow> \<lparr>jz_service = tunnel_service_new, jz_pc = JzDone (Inl e), jz_printed = []\<rparr>
      | Inr (shown, opts) \<Rightarrow>
          (case start_join opts tunnel_service_new of
             (Inl e, s) \<Rightarrow> \<lparr>jz_service = s, jz_pc = JzDone (Inl (CliService e)), jz_printed = shown\<rparr>
           | (Inr op, s) \<Rightarrow> \<lparr>jz_service = s, jz_pc = JzAttaching op, jz_printed = shown\<rparr>))"

definition join_shows :: "printed list \<Rightarrow> join_session \<Rightarrow> join_session" where
  "join_shows shown z = z\<lparr>jz_printed := jz_printed z @ shown\<rparr>"

text \<open>One update while waiting for the tunnel, by \<open>wait_until_active\<close>; an address is shown by \<open>show_addr\<close>.\<close>

definition join_waits :: "(socket_addr \<Rightarrow> string) \<Rightarrow> tunnel_update option \<Rightarrow> join_session \<Rightarrow> join_session" where
  "join_waits show_addr u z =
     (case wait_until_active JoinMode [u] of
        (shown, None) \<Rightarrow> join_shows shown z
      | (shown, Some r) \<Rightarrow>
          (case and_then r join_local_addr of
             Inl e \<Rightarrow> (join_shows shown z)\<lparr>jz_pc := JzDone (Inl e)\<rparr>
           | Inr a \<Rightarrow> (join_shows (shown @ [Out (''Tunnel running. Connect MC client to '' @ show_addr a),
                         Out ''Press Ctrl+C to stop.'']) z)\<lparr>jz_pc := JzRunning a\<rparr>))"

definition join_ends :: "cli_error + printed list \<Rightarrow> join_session \<Rightarrow> join_session" where
  "join_ends r z =
     (case r of
        Inl e \<Rightarrow> z\<lparr>jz_pc := JzDone (Inl e)\<rparr>
      | Inr shown \<Rightarrow> (join_shows shown z)\<lparr>jz_pc := JzDone (Inr ())\<rparr>)"

text \<open>\<^verbatim>\<open>service.shutdown()\<close> up to closing the tunnel, if there is one to close.\<close>

definition join_shutdown :: "bool \<Rightarrow> join_session \<Rightarrow> join_session" where
  "join_shutdown interrupted z =
     (case begin_stop (jz_service z) of
        (Inr True, s) \<Rightarrow> z\<lparr>jz_service := s, jz_pc := JzStopping (tsv_next (jz_service z)) interrupted\<rparr>
      | (r, s) \<Rightarrow> join_ends (wait_for_shutdown_end interrupted (shutdown_result r)) (z\<lparr>jz_service := s\<rparr>))"

definition join_runs :: "shutdown_wake \<Rightarrow> join_session \<Rightarrow> join_session" where
  "join_runs w z =
     (case wait_for_shutdown [w] of
        (shown, None) \<Rightarrow> join_shows shown z
      | (shown, Some (Inl e)) \<Rightarrow> (join_shows shown z)\<lparr>jz_pc := JzDone (Inl e)\<rparr>
      | (shown, Some (Inr interrupted)) \<Rightarrow> join_shutdown interrupted (join_shows shown z))"

text \<open>What the tasks of the service do by themselves.\<close>

fun task_step :: "service_step \<Rightarrow> bool" where
  "task_step (SvcComplete op r conns) = True"
| "task_step (SvcFinishStart op early) = True"
| "task_step (SvcFailStart op) = True"
| "task_step (SvcReport op) = True"
| "task_step (SvcReset op) = True"
| "task_step (SvcRefresh conns) = True"
| "task_step (SvcForward ev) = True"
| "task_step _ = False"

datatype join_label =
    JsService service_step
  | JsAttach
  | JsStatus
  | JsUpdate "tunnel_event option"
  | JsCtrlC "io_error + unit"
  | JsStopped

text \<open>A status that is received is the one that is published; other updates are events or the end.\<close>

fun join_session_step :: "(socket_addr \<Rightarrow> string) \<Rightarrow> join_session \<Rightarrow> join_label \<Rightarrow> join_session" where
  "join_session_step show_addr z (JsService l) =
     (if task_step l then z\<lparr>jz_service := tunnel_service_step (jz_service z) l\<rparr> else z)"
| "join_session_step show_addr z JsAttach =
     (case jz_pc z of
        JzAttaching op \<Rightarrow> z\<lparr>jz_service := attach_start_task op (jz_service z), jz_pc := JzActivating\<rparr>
      | _ \<Rightarrow> z)"
| "join_session_step show_addr z JsStatus =
     (let u = Some (UpdateStatus (tsv_published (jz_service z)))
      in case jz_pc z of
           JzActivating \<Rightarrow> join_waits show_addr u z
         | JzRunning a \<Rightarrow> join_runs (ShutUpdate u) z
         | _ \<Rightarrow> z)"
| "join_session_step show_addr z (JsUpdate ev) =
     (let u = map_option UpdateEvent ev
      in case jz_pc z of
           JzActivating \<Rightarrow> join_waits show_addr u z
         | JzRunning a \<Rightarrow> join_runs (ShutUpdate u) z
         | _ \<Rightarrow> z)"
| "join_session_step show_addr z (JsCtrlC r) =
     (case jz_pc z of JzRunning a \<Rightarrow> join_runs (ShutCtrlC r) z | _ \<Rightarrow> z)"
| "join_session_step show_addr z JsStopped =
     (case jz_pc z of
        JzStopping op interrupted \<Rightarrow>
          join_ends (wait_for_shutdown_end interrupted (Inr ())) (z\<lparr>jz_service := finish_stop op (jz_service z)\<rparr>)
      | _ \<Rightarrow> z)"

section \<open>The service of the command\<close>

text \<open>The command makes two operations at most: the start is the first, the stop the second.\<close>

definition young :: "tunnel_service \<Rightarrow> bool" where
  "young s \<longleftrightarrow> tsv_next s = 2 \<and> tsv_stopping s = [] \<and> fst ` set (tsv_tasks s) \<subseteq> {1} \<and> set (tsv_resets s) \<subseteq> {1}
     \<and> (case tsv_state s of SvcIdle \<Rightarrow> True | SvcStarting op _ \<Rightarrow> op = 1 | SvcActive _ \<Rightarrow> tsv_tasks s = [] | SvcStopping _ \<Rightarrow> False)"

definition running :: "socket_addr \<Rightarrow> tunnel_service \<Rightarrow> bool" where
  "running addr s \<longleftrightarrow> young s \<and> (\<exists>a. tsv_state s = SvcActive a \<and> at_mode a = JoinMode \<and> at_local_addr a = Some addr)"

definition ending :: "u64 \<Rightarrow> tunnel_service \<Rightarrow> bool" where
  "ending op s \<longleftrightarrow> op = 2 \<and> tsv_state s = SvcStopping op \<and> tsv_tasks s = [] \<and> (\<exists>t. tsv_stopping s = [(op, t)]) \<and> set (tsv_resets s) \<subseteq> {1}"

definition over :: "tunnel_service \<Rightarrow> bool" where
  "over s \<longleftrightarrow> tsv_state s = SvcIdle \<and> tsv_tasks s = [] \<and> tsv_stopping s = []"

definition pc_ok :: "join_pc \<Rightarrow> tunnel_service \<Rightarrow> bool" where
  "pc_ok pc s = (case pc of
     JzAttaching op \<Rightarrow> op = 1 \<and> young s
   | JzActivating \<Rightarrow> young s
   | JzRunning addr \<Rightarrow> running addr s
   | JzStopping op i \<Rightarrow> ending op s
   | JzDone (Inr _) \<Rightarrow> over s
   | JzDone (Inl _) \<Rightarrow> True)"

definition join_session_inv :: "join_session \<Rightarrow> bool" where
  "join_session_inv z \<longleftrightarrow> service_ok (jz_service z) \<and> tsv_next (jz_service z) \<in> {1, 2, 3} \<and> published_ok (jz_service z) \<and> pc_ok (jz_pc z) (jz_service z)"

text \<open>A task that is not there does nothing; a task that is there is the start.\<close>

lemma no_task: "tsv_tasks s = [] \<Longrightarrow> svc_task s op = None"
  by (simp add: svc_task_def)

lemma only_task: "fst ` set (tsv_tasks s) \<subseteq> {1} \<Longrightarrow> svc_task s op = Some v \<Longrightarrow> op = 1"
  by (force simp: svc_task_def dest: map_of_SomeD)

lemma delete_only: "fst ` set xs \<subseteq> {k} \<Longrightarrow> AList.delete k xs = []"
  by (auto simp: AList.delete_eq filter_empty_conv)

lemma young_active: "young s \<Longrightarrow> tsv_state s = SvcActive a \<Longrightarrow> tsv_tasks s = []"
  by (simp add: young_def)

lemma young_task: "young s \<Longrightarrow> svc_task s op = Some v \<Longrightarrow> op = 1 \<and> (\<forall>a. tsv_state s \<noteq> SvcActive a)"
  using only_task [of s op v] no_task [of s op] by (auto simp: young_def)

lemma young_blocks:
  assumes "young s" "\<forall>a. tsv_state s \<noteq> SvcActive a"
  shows "young (put_task 1 m t s)" "young (drop_guard 1 s)" "young (close_tunnel k s)" "young (drop_task 1 s)"
    "young (svc_publish st s)" "young (s\<lparr>tsv_tunnel_next := n\<rparr>)" "young (reset_operation 1 s)"
    "young (s\<lparr>tsv_resets := remove1 op (tsv_resets s)\<rparr>)" "young (s\<lparr>tsv_events := evs\<rparr>)"
proof -
  have "fst ` set (tsv_tasks s) \<subseteq> {1}" using assms(1) by (simp add: young_def)
  note gone = delete_only [OF this]
  show "young (put_task 1 m t s)" "young (drop_guard 1 s)" "young (close_tunnel k s)" "young (drop_task 1 s)"
    "young (svc_publish st s)" "young (s\<lparr>tsv_tunnel_next := n\<rparr>)" "young (reset_operation 1 s)" "young (s\<lparr>tsv_events := evs\<rparr>)"
    using assms by (auto simp: young_def svc_blocks gone reset_operation_def split: service_state.splits)
  show "young (s\<lparr>tsv_resets := remove1 op (tsv_resets s)\<rparr>)"
    using assms set_remove1_subset [of op "tsv_resets s"] by (auto simp: young_def split: service_state.splits)
qed

lemma young_reset:
  assumes "young s"
  shows "young (reset_operation op s)"
proof (cases "operation_id (tsv_state s) = Some op")
  case True
  with assms have "op = 1" "\<forall>a. tsv_state s \<noteq> SvcActive a" by (auto simp: young_def split: service_state.splits)
  with young_blocks(7) [OF assms] show ?thesis by simp
qed (use assms in \<open>simp add: reset_operation_def\<close>)

lemma young_complete: "young s \<Longrightarrow> young (complete_start op r conns s)"
proof -
  assume y: "young s"
  show ?thesis
  proof (cases "svc_task s op")
    case None
    with y show ?thesis by (simp add: complete_start_def)
  next
    case (Some mt)
    with young_task [OF y Some] have op: "op = 1" and idle: "\<forall>a. tsv_state s \<noteq> SvcActive a" by auto
    have more: "young (put_task 1 m t (s\<lparr>tsv_tunnel_next := n\<rparr>))"
      "young (drop_guard 1 (close_tunnel k (put_task 1 m t (s\<lparr>tsv_tunnel_next := n\<rparr>))))" for m t n k
      using idle by (intro young_blocks y; simp)+
    with Some y idle op young_blocks(1) [OF y idle] show ?thesis
      by (auto simp: complete_start_def Let_def split: sum.split start_task.split prod.split)
  qed
qed

lemma young_finish:
  assumes y: "young s"
  shows "young (finish_start op early s)"
proof (cases "svc_task s op")
  case None
  with y show ?thesis by (simp add: finish_start_def)
next
  case (Some mt)
  with young_task [OF y Some] have op: "op = 1" and idle: "\<forall>a. tsv_state s \<noteq> SvcActive a" by auto
  have none: "AList.delete 1 (tsv_tasks s) = []" using y by (intro delete_only) (simp add: young_def)
  have "young (drop_guard 1 (close_tunnel k (drop_task 1 s)))" for k
    using idle by (intro young_blocks y) simp_all
  moreover have "young (svc_publish st ((drop_task 1 s)\<lparr>tsv_state := SvcActive a, tsv_event_task := ev, tsv_events := evs\<rparr>))" for st a ev evs
    using y by (simp add: young_def svc_blocks none)
  ultimately show ?thesis using Some y op by (cases mt; cases "snd mt") (auto simp: finish_start_def)
qed

lemma young_fail:
  assumes y: "young s"
  shows "young (fail_start op s)"
proof (cases "svc_task s op")
  case None
  with y show ?thesis by (simp add: fail_start_def)
next
  case (Some mt)
  with young_task [OF y Some] have op: "op = 1" and idle: "\<forall>a. tsv_state s \<noteq> SvcActive a" by auto
  then have "young (put_task 1 m t (reset_operation 1 s))" for m t
    by (intro young_blocks young_reset y) (simp add: reset_state)
  with Some y op show ?thesis by (cases mt; cases "snd mt") (auto simp: fail_start_def)
qed

lemma young_report:
  assumes y: "young s"
  shows "young (publish_error_write op (publish_error_read op s))"
proof (cases "svc_task s op")
  case None
  with y show ?thesis by (simp add: publish_error_read_def publish_error_write_def)
next
  case (Some mt)
  with young_task [OF y Some] have op: "op = 1" and idle: "\<forall>a. tsv_state s \<noteq> SvcActive a" by auto
  have read: "young (publish_error_read 1 s)"
    using young_blocks(1) [OF y idle] y by (auto simp: publish_error_read_def split: option.split start_task.split)
  have "young (publish_error_write 1 u)" if "young u" "\<forall>a. tsv_state u \<noteq> SvcActive a" for u
  proof -
    have "young (svc_publish st (drop_task 1 u))" for st using that by (intro young_blocks) simp_all
    from young_blocks(9) [OF this] that show ?thesis
      by (auto simp: publish_error_write_def Let_def split: option.split start_task.split)
  qed
  with read idle op show ?thesis by simp
qed

lemma young_events: "young s \<Longrightarrow> young (refresh_connections conns s)" "young s \<Longrightarrow> young (forward_event ev s)"
  by (auto simp: refresh_connections_def forward_event_def Let_def young_def svc_publish_def
      split: option.split sum.split service_state.splits)

lemma young_step: "young s \<Longrightarrow> task_step l \<Longrightarrow> young (tunnel_service_step s l)"
proof (cases l)
  case (SvcReset op)
  assume y: "young s"
  have "young (s\<lparr>tsv_resets := remove1 op (tsv_resets s)\<rparr>)"
    using y set_remove1_subset [of op "tsv_resets s"] by (auto simp: young_def split: service_state.splits)
  with SvcReset y young_reset show ?thesis by simp
qed (auto simp: young_complete young_finish young_fail young_report young_events)

text \<open>A tunnel that is active stays so until the command stops it, and one that is being closed until it is.\<close>

lemma task_step_state:
  assumes "task_step l" "tsv_tasks s = []" "operation_id (tsv_state s) \<notin> Some ` set (tsv_resets s)"
  shows "tsv_state (tunnel_service_step s l) = tsv_state s \<and> tsv_tasks (tunnel_service_step s l) = []
    \<and> tsv_stopping (tunnel_service_step s l) = tsv_stopping s \<and> set (tsv_resets (tunnel_service_step s l)) \<subseteq> set (tsv_resets s)"
  using assms no_task [OF assms(2)] set_remove1_subset [of _ "tsv_resets s"]
  by (cases l) (auto simp: complete_start_def finish_start_def fail_start_def publish_error_read_def publish_error_write_def
      reset_operation_def refresh_connections_def forward_event_def Let_def svc_publish_def split: option.split sum.split)

lemma pc_ok_step:
  assumes "pc_ok pc s" "task_step l"
  shows "pc_ok pc (tunnel_service_step s l)"
proof (cases pc)
  case (JzRunning addr)
  with assms(1) have r: "running addr s" by (simp add: pc_ok_def)
  then have "tsv_tasks s = []" "operation_id (tsv_state s) \<notin> Some ` set (tsv_resets s)" by (auto simp: running_def young_def)
  from task_step_state [OF assms(2) this] r young_step [OF _ assms(2), of s] show ?thesis
    by (simp add: pc_ok_def JzRunning running_def del: tunnel_service_step.simps)
next
  case (JzStopping op i)
  with assms(1) have e: "ending op s" by (simp add: pc_ok_def)
  then have "tsv_tasks s = []" "operation_id (tsv_state s) \<notin> Some ` set (tsv_resets s)" by (auto simp: ending_def)
  from task_step_state [OF assms(2) this] e show ?thesis
    by (auto simp: pc_ok_def JzStopping ending_def simp del: tunnel_service_step.simps)
next
  case (JzDone r)
  have "over (tunnel_service_step s l)" if "over s"
    using that task_step_state [OF assms(2), of s] by (auto simp: over_def simp del: tunnel_service_step.simps)
  with assms(1) JzDone show ?thesis by (simp add: pc_ok_def split: sum.splits del: tunnel_service_step.simps)
qed (use assms young_step in \<open>simp_all add: pc_ok_def del: tunnel_service_step.simps\<close>)

section \<open>The command keeps it\<close>

lemma join_shows_fields [simp]:
  "jz_service (join_shows shown z) = jz_service z" "jz_pc (join_shows shown z) = jz_pc z"
  by (simp_all add: join_shows_def)

lemma join_session_fields:
  "jz_service z' = jz_service z \<Longrightarrow> pc_ok (jz_pc z') (jz_service z) \<Longrightarrow> join_session_inv z \<Longrightarrow> join_session_inv z'"
  by (simp add: join_session_inv_def)

lemma join_begin_inv: "join_session_inv (join_begin X uri_text port delay timeout)"
proof (cases "join_command_options X uri_text port delay timeout")
  case (Inl e)
  then show ?thesis by (simp add: join_begin_def join_session_inv_def pc_ok_def service_new_ok published_new)
      (simp add: tunnel_service_new_def)
next
  case (Inr so)
  define s where "s = snd (start_join (snd so) tunnel_service_new)"
  have run: "start_join (snd so) tunnel_service_new = (Inr 1, s)"
    by (simp add: s_def start_join_def validate_join_options_def spawn_start_def begin_start_def next_operation_id_def
        tunnel_service_new_def)
  have "service_ok (tunnel_service_step tunnel_service_new (SvcStartJoin (snd so)))"
    by (rule service_step_ok [OF service_new_ok]) (simp add: tunnel_service_new_def)
  moreover have "published_ok (tunnel_service_step tunnel_service_new (SvcStartJoin (snd so)))"
    by (rule published_step [OF published_new]) simp
  moreover have "young s"
    by (simp add: s_def young_def start_join_def validate_join_options_def spawn_start_def begin_start_def next_operation_id_def
        tunnel_service_new_def svc_publish_def put_task_def)
  moreover from this have "tsv_next s \<in> {1, 2, 3}" by (simp add: young_def)
  ultimately have "join_session_inv \<lparr>jz_service = s, jz_pc = JzAttaching 1, jz_printed = fst so\<rparr>"
    by (simp add: join_session_inv_def pc_ok_def run)
  with Inr run show ?thesis by (cases so) (simp add: join_begin_def)
qed

lemma young_attach:
  assumes y: "young s"
  shows "young (attach_start_task 1 s)"
proof (cases "matches_starting (tsv_state s) 1")
  case True
  with y show ?thesis by (cases "tsv_state s") (auto simp: attach_start_task_def young_def)
next
  case False
  have "young (abort_task 1 s)"
  proof (cases "svc_task s 1")
    case None
    with y show ?thesis by (simp add: abort_task_def)
  next
    case (Some mt)
    with young_task [OF y Some] have idle: "\<forall>a. tsv_state s \<noteq> SvcActive a" by auto
    have "young (drop_guard 1 (drop_task 1 s))" "young (drop_guard 1 (close_tunnel k (drop_task 1 s)))" for k
      using idle by (intro young_blocks y; simp)+
    with Some y show ?thesis by (cases mt; cases "snd mt") (auto simp: abort_task_def)
  qed
  with False show ?thesis by (simp add: attach_start_task_def)
qed

lemma join_waits_inv:
  assumes inv: "join_session_inv z" "jz_pc z = JzActivating" and u: "\<And>st. u = Some (UpdateStatus st) \<Longrightarrow> st = tsv_published (jz_service z)"
  shows "join_session_inv (join_waits show_addr u z)"
proof -
  have y: "young (jz_service z)" using inv by (simp add: join_session_inv_def pc_ok_def)
  obtain shown r where w: "wait_until_active JoinMode [u] = (shown, r)" by force
  have running: "running a (jz_service z)" if "r = Some (Inr st)" "join_local_addr st = Inr a" for st a
  proof -
    have st: "tn_phase (tu_state st) = PhaseActive" "tn_mode (tu_state st) = Some JoinMode" "u = Some (UpdateStatus st)"
      using wait_until_active_only_active [of JoinMode "[u]" shown st] w that(1) by simp_all
    with u inv(1) have "shows_state (tsv_state (jz_service z)) (tu_state st)" by (simp add: join_session_inv_def published_ok_def)
    with st(1,2) that(2) y show ?thesis
      by (cases "tsv_state (jz_service z)")
        (auto simp: running_def active_state_def join_local_addr_def ok_or_def tunnel_state_idle_def tunnel_state_pending_def
          split: option.splits)
  qed
  show ?thesis
  proof (cases r)
    case None
    with w inv y show ?thesis by (intro join_session_fields [OF _ _ inv(1)]) (simp_all add: join_waits_def pc_ok_def)
  next
    case (Some r')
    show ?thesis
    proof (cases "and_then r' join_local_addr")
      case (Inl e)
      with Some w show ?thesis by (intro join_session_fields [OF _ _ inv(1)]) (simp_all add: join_waits_def pc_ok_def)
    next
      case (Inr a)
      then obtain st where "r' = Inr st" "join_local_addr st = Inr a" by (auto simp: and_then_Inr)
      with Inr Some w running show ?thesis
        by (intro join_session_fields [OF _ _ inv(1)]) (simp_all add: join_waits_def pc_ok_def)
    qed
  qed
qed

lemma join_ends_inv:
  assumes "join_session_inv (z\<lparr>jz_pc := JzDone (Inr ())\<rparr>)"
  shows "join_session_inv (join_ends r z)"
  by (rule join_session_fields [OF _ _ assms]) (use assms in \<open>auto simp: join_ends_def join_session_inv_def pc_ok_def split: sum.splits\<close>)

lemma stop_running:
  assumes "running a s"
  obtains s' where "begin_stop s = (Inr True, s')" "ending 2 s'" "tsv_next s' = 3"
proof -
  from assms obtain t where st: "tsv_state s = SvcActive t" "young s" by (auto simp: running_def)
  then have "ending 2 (snd (begin_stop s)) \<and> tsv_next (snd (begin_stop s)) = 3 \<and> fst (begin_stop s) = Inr True"
    by (simp add: begin_stop_def next_operation_id_def Let_def ending_def young_def svc_publish_def)
  with that show thesis by (metis prod.collapse)
qed

lemma join_runs_inv:
  assumes inv: "join_session_inv z" "jz_pc z = JzRunning a"
  shows "join_session_inv (join_runs w z)"
proof -
  have run: "running a (jz_service z)" using inv by (simp add: join_session_inv_def pc_ok_def)
  then have n: "tsv_next (jz_service z) = 2" by (simp add: running_def young_def)
  obtain s' where s': "begin_stop (jz_service z) = (Inr True, s')" "ending 2 s'" "tsv_next s' = 3" by (rule stop_running [OF run])
  have "service_ok s'" "published_ok s'"
    using begin_stop_ok [of "jz_service z"] stop_published [of "jz_service z"] inv(1) s'(1) n by (simp_all add: join_session_inv_def)
  with s' n have down: "join_session_inv (join_shutdown i (join_shows shown z))" for i shown
    by (simp add: join_shutdown_def join_session_inv_def pc_ok_def)
  obtain shown r where w: "wait_for_shutdown [w] = (shown, r)" by force
  show ?thesis
  proof (cases r)
    case None
    with w inv show ?thesis by (intro join_session_fields [OF _ _ inv(1)]) (simp_all add: join_runs_def join_session_inv_def)
  next
    case (Some r')
    show ?thesis
    proof (cases r')
      case (Inl e)
      with Some w show ?thesis by (intro join_session_fields [OF _ _ inv(1)]) (simp_all add: join_runs_def pc_ok_def)
    next
      case (Inr i)
      with Some w down show ?thesis by (simp add: join_runs_def)
    qed
  qed
qed

lemma ending_ends:
  assumes "ending op s"
  shows "over (finish_stop op s)"
proof -
  from assms obtain t where "tsv_state s = SvcStopping op" "tsv_tasks s = []" "tsv_stopping s = [(op, t)]" by (auto simp: ending_def)
  then show ?thesis by (simp add: finish_stop_def over_def reset_operation_def close_tunnel_def svc_publish_def)
qed

lemma join_session_kept:
  assumes inv: "join_session_inv z"
  shows "join_session_inv (join_session_step show_addr z l)"
proof (cases l)
  case (JsService sl)
  show ?thesis
  proof (cases "task_step sl")
    case True
    then have l: "\<not> interrupting sl" by (cases sl) simp_all
    have "tsv_next (jz_service z) \<noteq> - 1" using inv by (auto simp: join_session_inv_def)
    with inv service_step_ok published_step [OF _ l] pc_ok_step [OF _ True] True
    have "join_session_inv (z\<lparr>jz_service := tunnel_service_step (jz_service z) sl\<rparr>)"
      by (cases sl) (simp_all add: join_session_inv_def del: tunnel_service_step.simps, simp_all)
    with True JsService show ?thesis by simp
  qed (use inv JsService in simp)
next
  case JsAttach
  show ?thesis
  proof (cases "jz_pc z")
    case (JzAttaching op)
    with inv have "op = 1" "young (jz_service z)" by (simp_all add: join_session_inv_def pc_ok_def)
    with inv published_step [of "jz_service z" "SvcAttach 1"] attach_ok young_attach JzAttaching JsAttach show ?thesis
      by (simp add: join_session_inv_def pc_ok_def)
  qed (use inv JsAttach in simp_all)
next
  case JsStatus
  have "join_session_inv (join_waits show_addr (Some (UpdateStatus (tsv_published (jz_service z)))) z)" if "jz_pc z = JzActivating"
    by (rule join_waits_inv [OF inv that]) auto
  with JsStatus inv join_runs_inv show ?thesis by (auto simp: Let_def split: join_pc.split)
next
  case (JsUpdate ev)
  have "join_session_inv (join_waits show_addr (map_option UpdateEvent ev) z)" if "jz_pc z = JzActivating"
    by (rule join_waits_inv [OF inv that]) auto
  with JsUpdate inv join_runs_inv show ?thesis by (auto simp: Let_def split: join_pc.split)
next
  case (JsCtrlC r)
  with inv join_runs_inv show ?thesis by (auto split: join_pc.split)
next
  case JsStopped
  show ?thesis
  proof (cases "jz_pc z")
    case (JzStopping op i)
    with inv have e: "ending op (jz_service z)" by (simp add: join_session_inv_def pc_ok_def)
    have "join_session_inv (z\<lparr>jz_service := finish_stop op (jz_service z), jz_pc := JzDone (Inr ())\<rparr>)"
      using inv ending_ends [OF e] finish_stop_ok [of "jz_service z" op] published_step [of "jz_service z" "SvcFinishStop op"]
      by (simp add: join_session_inv_def pc_ok_def)
    with JsStopped JzStopping join_ends_inv show ?thesis by simp
  qed (use inv JsStopped in simp_all)
qed

section \<open>The join command is honest and cleans up\<close>

text \<open>
  C10. The join command says that its tunnel is running only while it is, and leaves nothing behind:
  in every interleaving with the tasks of its service, as long as it waits for an interrupt its one
  tunnel is active, as a join, at the very address it told the player; an interrupt then ends the
  command without an error; and whenever it ends without an error, the service is idle, no task
  and no stop is under way, and every tunnel that was ever built has been closed, once.
\<close>

theorem join_command_leaves_no_tunnel:
  assumes "z = run_steps (join_session_step show_addr) (join_begin X uri_text port delay timeout) ls"
  shows "(\<forall>addr. jz_pc z = JzRunning addr \<longrightarrow>
        (\<exists>a. tsv_state (jz_service z) = SvcActive a \<and> at_mode a = JoinMode \<and> at_local_addr a = Some addr
          \<and> tu_state (tsv_published (jz_service z)) = active_state a)
        \<and> jz_pc (run_steps (join_session_step show_addr) z [JsCtrlC (Inr ()), JsStopped]) = JzDone (Inr ()))
    \<and> (jz_pc z = JzDone (Inr ()) \<longrightarrow>
        tsv_state (jz_service z) = SvcIdle \<and> tsv_tasks (jz_service z) = [] \<and> tsv_stopping (jz_service z) = []
        \<and> mset (tsv_closed (jz_service z)) = mset [0..<tsv_tunnel_next (jz_service z)])"
proof -
  have inv: "join_session_inv z" unfolding assms
    by (induction ls rule: rev_induct) (simp_all add: join_begin_inv run_steps_append join_session_kept del: join_session_step.simps)
  then have ok: "service_ok (jz_service z)" and pub: "published_ok (jz_service z)" and pc: "pc_ok (jz_pc z) (jz_service z)"
    by (simp_all add: join_session_inv_def)
  have "jz_pc (run_steps (join_session_step show_addr) z [JsCtrlC (Inr ()), JsStopped]) = JzDone (Inr ())"
    if "jz_pc z = JzRunning addr" for addr
  proof -
    from pc that have "running addr (jz_service z)" by (simp add: pc_ok_def)
    from stop_running [OF this] obtain s' where "begin_stop (jz_service z) = (Inr True, s')" by blast
    with that show ?thesis
      by (simp add: join_runs_def join_shutdown_def join_ends_def join_shows_def wait_for_shutdown_end_def and_then_def map_err_def)
  qed
  moreover have "\<exists>a. tsv_state (jz_service z) = SvcActive a \<and> at_mode a = JoinMode \<and> at_local_addr a = Some addr
      \<and> tu_state (tsv_published (jz_service z)) = active_state a" if "jz_pc z = JzRunning addr" for addr
    using pc that pub by (auto simp: pc_ok_def running_def published_ok_def)
  moreover have "over (jz_service z) \<and> mset (tsv_closed (jz_service z)) = mset [0..<tsv_tunnel_next (jz_service z)]"
    if "jz_pc z = JzDone (Inr ())"
  proof -
    have "over (jz_service z)" using pc that by (simp add: pc_ok_def)
    with ok show ?thesis by (simp add: over_def service_ok_def conserved_def owned_tunnels_def active_tunnels_def)
  qed
  ultimately show ?thesis by (auto simp: over_def)
qed

text \<open>A player who joins, plays and interrupts.\<close>

definition demo_join_labels :: "join_label list" where
  "demo_join_labels = [JsAttach, JsService (SvcComplete 1 (Inr (None, Some \<lparr>sa_ip = V4 127 0 0 1, sa_port = 25565\<rparr>)) (Inr [])),
     JsService (SvcFinishStart 1 []), JsStatus, JsUpdate (Some Reconnected), JsCtrlC (Inr ()), JsStopped]"

theorem join_command_leaves_no_tunnel_witness:
  "\<exists>txt1. let z = run_steps (join_session_step (\<lambda>_. ''here'')) (join_begin ref_crates txt1 None 0 0) demo_join_labels
     in jz_pc z = JzDone (Inr ()) \<and> tsv_tunnel_next (jz_service z) = 1 \<and> mset (tsv_closed (jz_service z)) = {#0#}"
proof -
  obtain txt1 where txt1: "parse_join_uri ref_crates txt1 = Inr room_direct" using room_direct_parsed by blast
  define z where "z = run_steps (join_session_step (\<lambda>_. ''here'')) (join_begin ref_crates txt1 None 0 0) demo_join_labels"
  obtain shown opts where o: "join_command_options ref_crates txt1 None 0 0 = Inr (shown, opts)"
    by (simp add: join_command_options_def txt1 Let_def map_err_def)
  have z: "jz_pc z = JzDone (Inr ()) \<and> tsv_tunnel_next (jz_service z) = 1"
    unfolding z_def demo_join_labels_def
    by (simp add: join_begin_def o service_eval active_state_def finish_stop_def reset_operation_def join_waits_def join_runs_def join_shutdown_def join_ends_def join_shows_def
        wait_for_shutdown_end_def and_then_def map_err_def join_local_addr_def ok_or_def)
  from join_command_leaves_no_tunnel [OF z_def] z have "mset (tsv_closed (jz_service z)) = {#0#}" by simp
  with z show ?thesis by (auto simp: z_def Let_def)
qed

end
