(* ===== verification/Clipboard.thy ===== *)
theory Clipboard
  imports Cli_Properties Sculk_Reference
begin

text \<open>
  \<^verbatim>\<open>cli/src/clipboard.rs\<close>: copying through a helper program of the desktop or the clipboard crate.
  What the programs, the environment and the crate do is an argument; the model is the choice
  between them and the answer. Showing a URI copies it, quoted.
\<close>

section \<open>Copying\<close>

datatype clip_program = WlCopy | Xclip

text \<open>A helper that could be spawned: whether its input was taken, and what waiting for it returned.\<close>

record spawned =
  sp_stdin :: bool
  sp_status :: "io_error + bool"

record desktop =
  dk_linux :: bool
  dk_wayland :: bool
  dk_x11 :: bool
  dk_spawn :: "clip_program \<Rightarrow> spawned option"
  dk_clipboard :: bool
  dk_set_text :: bool

datatype clip_action = Piped clip_program string | ClipboardSet string

definition copy_through :: "clip_program \<Rightarrow> spawned \<Rightarrow> string \<Rightarrow> bool \<times> clip_action list" where
  "copy_through prog child text =
     ((case sp_status child of Inl _ \<Rightarrow> False | Inr success \<Rightarrow> success),
      if sp_stdin child then [Piped prog text] else [])"

definition copy_direct :: "desktop \<Rightarrow> string \<Rightarrow> bool \<times> clip_action list" where
  "copy_direct d text =
     (if dk_clipboard d then (dk_set_text d, [ClipboardSet text]) else (False, []))"

definition copy :: "desktop \<Rightarrow> string \<Rightarrow> bool \<times> clip_action list" where
  "copy d text =
     (case (if dk_linux d \<and> dk_wayland d then dk_spawn d WlCopy else None) of
        Some child \<Rightarrow> copy_through WlCopy child text
      | None \<Rightarrow>
          (case (if dk_linux d \<and> dk_x11 d then dk_spawn d Xclip else None) of
             Some child \<Rightarrow> copy_through Xclip child text
           | None \<Rightarrow> copy_direct d text))"

text \<open>At most one clipboard is given the text, and nothing else; the crate only without a helper.\<close>

fun clip_text :: "clip_action \<Rightarrow> string" where
  "clip_text (Piped prog text) = text"
| "clip_text (ClipboardSet text) = text"

lemma copy_cases:
  obtains (helper) prog child where "dk_linux d" "dk_spawn d prog = Some child" "copy d text = copy_through prog child text"
  | (direct) "copy d text = copy_direct d text"
      "dk_linux d \<Longrightarrow> dk_wayland d \<Longrightarrow> dk_spawn d WlCopy = None" "dk_linux d \<Longrightarrow> dk_x11 d \<Longrightarrow> dk_spawn d Xclip = None"
  by (cases "dk_linux d \<and> dk_wayland d \<and> dk_spawn d WlCopy \<noteq> None"; cases "dk_linux d \<and> dk_x11 d \<and> dk_spawn d Xclip \<noteq> None")
    (auto simp: copy_def)

lemma copy_once: "length (snd (copy d text)) \<le> 1 \<and> (\<forall>a \<in> set (snd (copy d text)). clip_text a = text)"
  by (rule copy_cases [of d "text"]) (simp_all add: copy_through_def copy_direct_def)

section \<open>Showing a URI\<close>

definition quoted_text :: "string \<Rightarrow> string" where
  "quoted_text t = [CHR 0x22] @ t @ [CHR 0x22]"

definition show_join_uri :: "desktop \<Rightarrow> crates \<Rightarrow> join_uri \<Rightarrow> bool \<Rightarrow> (cli_error + printed list) \<times> clip_action list" where
  "show_join_uri d X uri rotated =
     (case expose_secret_uri X uri of
        Inl e \<Rightarrow> (Inl (CliJoinUri e), [])
      | Inr txt1 \<Rightarrow>
          (case copy d (quoted_text txt1) of
             (copied, actions) \<Rightarrow> (print_join_uri X copied uri rotated, actions)))"

text \<open>
  A host can hand its URI on by pasting: whatever helpers the desktop has, showing a URI fails
  only if the URI cannot be printed, never because of the clipboard; it gives at most one
  clipboard a text, which is the URI between the quotes that are also printed, and the text
  between them parses back to the very URI; it says that it was copied only if it was.
\<close>

theorem copied_uri_parses:
  assumes "base64_law X" "url_law X" "endpoint_law X" "join_uri_wf X uri"
    and "show_join_uri d X uri rotated = (r, actions)"
  shows "(is_ok r \<longleftrightarrow> is_ok (expose_secret_uri X uri)) \<and> length actions \<le> 1
    \<and> (\<forall>a \<in> set actions. \<exists>txt1. clip_text a = quoted_text txt1 \<and> parse_join_uri X txt1 = Inr uri
         \<and> (\<exists>rest. r = Inr (Out ((if rotated then ''Updated Join URI'' else ''Join URI'') @ '': '' @ clip_text a) # rest)))
    \<and> (\<forall>shown. r = Inr shown \<longrightarrow> Out ''(Copied to clipboard)'' \<in> set shown \<longrightarrow>
         (\<exists>prog child. dk_spawn d prog = Some child \<and> sp_status child = Inr True) \<or> dk_clipboard d \<and> dk_set_text d)"
proof (cases "expose_secret_uri X uri")
  case (Inl e)
  with assms(5) show ?thesis by (auto simp: show_join_uri_def is_ok_def)
next
  case (Inr txt1)
  obtain copied acts where c: "copy d (quoted_text txt1) = (copied, acts)" by force
  have r: "r = Inr (Out ((if rotated then ''Updated Join URI'' else ''Join URI'') @ '': '' @ quoted_text txt1)
      # (if copied then [Out ''(Copied to clipboard)''] else []) @ [Out ''Share this URI with players.''])" "actions = acts"
    using assms(5) Inr c by (simp_all add: show_join_uri_def print_join_uri_def quoted_text_def)
  have "(\<exists>prog child. dk_spawn d prog = Some child \<and> sp_status child = Inr True) \<or> dk_clipboard d \<and> dk_set_text d" if "copied"
    using c that by (cases rule: copy_cases [of d "quoted_text txt1"])
      (auto simp: copy_through_def copy_direct_def split: sum.splits if_splits)
  moreover have "parse_join_uri X txt1 = Inr uri" by (rule parse_exposed [OF assms(1-4) Inr])
  moreover have "Out ((if rotated then ''Updated Join URI'' else ''Join URI'') @ '': '' @ quoted_text txt1) \<noteq> Out ''(Copied to clipboard)''"
    by simp
  ultimately show ?thesis
    using copy_once [of d "quoted_text txt1"] c Inr by (auto simp: r)
qed

text \<open>A desktop with \<^verbatim>\<open>xclip\<close>.\<close>

definition demo_desktop :: desktop where
  "demo_desktop = \<lparr>dk_linux = True, dk_wayland = False, dk_x11 = True,
     dk_spawn = (\<lambda>p. case p of WlCopy \<Rightarrow> None | Xclip \<Rightarrow> Some \<lparr>sp_stdin = True, sp_status = Inr True\<rparr>),
     dk_clipboard = True, dk_set_text = True\<rparr>"

theorem copied_uri_parses_witness:
  "\<exists>txt1. snd (show_join_uri demo_desktop ref_crates room_direct False) = [Piped Xclip (quoted_text txt1)]
     \<and> parse_join_uri ref_crates txt1 = Inr room_direct"
proof -
  obtain txt1 where txt1: "expose_secret_uri ref_crates room_direct = Inr txt1"
    using room_direct_exposed by blast
  have actions: "snd (show_join_uri demo_desktop ref_crates room_direct False) = [Piped Xclip (quoted_text txt1)]"
    by (simp add: show_join_uri_def txt1 copy_def copy_through_def demo_desktop_def)
  obtain r acts where run: "show_join_uri demo_desktop ref_crates room_direct False = (r, acts)" by force
  from copied_uri_parses [OF ref_base64 ref_url ref_endpoint_law room_direct_wf run] actions run show ?thesis
    by (auto simp: quoted_text_def)
qed

end
