(* ===== verification/Persist_Tests.thy ===== *)
theory Persist_Tests
  imports Key_Store Profile Host_State
begin

text \<open>
  The unit tests of \<^verbatim>\<open>core/src/persist/\<close>: \<^verbatim>\<open>key.rs\<close>, \<^verbatim>\<open>profile.rs\<close> and \<^verbatim>\<open>host_state.rs\<close>. A test runs in a
  directory of its own, on a system whose calls do not fail; the draws of every call, the directory
  and the other files of the store are arguments, and a test is the predicate that all its
  assertions hold. The lemmas say that the tests pass whatever is drawn.
\<close>

section \<open>A store that works, and an empty directory\<close>

definition reliable :: "os \<Rightarrow> bool" where
  "reliable os \<longleftrightarrow> (\<forall>c. os_fault os c = None)"

definition dir_empty :: "path \<Rightarrow> fs \<Rightarrow> bool" where
  "dir_empty d s \<longleftrightarrow> (\<forall>q. take (length d) q = d \<longrightarrow> fs_files s q = None)"

definition names_dir :: "path \<Rightarrow> bool" where
  "names_dir d \<longleftrightarrow> d \<noteq> [] \<and> \<not> is_sep (last d)"

text \<open>\<^verbatim>\<open>assert!(r.is_ok())\<close>, and the rest of the test with what \<^verbatim>\<open>r\<close> holds.\<close>

definition assert_ok :: "'a fio \<Rightarrow> ('a \<Rightarrow> fs \<Rightarrow> bool) \<Rightarrow> fs \<Rightarrow> bool" where
  "assert_ok m k s = (case m s of (Inl e, s') \<Rightarrow> False | (Inr a, s') \<Rightarrow> k a s')"

text \<open>\<^verbatim>\<open>std::fs::write\<close>: the file is created or truncated.\<close>

definition std_write :: "path \<Rightarrow> bytes \<Rightarrow> unit fio" where
  "std_write p bs s =
     (Inr (), fs_put p (Some \<lparr>f_mode = (case fs_files s p of None \<Rightarrow> DefaultMode | Some f \<Rightarrow> f_mode f), f_data = bs\<rparr>) s)"

definition std_create_dir_all :: "path \<Rightarrow> unit fio" where
  "std_create_dir_all d s = (Inr (), s\<lparr>fs_dirs := insert d (fs_dirs s)\<rparr>)"

text \<open>The directory \<^verbatim>\<open>temp_dir()/sculk_<kind>_<name>_<pid>_<random>\<close>.\<close>

definition test_dir_in :: "path \<Rightarrow> string \<Rightarrow> nat \<Rightarrow> u64 \<Rightarrow> string \<Rightarrow> path" where
  "test_dir_in tmp kind pid r name =
     path_join tmp (''sculk_'' @ kind @ ''_'' @ name @ ''_'' @ show_nat pid @ ''_'' @ hex_pad 16 (unat r))"

definition key_test_dir :: "path \<Rightarrow> nat \<Rightarrow> u64 \<Rightarrow> string \<Rightarrow> path" where
  "key_test_dir tmp pid r name = test_dir_in tmp ''key'' pid r name"

definition profile_test_dir :: "path \<Rightarrow> nat \<Rightarrow> u64 \<Rightarrow> string \<Rightarrow> path" where
  "profile_test_dir tmp pid r name = test_dir_in tmp ''profile'' pid r name"

definition host_state_test_path :: "path \<Rightarrow> nat \<Rightarrow> u64 \<Rightarrow> string \<Rightarrow> path" where
  "host_state_test_path tmp pid r name = path_join (test_dir_in tmp ''host_state'' pid r name) ''host.state''"

lemma names_dir_append:
  assumes "ys \<noteq> []" "\<not> is_sep (last ys)"
  shows "names_dir (xs @ ys)"
  using assms by (simp add: names_dir_def)

lemma test_dir_names_dir [simp]: "names_dir (test_dir_in tmp kind pid r name)"
proof -
  have hex: "hex_pad 16 n = hex_pad 15 (n div 16) @ [hex_digit n]" for n
    using hex_pad.simps(2) [of 15 n] by simp
  have "\<exists>xs. test_dir_in tmp kind pid r name = xs @ [hex_digit (unat r)]"
    unfolding test_dir_in_def path_join_def hex by (simp only: append_assoc [symmetric] split: if_split) blast
  then show ?thesis by (auto simp: hex_digit_no_sep intro!: names_dir_append)
qed

lemma parent_of_join:
  assumes "names_dir d" "name \<noteq> []" "\<forall>c\<in>set name. \<not> is_sep c"
  shows "parent_dir (path_join d name) = d"
proof -
  obtain c cs where r: "rev name = c # cs" using assms(2) by (cases "rev name") auto
  have nosep: "\<forall>x\<in>set (c # cs). \<not> is_sep x" using assms(3) r by (metis set_rev)
  have sep: "is_sep (CHR ''/'')" by (simp add: is_sep_def)
  have "dropWhile is_sep (rev d) = rev d"
    using assms(1) by (cases d rule: rev_cases) (auto simp: names_dir_def)
  moreover have "path_join d name = d @ ''/'' @ name" using assms(1) by (simp add: path_join_def names_dir_def)
  ultimately show ?thesis
    using assms(1) nosep r sep by (auto simp: parent_dir_def path_parent_def names_dir_def dest: last_in_set)
qed

lemma dir_empty_join: "dir_empty d s \<Longrightarrow> fs_files s (path_join d n) = None"
  by (auto simp: dir_empty_def path_join_def)

lemma dir_empty_temp: "dir_empty d s \<Longrightarrow> parent_dir p = d \<Longrightarrow> fs_files s (temp_path fb p r) = None"
  by (simp add: temp_path_def dir_empty_join)

text \<open>A replacement on such a store succeeds, with the first name it draws.\<close>

lemma replace_reliable:
  assumes "reliable os" "fs_files s (temp (os_random os 0)) = None"
  shows "\<exists>s'. fio_then (path_io opd d (sys_create_dirs os d)) (\<lambda>_.
      fio_then (create_temp os m opn limit temp p 0 TEMP_CREATE_ATTEMPTS_MAX) (\<lambda>t. with_temp os t
        (fio_then (fio_then (path_io opw t (sys_write_all os t bs)) (\<lambda>_. path_io ops t (sys_sync_all os t)))
          (\<lambda>_. fio_then (path_io opr p (sys_rename os t p)) (\<lambda>_. sync_parent os opp d))))) s = (Inr (), s')"
  using assms
  by (simp add: reliable_def fio_defs sys_create_dirs_def TEMP_CREATE_ATTEMPTS_MAX_def eval_nat_numeral
      sys_create_new_def sys_write_all_def sys_sync_all_def sys_rename_def sync_parent_def sys_sync_dir_def)

lemmas reliable_simps = reliable_def fio_defs sys_create_dirs_def TEMP_CREATE_ATTEMPTS_MAX_def eval_nat_numeral
  sys_create_new_def sys_write_all_def sys_sync_all_def sys_rename_def sync_parent_def sys_sync_dir_def
  sys_hard_link_def sys_read_def drop_temp_def

section \<open>Tests of \<^verbatim>\<open>key.rs\<close>\<close>

definition secret_path :: "path \<Rightarrow> path" where
  "secret_path dir = path_join dir ''secret.key''"

definition persists_key :: "os \<Rightarrow> path \<Rightarrow> secret_key \<Rightarrow> secret_key \<Rightarrow> fs \<Rightarrow> bool" where
  "persists_key os dir fresh fresh' =
     assert_ok (load_or_generate_key os (secret_path dir) fresh) (\<lambda>first.
     assert_ok (load_or_generate_key os (secret_path dir) fresh') (\<lambda>second s.
       secret_bytes first = secret_bytes second))"

definition replaces_key :: "os \<Rightarrow> os \<Rightarrow> path \<Rightarrow> secret_key \<Rightarrow> secret_key \<Rightarrow> secret_key \<Rightarrow> fs \<Rightarrow> bool" where
  "replaces_key os os' dir fresh fresh' fresh'' =
     assert_ok (load_or_generate_key os (secret_path dir) fresh) (\<lambda>first.
     assert_ok (generate_new_key os' (secret_path dir) fresh') (\<lambda>replacement.
     assert_ok (load_or_generate_key os (secret_path dir) fresh'') (\<lambda>loaded s.
       secret_bytes first \<noteq> secret_bytes replacement \<and> secret_bytes replacement = secret_bytes loaded)))"

definition rejects_short_key :: "os \<Rightarrow> path \<Rightarrow> secret_key \<Rightarrow> fs \<Rightarrow> bool" where
  "rejects_short_key os dir fresh =
     assert_ok (std_create_dir_all dir) (\<lambda>_.
     assert_ok (std_write (secret_path dir) (replicate (KEY_LEN - 1) 0)) (\<lambda>_ s.
       fst (load_or_generate_key os (secret_path dir) fresh s) = Inl (InvalidKeyLength KEY_LEN (KEY_LEN - 1))))"

text \<open>
  The threads of \<^verbatim>\<open>concurrent_create_is_stable\<close> are processes of the race of \<open>Key_Store\<close>: the
  schedule is an argument, and joining a thread needs it to have returned.
\<close>

definition thread_key :: "key_race \<Rightarrow> nat \<Rightarrow> bytes option" where
  "thread_key s i = (case kr_pc s i of KeyDone (Inr k) \<Rightarrow> Some (secret_bytes k) | _ \<Rightarrow> None)"

definition concurrent_create_is_stable :: "key_label list \<Rightarrow> bool" where
  "concurrent_create_is_stable schedule \<longleftrightarrow>
     (let s = run_steps key_step \<lparr>kr_file = None, kr_pc = (\<lambda>_. KeyRead)\<rparr> schedule;
          keys = map (thread_key s) [0..<8]
      in list_all (\<lambda>k. k \<noteq> None) keys \<and> length keys = 8 \<and> list_all (\<lambda>k. k = keys ! 0) keys)"

lemma secret_temp_free:
  assumes "names_dir dir" "dir_empty dir s"
  shows "fs_files s (secret_path dir) = None" "fs_files s (key_temp (secret_path dir) r) = None"
proof -
  have "parent_dir (secret_path dir) = dir"
    unfolding secret_path_def using assms(1) by (intro parent_of_join) (simp_all add: is_sep_def)
  with assms(2) show "fs_files s (key_temp (secret_path dir) r) = None"
    by (simp add: key_temp_def dir_empty_temp)
  show "fs_files s (secret_path dir) = None" using assms(2) by (simp add: secret_path_def dir_empty_join)
qed

lemma generate_reliable:
  assumes "reliable os" "fs_files s p = None" "fs_files s (key_temp p (os_random os 0)) = None"
  shows "\<exists>s'. load_or_generate_key os p fresh s = (Inr fresh, s') \<and> fs_files s' = (fs_files s)(p \<mapsto> key_inode fresh)"
  using assms
  by (simp add: load_or_generate_key_def load_key_def generate_key_exclusive_def save_key_exclusive_def
      write_temp_key_def fill_temp_key_def key_inode_def io_err_def fun_eq_iff reliable_simps
      key_temp_neq [symmetric])

lemma replace_key_reliable:
  assumes "reliable os" "fs_files s (key_temp p (os_random os 0)) = None"
  shows "\<exists>s'. generate_new_key os p fresh s = (Inr fresh, s') \<and> fs_files s' = (fs_files s)(p \<mapsto> key_inode fresh)"
  using assms
  by (simp add: generate_new_key_def save_key_replace_def
      write_temp_key_def fill_temp_key_def key_inode_def fun_eq_iff reliable_simps)

lemma load_reliable:
  assumes "reliable os" "fs_files s p = Some (key_inode k)"
  shows "load_or_generate_key os p fresh s = (Inr k, s)"
  using assms by (simp add: load_or_generate_key_def load_key_Inr reliable_def fs_data_def key_inode_def
      load_key_Inr [THEN iffD2])

lemma persists_key_passes:
  assumes "reliable os" "names_dir dir" "dir_empty dir s"
  shows "persists_key os dir fresh fresh' s"
proof -
  note free = secret_temp_free [OF assms(2,3)]
  from generate_reliable [OF assms(1) free, of fresh] obtain s1 where
    s1: "load_or_generate_key os (secret_path dir) fresh s = (Inr fresh, s1)"
      "fs_files s1 (secret_path dir) = Some (key_inode fresh)" by auto
  then show ?thesis by (simp add: persists_key_def assert_ok_def load_reliable [OF assms(1)])
qed

lemma replaces_key_passes:
  assumes "reliable os" "reliable os'" "names_dir dir" "dir_empty dir s" "fresh \<noteq> fresh'"
  shows "replaces_key os os' dir fresh fresh' fresh'' s"
proof -
  note free = secret_temp_free [OF assms(3,4)]
  from generate_reliable [OF assms(1) free, of fresh] obtain s1 where
    s1: "load_or_generate_key os (secret_path dir) fresh s = (Inr fresh, s1)"
      "fs_files s1 = (fs_files s)(secret_path dir \<mapsto> key_inode fresh)" by auto
  have "fs_files s1 (key_temp (secret_path dir) (os_random os' 0)) = None" using s1(2) free by simp
  from replace_key_reliable [OF assms(2) this, of fresh'] obtain s2 where
    s2: "generate_new_key os' (secret_path dir) fresh' s1 = (Inr fresh', s2)"
      "fs_files s2 (secret_path dir) = Some (key_inode fresh')" by auto
  with s1 assms(5) show ?thesis
    by (simp add: replaces_key_def assert_ok_def load_reliable [OF assms(1)] secret_bytes_inject)
qed

lemma rejects_short_key_passes:
  assumes "reliable os"
  shows "rejects_short_key os dir fresh s"
  using assms
  by (simp add: rejects_short_key_def assert_ok_def std_create_dir_all_def std_write_def reliable_def
      load_or_generate_key_def load_key_def fio_defs sys_read_def KEY_LEN_def split: option.split)

text \<open>A thread returns after at most three calls, so every schedule that lets it run settles it.\<close>

fun calls_left :: "key_pc \<Rightarrow> nat" where
  "calls_left KeyRead = 3"
| "calls_left (KeyLink k) = 2"
| "calls_left KeyReload = 1"
| "calls_left (KeyDone r) = 0"

fun turns :: "nat \<Rightarrow> key_label list \<Rightarrow> nat" where
  "turns i [] = 0"
| "turns i (KeyStep j k # ls) = (if i = j then 1 else 0) + turns i ls"

lemma calls_left_steps: "calls_left (kr_pc (run_steps key_step s ls) i) \<le> calls_left (kr_pc s i) - turns i ls"
proof (induction i ls arbitrary: s rule: turns.induct)
  case (2 i j k ls)
  have "calls_left (kr_pc (key_step s (KeyStep j k)) i) \<le> calls_left (kr_pc s i) - (if i = j then 1 else 0)"
    by (cases "kr_pc s j") auto
  with 2 [of "key_step s (KeyStep j k)"] show ?case by simp
qed simp

lemma concurrent_create_is_stable_passes:
  assumes "\<forall>i<8. 3 \<le> turns i schedule"
  shows "concurrent_create_is_stable schedule"
proof -
  define s where "s = run_steps key_step \<lparr>kr_file = None, kr_pc = (\<lambda>_. KeyRead)\<rparr> schedule"
  have inv: "key_race_inv None s"
    unfolding s_def by (rule key_race.inv_reachable) (simp add: key_race_start_def)
  have settled: "\<exists>r. kr_pc s i = KeyDone r" if "i < 8" for i
  proof -
    have "3 \<le> turns i schedule" using assms that by simp
    then have "calls_left (kr_pc s i) = 0"
      using calls_left_steps [of "\<lparr>kr_file = None, kr_pc = (\<lambda>_. KeyRead)\<rparr>" schedule i] by (simp add: s_def)
    then show ?thesis by (cases "kr_pc s i") simp_all
  qed
  have "\<exists>r. kr_pc s 0 = KeyDone r" by (rule settled) simp
  then obtain k where k: "kr_file s = Some (secret_bytes k)" using inv by (auto simp: key_race_inv_def)
  have "thread_key s i = Some (secret_bytes k)" if i: "i < 8" for i
  proof -
    from settled [OF i] obtain r where r: "kr_pc s i = KeyDone r" by blast
    with inv k have "r = Inr k" by (auto simp: key_race_inv_def)
    with r show ?thesis by (simp add: thread_key_def)
  qed
  then show ?thesis by (simp add: concurrent_create_is_stable_def s_def [symmetric] list_all_iff)
qed

section \<open>Tests of \<^verbatim>\<open>profile.rs\<close>\<close>

definition profile_file_path :: "path \<Rightarrow> path" where
  "profile_file_path dir = path_join dir ''profile.toml''"

definition default_values :: bool where
  "default_values \<longleftrightarrow>
     (let p = profile_default
      in hp_port (pf_host p) = DEFAULT_MC_PORT \<and> hp_token_refresh (pf_host p) = SetAlways
         \<and> jp_port (pf_join p) = DEFAULT_INLET_PORT
         \<and> \<not> rp_custom (pf_relay p) \<and> rp_url (pf_relay p) = None)"

definition toml_roundtrip :: "toml_crate \<Rightarrow> bool" where
  "toml_roundtrip T \<longleftrightarrow>
     (let p = profile_default\<lparr>
            pf_host := \<lparr>hp_port = 12345, hp_token_refresh = SetThreeHours\<rparr>,
            pf_relay := \<lparr>rp_custom = True, rp_url = Some ''https://relay.example.com''\<rparr>\<rparr>
      in case tm_print T (profile_to_toml p) of
           Inl _ \<Rightarrow> False
         | Inr s \<Rightarrow> (case toml_from_str T s of
             Inl _ \<Rightarrow> False
           | Inr p2 \<Rightarrow>
               hp_port (pf_host p2) = 12345 \<and> hp_token_refresh (pf_host p2) = SetThreeHours
               \<and> rp_custom (pf_relay p2) \<and> rp_url (pf_relay p2) = Some ''https://relay.example.com''))"

definition partial_document :: string where
  "partial_document = ''[host]'' @ [CHR 0x0A] @ ''port = 9999'' @ [CHR 0x0A]"

definition partial_uses_defaults :: "toml_crate \<Rightarrow> bool" where
  "partial_uses_defaults T \<longleftrightarrow>
     (case toml_from_str T partial_document of
        Inl _ \<Rightarrow> False
      | Inr p \<Rightarrow>
          hp_port (pf_host p) = 9999 \<and> hp_token_refresh (pf_host p) = SetAlways
          \<and> jp_port (pf_join p) = DEFAULT_INLET_PORT \<and> rp_url (pf_relay p) = None)"

definition file_roundtrip :: "toml_crate \<Rightarrow> os \<Rightarrow> os \<Rightarrow> path \<Rightarrow> fs \<Rightarrow> bool" where
  "file_roundtrip T os os' dir =
     (let p = profile_default\<lparr>pf_host := host_profile_default\<lparr>hp_port := 11111\<rparr>\<rparr>;
          p' = p\<lparr>pf_host := host_profile_default\<lparr>hp_port := 22222\<rparr>\<rparr>
      in assert_ok (profile_save_to T os (profile_file_path dir) p) (\<lambda>_.
         assert_ok (profile_load_from T os (profile_file_path dir)) (\<lambda>loaded s.
           hp_port (pf_host loaded) = 11111 \<and>
           assert_ok (profile_save_to T os' (profile_file_path dir) p') (\<lambda>_.
           assert_ok (profile_load_from T os (profile_file_path dir)) (\<lambda>replaced s'.
             hp_port (pf_host replaced) = 22222)) s)))"

definition missing_creates_default :: "toml_crate \<Rightarrow> os \<Rightarrow> path \<Rightarrow> fs \<Rightarrow> bool" where
  "missing_creates_default T os dir =
     assert_ok (profile_load_from T os (profile_file_path dir)) (\<lambda>p s.
       hp_port (pf_host p) = DEFAULT_MC_PORT \<and> fs_files s (profile_file_path dir) \<noteq> None)"

text \<open>The crate prints every profile, and reads the two lines of \<open>partial_document\<close> as a table.\<close>

definition toml_prints :: "toml_crate \<Rightarrow> bool" where
  "toml_prints T \<longleftrightarrow> (\<forall>p. \<exists>s. tm_print T (profile_to_toml p) = Inr s)"

definition toml_reads_partial :: "toml_crate \<Rightarrow> bool" where
  "toml_reads_partial T \<longleftrightarrow>
     tm_parse T partial_document = Inr (TTable [(''host'', TTable [(''port'', TInt 9999)])])"

lemma default_values_passes: "default_values"
  by (simp add: default_values_def profile_default_def host_profile_default_def join_profile_default_def
      relay_profile_default_def)

lemma toml_roundtrip_passes:
  assumes "toml_law T" "toml_prints T"
  shows "toml_roundtrip T"
proof -
  define p where "p = profile_default\<lparr>
    pf_host := \<lparr>hp_port = 12345, hp_token_refresh = SetThreeHours\<rparr>,
    pf_relay := \<lparr>rp_custom = True, rp_url = Some ''https://relay.example.com''\<rparr>\<rparr>"
  obtain s where s: "tm_print T (profile_to_toml p) = Inr s" using assms(2) by (auto simp: toml_prints_def)
  then have "tm_parse T s = Inr (profile_to_toml p)" using assms(1) by (simp add: toml_law_def)
  then have "toml_from_str T s = Inr p" by (simp add: toml_from_str_def profile_toml_roundtrip)
  with s show ?thesis
    unfolding toml_roundtrip_def p_def [symmetric] by (simp add: p_def)
qed

lemma partial_uses_defaults_passes: "toml_reads_partial T \<Longrightarrow> partial_uses_defaults T"
  by (simp add: partial_uses_defaults_def toml_reads_partial_def toml_from_str_def toml_field_def
      join_profile_default_def relay_profile_default_def)

lemma profile_temp_free:
  assumes "names_dir dir" "dir_empty dir s"
  shows "fs_files s (profile_temp (profile_file_path dir) r) = None"
proof -
  have "parent_dir (profile_file_path dir) = dir"
    unfolding profile_file_path_def using assms(1) by (intro parent_of_join) (simp_all add: is_sep_def)
  with assms(2) show ?thesis by (simp add: profile_temp_def dir_empty_temp)
qed

lemma save_profile_reliable:
  assumes "toml_prints T" "reliable os" "fs_files s (profile_temp p (os_random os 0)) = None"
  shows "\<exists>s'. profile_save_to T os p prof s = (Inr (), s')"
proof -
  obtain c where c: "tm_print T (profile_to_toml prof) = Inr c" using assms(1) by (auto simp: toml_prints_def)
  from replace_reliable [where temp = "profile_temp p", OF assms(2,3), unfolded fio_then_assoc] show ?thesis
    by (simp add: profile_save_to_def write_profile_atomic_def c)
qed

lemma profile_temp_neq: "profile_temp p r \<noteq> p"
  unfolding profile_temp_def by (rule temp_path_neq) (simp add: is_sep_def)

lemma file_roundtrip_passes:
  assumes "toml_law T" "toml_prints T" "reliable os" "reliable os'" "names_dir dir" "dir_empty dir s"
  shows "file_roundtrip T os os' dir s"
proof -
  note quiet = assms(3,4) [unfolded reliable_def]
  define p where "p = profile_default\<lparr>pf_host := host_profile_default\<lparr>hp_port := 11111\<rparr>\<rparr>"
  define p' where "p' = p\<lparr>pf_host := host_profile_default\<lparr>hp_port := 22222\<rparr>\<rparr>"
  note free = profile_temp_free [OF assms(5,6)]
  obtain s1 where s1: "profile_save_to T os (profile_file_path dir) p s = (Inr (), s1)"
    using save_profile_reliable [OF assms(2,3) free] by blast
  have "fs_files s1 (profile_temp (profile_file_path dir) r) = None" for r
    using profile_file.write_frame [OF s1 _ profile_temp_neq] quiet free by simp
  then obtain s2 where s2: "profile_save_to T os' (profile_file_path dir) p' s1 = (Inr (), s2)"
    using save_profile_reliable [OF assms(2,4)] by blast
  have "profile_load_from T os (profile_file_path dir) s1 = (Inr p, s1)"
      "profile_load_from T os (profile_file_path dir) s2 = (Inr p', s2)"
    using load_after_save [OF assms(1) s1] load_after_save [OF assms(1) s2] quiet by simp_all
  with s1 s2 show ?thesis
    unfolding file_roundtrip_def Let_def p_def [symmetric] p'_def [symmetric]
    by (simp add: assert_ok_def) (simp add: p_def p'_def)
qed

lemma missing_creates_default_passes:
  assumes "toml_prints T" "reliable os" "names_dir dir" "dir_empty dir s"
  shows "missing_creates_default T os dir s"
proof -
  obtain s' where s': "profile_save_to T os (profile_file_path dir) profile_default s = (Inr (), s')"
    using save_profile_reliable [OF assms(1,2) profile_temp_free [OF assms(3,4)]] by blast
  have "fs_files s (profile_file_path dir) = None"
    using assms(4) by (simp add: profile_file_path_def dir_empty_join)
  with s' profile_file.write_ok [OF s'] assms(2) show ?thesis
    by (simp add: missing_creates_default_def assert_ok_def profile_load_from_def read_to_string_def
        sys_read_def reliable_def io_err_def fio_then_def fio_return_def profile_default_def
        host_profile_default_def)
qed

section \<open>Tests of \<^verbatim>\<open>host_state.rs\<close>\<close>

definition missing_state_is_empty :: "os \<Rightarrow> path \<Rightarrow> fs \<Rightarrow> bool" where
  "missing_state_is_empty os path s \<longleftrightarrow> fst (load_host_state os path s) = Inr None"

text \<open>123 456 s and 789 ns after the epoch.\<close>

definition roundtrip_state :: host_state where
  "roundtrip_state = \<lparr>hs_service_id = service_filled 0x4b,
     hs_token_state = token_state_new (token_filled 0x5a) 123456000000789\<rparr>"

definition state_roundtrips :: "os \<Rightarrow> path \<Rightarrow> fs \<Rightarrow> bool" where
  "state_roundtrips os path =
     assert_ok (save_host_state os path roundtrip_state) (\<lambda>_ s.
       fst (load_host_state os path s) = Inr (Some roundtrip_state)
       \<and> map_option f_mode (fs_files s path) = Some OwnerOnly)"

definition rejects_invalid_state :: "os \<Rightarrow> path \<Rightarrow> fs \<Rightarrow> bool" where
  "rejects_invalid_state os path =
     assert_ok (std_create_dir_all (parent_dir path)) (\<lambda>_.
     assert_ok (std_write path [STATE_VERSION]) (\<lambda>_ s.
       (\<exists>e a. fst (load_host_state os path s) = Inl (InvalidHostStateLength e a)) \<and>
       (let bs = (replicate STATE_LEN 0)[0 := STATE_VERSION + 1]
        in assert_ok (std_write path bs) (\<lambda>_ s.
           (\<exists>v. fst (load_host_state os path s) = Inl (UnsupportedHostStateVersion v)) \<and>
           (let bs = take 57 (bs[0 := STATE_VERSION]) @ to_le 4 1000000000
            in assert_ok (std_write path bs) (\<lambda>_ s.
               fst (load_host_state os path s) = Inl InvalidHostStateTimestamp) s)) s)))"

lemma missing_state_is_empty_passes:
  assumes "reliable os" "fs_files s path = None"
  shows "missing_state_is_empty os path s"
  using assms by (simp add: missing_state_is_empty_def load_host_state_def sys_read_def reliable_def io_err_def)

lemma state_roundtrips_passes:
  assumes "reliable os" "fs_files s (state_temp path (os_random os 0)) = None"
  shows "state_roundtrips os path s"
proof -
  have time: "0 \<le> ts_created_at (hs_token_state roundtrip_state)" "host_state_valid roundtrip_state"
    by (simp_all add: roundtrip_state_def token_state_new_def host_state_valid_def time_max_def)
  from replace_reliable [where temp = "state_temp path", OF assms] obtain s' where
    s': "save_host_state os path roundtrip_state s = (Inr (), s')"
    unfolding save_host_state_valid [OF time(1)] write_state_atomic_def by blast
  have "load_host_state os path s' = (Inr (Some roundtrip_state), s')"
    using state_file.write_then_read [OF s', of os] assms(1) decode_encode_host_state [OF time(2)]
    by (simp add: reliable_def load_host_state_def state_inode_def)
  with s' state_file.write_ok [OF s'] show ?thesis
    by (simp add: state_roundtrips_def assert_ok_def state_inode_def)
qed

lemma rejects_invalid_state_passes:
  assumes "reliable os"
  shows "rejects_invalid_state os path s"
proof -
  have "from_le (slice 57 61 (take 57 ((replicate STATE_LEN 0)[0 := STATE_VERSION]) @ to_le 4 1000000000)) = 1000000000"
    using from_le_to_le [of 1000000000 4] by (simp add: slice_def STATE_LEN_def)
  moreover have "decode_host_state bs = Inl InvalidHostStateTimestamp"
    if "length bs = STATE_LEN" "bs ! 0 = STATE_VERSION" "from_le (slice 57 61 bs) = 1000000000" for bs
    using that by (simp add: decode_host_state_def Let_def)
  ultimately have "decode_host_state (take 57 ((replicate STATE_LEN 0)[0 := STATE_VERSION]) @ to_le 4 1000000000)
      = Inl InvalidHostStateTimestamp"
    by (simp add: STATE_LEN_def nth_append)
  moreover have "decode_host_state [STATE_VERSION] = Inl (InvalidHostStateLength STATE_LEN 1)"
    "decode_host_state ((replicate STATE_LEN 0)[0 := STATE_VERSION + 1]) = Inl (UnsupportedHostStateVersion 2)"
    by (simp_all add: decode_host_state_def STATE_LEN_def STATE_VERSION_def)
  ultimately show ?thesis
    using assms unfolding rejects_invalid_state_def assert_ok_def std_create_dir_all_def std_write_def
    by (simp add: Let_def load_host_state_def sys_read_def reliable_def)
qed

text \<open>A fresh directory meets what the test of the round trip needs of its path.\<close>

lemma host_state_path_free:
  assumes "names_dir dir" "dir_empty dir s"
  shows "fs_files s (state_temp (path_join dir ''host.state'') r) = None"
proof -
  have "parent_dir (path_join dir ''host.state'') = dir"
    using assms(1) by (intro parent_of_join) (simp_all add: is_sep_def)
  with assms(2) show ?thesis by (simp add: state_temp_def dir_empty_temp)
qed

end
