(* ===== verification/Service_Tests.thy ===== *)
theory Service_Tests
  imports Tunnel_Service
begin

text \<open>
  The unit tests of \<^verbatim>\<open>core/src/tunnel/service.rs\<close>. Each awaits one call after the other, so a call is
  run to its end before the next; what a dropped guard or an aborted task leaves to the runtime runs
  at \<^verbatim>\<open>yield_now\<close>.
\<close>

section \<open>Calls that nobody interrupts\<close>

definition run_stop :: "tunnel_service \<Rightarrow> (tunnel_service_error + tunnel_status) \<times> tunnel_service" where
  "run_stop s =
     (case begin_stop s of
        (Inl e, s1) \<Rightarrow> (Inl e, s1)
      | (Inr False, s1) \<Rightarrow> (Inr tunnel_status_idle, s1)
      | (Inr True, s1) \<Rightarrow> (Inr tunnel_status_idle, finish_stop (fst (next_operation_id s)) s1))"

definition shutdown_service :: "tunnel_service \<Rightarrow> (tunnel_service_error + unit) \<times> tunnel_service" where
  "shutdown_service s =
     (case run_stop s of
        (Inr _, s1) \<Rightarrow> (Inr (), s1)
      | (Inl e, s1) \<Rightarrow> (if e = NotRunning then Inr () else Inl e, s1))"

definition publish_error :: "string \<Rightarrow> tunnel_service_error \<Rightarrow> tunnel_service \<Rightarrow> tunnel_service" where
  "publish_error context e s =
     (let s1 = svc_publish ((tsv_published s)\<lparr>tu_last_error := Some (service_error_category e)\<rparr>) s
      in s1\<lparr>tsv_events := tsv_events s1 @ [EventError (service_error_category e)
           (context @ '': '' @ service_error_text e)]\<rparr>)"

definition yield_now :: "tunnel_service \<Rightarrow> tunnel_service" where
  "yield_now s = fold (\<lambda>op s. tunnel_service_step s (SvcReset op)) (tsv_resets s) s"

text \<open>The interleaved steps, run without a pause, are these calls.\<close>

lemma shutdown_service_result: "fst (shutdown_service s) = shutdown_result (fst (begin_stop s))"
  by (auto simp: shutdown_service_def run_stop_def shutdown_result_def split: prod.splits sum.splits bool.splits)

lemma publish_error_steps:
  "svc_task s op = Some (m, TaskReporting e) \<Longrightarrow>
     tunnel_service_step s (SvcReport op) = publish_error (error_context m) e (drop_task op s)"
  by (simp add: publish_error_read_def publish_error_write_def publish_error_def svc_task_def put_task_def
      drop_task_def svc_publish_def Let_def AList.delete_idem)

section \<open>Subscribers\<close>

text \<open>
  What a subscriber finds ready after some calls: the status, if it has changed, and the new
  events; the select takes them in any order.
\<close>

definition ready_since :: "tunnel_service \<Rightarrow> tunnel_service \<Rightarrow> sub_ready list" where
  "ready_since s s' =
     (if tsv_published s' = tsv_published s then [] else [SubStatus (tsv_published s')])
     @ map SubEvent (drop (length (tsv_events s)) (tsv_events s'))"

fun received_status :: "tunnel_update option option \<Rightarrow> tunnel_status option" where
  "received_status (Some (Some (UpdateStatus st))) = Some st"
| "received_status _ = None"

definition received_phase :: "tunnel_update option option \<Rightarrow> (tunnel_phase \<times> tunnel_mode option) option" where
  "received_phase u = map_option (\<lambda>st. (tn_phase (tu_state st), tn_mode (tu_state st))) (received_status u)"

definition phase_of :: "tunnel_service \<Rightarrow> tunnel_phase" where
  "phase_of s = tn_phase (tu_state (tsv_published s))"

text \<open>\<^verbatim>\<open>let guard = ...; assert!(guard.is_ok())\<close>, and the rest of the test with the operation's number.\<close>

definition started_as :: "tunnel_mode \<Rightarrow> tunnel_service \<Rightarrow> (u64 \<Rightarrow> tunnel_service \<Rightarrow> bool) \<Rightarrow> bool" where
  "started_as mode s k = (case begin_start mode s of (Inl e, s1) \<Rightarrow> False | (Inr op, s1) \<Rightarrow> k op s1)"

section \<open>Tests\<close>

definition new_service_is_idle :: bool where
  "new_service_is_idle \<longleftrightarrow>
     (let status = tsv_published tunnel_service_new
      in tn_phase (tu_state status) = PhaseIdle \<and> tu_connections status = [])"

definition rejects_invalid_options_before_starting :: "service_id \<Rightarrow> access_token \<Rightarrow> bool" where
  "rejects_invalid_options_before_starting service token \<longleftrightarrow>
     (case start_host (host_options_new 0 service token) tunnel_service_new of
        (host, s) \<Rightarrow> host = Inl InvalidPort \<and> phase_of s = PhaseIdle)"

definition dropped_operation_guard_restores_idle :: bool where
  "dropped_operation_guard_restores_idle \<longleftrightarrow>
     started_as HostMode tunnel_service_new (\<lambda>guard s. phase_of (yield_now (drop_guard guard s)) = PhaseIdle)"

definition starting_service_rejects_another_start :: bool where
  "starting_service_rejects_another_start \<longleftrightarrow>
     started_as HostMode tunnel_service_new (\<lambda>guard s. fst (begin_start JoinMode s) = Inl ServiceBusy)"

definition stop_cancels_starting_operation :: bool where
  "stop_cancels_starting_operation \<longleftrightarrow>
     (let s = tunnel_service_new;
          (initial, updates) = sub_recv (tsv_published s) subscribe_new []
      in map_option fst (received_phase initial) = Some PhaseIdle \<and>
         started_as HostMode s (\<lambda>guard s1.
           let (starting, updates1) = sub_recv (tsv_published s1) updates (ready_since s s1);
               (status, s2) = run_stop s1;
               (idle, updates2) = sub_recv (tsv_published s2) updates1 (ready_since s1 s2);
               s3 = yield_now (drop_guard guard s2)
           in received_phase starting = Some (PhaseStarting, Some HostMode)
              \<and> (case status of Inl _ \<Rightarrow> False | Inr st \<Rightarrow> tn_phase (tu_state st) = PhaseIdle)
              \<and> map_option fst (received_phase idle) = Some PhaseIdle
              \<and> phase_of s2 = PhaseIdle \<and> phase_of s3 = PhaseIdle))"

definition unified_subscription_starts_with_status_and_tracks_changes :: bool where
  "unified_subscription_starts_with_status_and_tracks_changes \<longleftrightarrow>
     (let s = tunnel_service_new;
          (initial, updates) = sub_recv (tsv_published s) subscribe_new []
      in map_option fst (received_phase initial) = Some PhaseIdle \<and>
         started_as JoinMode s (\<lambda>guard s1.
           received_phase (fst (sub_recv (tsv_published s1) updates (ready_since s s1)))
             = Some (PhaseStarting, Some JoinMode)))"

text \<open>One turn of the loop that receives both updates.\<close>

definition saw_update :: "tunnel_update option option \<Rightarrow> bool \<times> bool \<Rightarrow> bool \<times> bool" where
  "saw_update u saw =
     (case u of
        Some (Some (UpdateStatus status)) \<Rightarrow> (tu_last_error status = Some CatInvalidConfiguration, snd saw)
      | Some (Some (UpdateEvent (EventError category _))) \<Rightarrow> (fst saw, category = CatInvalidConfiguration)
      | _ \<Rightarrow> saw)"

definition error_category_is_recoverable_from_status_and_subscription :: "bool \<Rightarrow> bool" where
  "error_category_is_recoverable_from_status_and_subscription event_first \<longleftrightarrow>
     (let s = tunnel_service_new;
          (initial, updates) = sub_recv (tsv_published s) subscribe_new [];
          s1 = publish_error ''validation failed'' InvalidPort s;
          ready = (if event_first then rev (ready_since s s1) else ready_since s s1);
          (first, updates1) = sub_recv (tsv_published s1) updates ready;
          (second, updates2) = sub_recv (tsv_published s1) updates1 (drop 1 ready)
      in map_option tu_last_error (received_status initial) = Some None
         \<and> tu_last_error (tsv_published s1) = Some CatInvalidConfiguration
         \<and> saw_update second (saw_update first (False, False)) = (True, True)
         \<and> started_as JoinMode s1 (\<lambda>guard s2. tu_last_error (tsv_published s2) = None))"

text \<open>
  \<open>channel capacity sent\<close> is what a receiver of a broadcast channel finds ready that has received
  nothing of what was sent.
\<close>

definition EVENT_BROADCAST_SIZE :: nat where "EVENT_BROADCAST_SIZE = 128"

definition lagged_event_subscription_reports_resource_limit ::
  "(nat \<Rightarrow> tunnel_event list \<Rightarrow> sub_ready list) \<Rightarrow> bool" where
  "lagged_event_subscription_reports_resource_limit channel \<longleftrightarrow>
     (let s = tunnel_service_new;
          (initial, updates) = sub_recv (tsv_published s) subscribe_new [];
          sent = replicate (EVENT_BROADCAST_SIZE + 1) Connected
      in initial \<noteq> None \<and> initial \<noteq> Some None \<and>
         (case fst (sub_recv (tsv_published s) updates (channel EVENT_BROADCAST_SIZE sent)) of
            Some (Some (UpdateEvent (EventError category _))) \<Rightarrow> category = CatResourceLimit
          | _ \<Rightarrow> False))"

text \<open>The task never gets further than its first await; its drop is its disappearance from the tasks.\<close>

definition stop_aborts_managed_start_task :: bool where
  "stop_aborts_managed_start_task \<longleftrightarrow>
     (case spawn_start HostMode tunnel_service_new of
        (Inl e, s) \<Rightarrow> False
      | (Inr op, s) \<Rightarrow>
          (let (status, s1) = run_stop (attach_start_task op s);
               s2 = yield_now s1
           in svc_task s op \<noteq> None
              \<and> (case status of Inl _ \<Rightarrow> False | Inr st \<Rightarrow> tn_phase (tu_state st) = PhaseIdle)
              \<and> svc_task s2 op = None))"

definition idle_shutdown_is_idempotent :: bool where
  "idle_shutdown_is_idempotent \<longleftrightarrow>
     (let (result, s) = shutdown_service tunnel_service_new
      in result = Inr () \<and> phase_of s = PhaseIdle)"

section \<open>They pass\<close>

lemmas service_test_defs = tunnel_service_new_def begin_start_def next_operation_id_def svc_publish_def
  started_as_def phase_of_def yield_now_def drop_guard_def reset_operation_def run_stop_def begin_stop_def
  subscribe_new_def sub_recv.simps ready_since_def received_phase_def tunnel_status_idle_def
  tunnel_status_pending_def tunnel_state_idle_def tunnel_state_pending_def

lemma service_lifecycle_tests_pass:
  "new_service_is_idle"
  "rejects_invalid_options_before_starting service token"
  "dropped_operation_guard_restores_idle"
  "starting_service_rejects_another_start"
  "idle_shutdown_is_idempotent"
  by (simp_all add: new_service_is_idle_def rejects_invalid_options_before_starting_def start_host_def
      validate_host_options_def host_options_new_def dropped_operation_guard_restores_idle_def
      starting_service_rejects_another_start_def idle_shutdown_is_idempotent_def shutdown_service_def
      service_test_defs)

lemma stop_tests_pass:
  "stop_cancels_starting_operation"
  "stop_aborts_managed_start_task"
  by (simp_all add: stop_cancels_starting_operation_def stop_aborts_managed_start_task_def spawn_start_def
      attach_start_task_def abort_task_def put_task_def drop_task_def svc_task_def service_test_defs)

lemma subscription_tests_pass:
  "unified_subscription_starts_with_status_and_tracks_changes"
  "error_category_is_recoverable_from_status_and_subscription event_first"
  by (simp_all add: unified_subscription_starts_with_status_and_tracks_changes_def
      error_category_is_recoverable_from_status_and_subscription_def publish_error_def saw_update_def
      service_test_defs)

text \<open>A receiver that fell behind by more than the capacity is told by how much.\<close>

definition broadcast_lags :: "(nat \<Rightarrow> tunnel_event list \<Rightarrow> sub_ready list) \<Rightarrow> bool" where
  "broadcast_lags channel \<longleftrightarrow>
     (\<forall>capacity sent. capacity < length sent \<longrightarrow>
        (\<exists>kept. channel capacity sent = SubLagged (length sent - capacity) # kept))"

lemma lagged_test_passes:
  assumes "broadcast_lags channel"
  shows "lagged_event_subscription_reports_resource_limit channel"
proof -
  obtain kept where "channel 128 (replicate 129 Connected) = SubLagged 1 # kept"
    using assms [unfolded broadcast_lags_def, rule_format, of 128 "replicate 129 Connected"] by auto
  then show ?thesis
    by (simp add: lagged_event_subscription_reports_resource_limit_def EVENT_BROADCAST_SIZE_def service_test_defs)
qed

end
