(* ===== verification/Tunnel_Tests.thy ===== *)
theory Tunnel_Tests
  imports Sessions Path_Monitor Transport Join_Tunnel Iroh_Tunnel
begin

text \<open>
  The unit tests of \<^verbatim>\<open>session.rs\<close>, \<^verbatim>\<open>monitor.rs\<close>, \<^verbatim>\<open>transport.rs\<close>, \<^verbatim>\<open>join.rs\<close> and \<^verbatim>\<open>mod.rs\<close> under
  \<^verbatim>\<open>core/src/tunnel/iroh/\<close>. Endpoint ids the tests draw are arguments.
\<close>

section \<open>Sessions\<close>

definition insert_for_test :: "endpoint_id \<Rightarrow> u64 \<Rightarrow> host_sessions \<Rightarrow> host_sessions" where
  "insert_for_test e generation s =
     s\<lparr>by_id := AList.update e \<lparr>se_generation = generation, se_conn = None\<rparr> (by_id s)\<rparr>"

definition test_endpoint_id :: "crates \<Rightarrow> bytes \<Rightarrow> endpoint_id" where
  "test_endpoint_id X drawn = cr_public X (Abs_secret_key drawn)"

definition generation_filters_stale_close :: "endpoint_id \<Rightarrow> bool" where
  "generation_filters_stale_close e \<longleftrightarrow>
     (let sessions = insert_for_test e 2 sessions_default;
          (removed_stale, s1) = remove_if_current e 1 sessions;
          (removed, s2) = remove_if_current e 2 s1
      in \<not> removed_stale \<and> active_players s1 = 1 \<and> removed \<and> active_players s2 = 0)"

definition full_allows_reconnect :: "endpoint_id \<Rightarrow> bool" where
  "full_allows_reconnect e \<longleftrightarrow> has_capacity_for (insert_for_test e 1 sessions_default) e (Some 1)"

definition full_rejects_new_peer :: "endpoint_id \<Rightarrow> endpoint_id \<Rightarrow> bool" where
  "full_rejects_new_peer existing incoming \<longleftrightarrow>
     \<not> has_capacity_for (insert_for_test existing 1 sessions_default) incoming (Some 1)"

lemmas session_test_defs = insert_for_test_def sessions_default_def session_of_def active_players_def

lemma session_tests_pass:
  "generation_filters_stale_close e" "full_allows_reconnect e"
  "existing \<noteq> incoming \<Longrightarrow> full_rejects_new_peer existing incoming"
  by (simp_all add: generation_filters_stale_close_def full_allows_reconnect_def full_rejects_new_peer_def
      has_capacity_for_def remove_if_current_def players_u32_def session_test_defs)

section \<open>Path monitor\<close>

definition zero_delay_tracks_rtt :: bool where
  "zero_delay_tracks_rtt \<longleftrightarrow> should_emit_on_update 0 (Some False) (Some 20) False 21"

definition delay_throttles_rtt :: bool where
  "delay_throttles_rtt \<longleftrightarrow>
     (let delay = from_secs 1
      in \<not> should_emit_on_update delay (Some False) (Some 20) False 21
         \<and> should_emit_on_update delay (Some False) (Some 20) True 21)"

lemma monitor_tests_pass: "zero_delay_tracks_rtt" "delay_throttles_rtt"
  by (simp_all add: zero_delay_tracks_rtt_def delay_throttles_rtt_def should_emit_on_update_def from_secs_def
      nanos_per_sec_def)

section \<open>Bridge\<close>

definition bridge_error :: "io_error_kind \<Rightarrow> string \<Rightarrow> sculk_error" where
  "bridge_error kind shown = TunnelErr (BridgeTcpToQuic (BoxIo \<lparr>io_kind = kind, io_text = shown\<rparr>))"

definition treats_connection_shutdown_as_normal_bridge_end :: "string \<Rightarrow> bool" where
  "treats_connection_shutdown_as_normal_bridge_end shown \<longleftrightarrow>
     list_all (\<lambda>kind. is_connection_closed (bridge_error kind shown))
       [BrokenPipe, ConnectionReset, ConnectionAborted, NotConnected, UnexpectedEof]"

definition preserves_unexpected_bridge_errors :: "string \<Rightarrow> bool" where
  "preserves_unexpected_bridge_errors shown \<longleftrightarrow> \<not> is_connection_closed (bridge_error OtherKind shown)"

lemma bridge_tests_pass:
  "treats_connection_shutdown_as_normal_bridge_end shown" "preserves_unexpected_bridge_errors shown"
  by (simp_all add: treats_connection_shutdown_as_normal_bridge_end_def preserves_unexpected_bridge_errors_def
      bridge_error_def)

section \<open>Join\<close>

definition application_close :: "nat \<Rightarrow> string \<Rightarrow> close_reason" where
  "application_close code reason = ApplicationClosed code reason"

definition service_stop_is_retryable :: bool where
  "service_stop_is_retryable \<longleftrightarrow>
     \<not> is_permanent_rejection (application_close CLOSE_HOST_STOPPED ''service stopped'')
     \<and> \<not> is_permanent_rejection (application_close CLOSE_HOST_STOPPED ''node stopped'')"

definition authentication_and_capacity_rejections_remain_permanent :: bool where
  "authentication_and_capacity_rejections_remain_permanent \<longleftrightarrow>
     is_permanent_rejection (application_close CLOSE_AUTH_FAILED CLOSE_AUTH_FAILED_REASON)
     \<and> is_permanent_rejection (application_close CLOSE_SERVER_FULL ''server full'')"

definition auth_rejection_stops_retry :: bool where
  "auth_rejection_stops_retry \<longleftrightarrow> is_auth_rejected (TunnelErr AuthRejectedByHost)"

definition auth_timeout_can_retry :: bool where
  "auth_timeout_can_retry \<longleftrightarrow> \<not> is_auth_rejected (TunnelErr AuthTimedOut)"

lemma join_tests_pass:
  "service_stop_is_retryable" "authentication_and_capacity_rejections_remain_permanent"
  "auth_rejection_stops_retry" "auth_timeout_can_retry"
  by (simp_all add: service_stop_is_retryable_def authentication_and_capacity_rejections_remain_permanent_def
      auth_rejection_stops_retry_def auth_timeout_can_retry_def application_close_def CLOSE_HOST_STOPPED_def
      CLOSE_AUTH_FAILED_def CLOSE_SERVER_FULL_def)

section \<open>Events, shutdown and drop\<close>

definition drops_event_when_full :: bool where
  "drops_event_when_full \<longleftrightarrow>
     (let tx = emit_event (emit_event (channel_new 1) Connected) Reconnected;
          (first, rx) = channel_recv tx;
          (second, _) = channel_recv rx
      in first = Some Connected \<and> second = None)"

definition waits_for_shutdown :: bool where
  "waits_for_shutdown \<longleftrightarrow>
     (let rx = \<lparr>sw_value = False, sw_changed = False, sw_sender_alive = True\<rparr>;
          rx = rx\<lparr>sw_value := True, sw_changed := True\<rparr>
      in wait_for_shutdown_ready rx \<and> sw_value rx)"

text \<open>The test binds an endpoint inside a runtime; \<^verbatim>\<open>closed()\<close> then returns.\<close>

definition drop_closes_endpoint :: "endpoint_id \<Rightarrow> instant \<Rightarrow> bool" where
  "drop_closes_endpoint endpoint now \<longleftrightarrow>
     (let tunnel = tunnel_new endpoint now None
      in it_open tunnel \<and> \<not> it_open (tunnel_drop True tunnel))"

lemma event_tests_pass: "drops_event_when_full" "waits_for_shutdown" "drop_closes_endpoint endpoint now"
  by (simp_all add: drop_closes_endpoint_def tunnel_new_def tunnel_drop_def drops_event_when_full_def waits_for_shutdown_def emit_event_def channel_new_def
      channel_recv_def wait_for_shutdown_ready_def)

end
