(* ===== verification/Lan_Tests.thy ===== *)
theory Lan_Tests
  imports Lan_Threads
begin

text \<open>
  The unit tests of \<^verbatim>\<open>core/src/minecraft/\<close>: \<^verbatim>\<open>mod.rs\<close> and \<^verbatim>\<open>lan.rs\<close>. Sockets are inputs of the
  threads' steps: the test server answers the probe, a datagram is what a receive returns, and how
  often a thread turns before it arrives is an argument of the test.
\<close>

section \<open>The server of the tests\<close>

text \<open>What its thread does with the byte it reads.\<close>

definition start_server :: "u8 \<Rightarrow> bytes \<Rightarrow> io_error + u8" where
  "start_server response request =
     (if request \<noteq> [LEGACY_PING] then Inl (lan_io_err InvalidData ''unexpected test probe request'')
      else Inr response)"

definition start_probe_server :: "u8 \<Rightarrow> bytes \<Rightarrow> io_error + u8" where
  "start_probe_server response request =
     (if request \<noteq> [0xFE] then Inl (lan_io_err InvalidData ''unexpected test probe request'')
      else Inr response)"

text \<open>A probe of such a server: it connects, and reads the answer, or the end of the stream.\<close>

definition served_net :: "(bytes \<Rightarrow> io_error + u8) \<Rightarrow> probe_net" where
  "served_net server =
     \<lparr>pn_connect = (\<lambda>_ _. Inr ()), pn_timeouts = (\<lambda>_. Inr ()), pn_write = (\<lambda>_. Inr ()),
      pn_read = (case server [LEGACY_PING] of
         Inl _ \<Rightarrow> Inl (lan_io_err UnexpectedEof ''failed to fill whole buffer'')
       | Inr response \<Rightarrow> Inr response)\<rparr>"

definition join_server :: "(bytes \<Rightarrow> io_error + u8) \<Rightarrow> io_error + unit" where
  "join_server server = and_then (server [LEGACY_PING]) (\<lambda>_. Inr ())"

section \<open>Tests of \<^verbatim>\<open>mod.rs\<close>\<close>

definition accepts_minecraft_legacy_status_response :: "socket_addr \<Rightarrow> bool" where
  "accepts_minecraft_legacy_status_response addr \<longleftrightarrow>
     (let server = start_server LEGACY_RESPONSE
      in and_then (probe_server (served_net server) addr (from_secs 1)) (\<lambda>_. join_server server) = Inr ())"

definition rejects_non_minecraft_response :: "socket_addr \<Rightarrow> bool" where
  "rejects_non_minecraft_response addr \<longleftrightarrow>
     (let server = start_server 0
      in (case probe_server (served_net server) addr (from_secs 1) of
            Inl e \<Rightarrow> io_kind e = InvalidData
          | Inr _ \<Rightarrow> False)
         \<and> join_server server = Inr ())"

lemmas server_test_defs = start_server_def start_probe_server_def served_net_def join_server_def
  probe_server_def LEGACY_PING_def LEGACY_RESPONSE_def lan_io_err_def

lemma probe_tests_pass:
  "accepts_minecraft_legacy_status_response addr" "rejects_non_minecraft_response addr"
  by (simp_all add: accepts_minecraft_legacy_status_response_def rejects_non_minecraft_response_def
      server_test_defs)

section \<open>Announcements\<close>

definition test_port :: u16 where "test_port = 25565"

definition builds_java_edition_lan_packet :: bool where
  "builds_java_edition_lan_packet \<longleftrightarrow>
     build_packet (scalars ''sculk'') test_port = bytes_of_str ''[MOTD]sculk[/MOTD][AD]25565[/AD]''"

text \<open>The Chinese characters of the test by their code points.\<close>

definition sanitizes_lan_display_name :: bool where
  "sanitizes_lan_display_name \<longleftrightarrow>
     sanitize_name (scalars ''  '' @ [0x623F, 0x95F4] @ scalars ''['' @ [0x4E00] @ scalars '']'' @ [0x0A]
         @ scalars ''[/MOTD]  '')
       = [0x623F, 0x95F4] @ scalars '' '' @ [0x4E00] @ scalars '' /MOTD''
     \<and> sanitize_name [0x00, 0x0A] = MOTD_FALLBACK
     \<and> (let long_name = replicate (MOTD_CHARS_MAX + 1) 0x754C
        in length (sanitize_name long_name) = MOTD_CHARS_MAX)"

definition parses_port_from_minecraft_lan_packet :: bool where
  "parses_port_from_minecraft_lan_packet \<longleftrightarrow>
     parse_lan_port (bytes_of_str ''[MOTD]Local world[/MOTD][AD]32809[/AD]'') = Some 32809
     \<and> parse_lan_port (bytes_of_str ''[MOTD]Local world[/MOTD][AD]0[/AD]'') = None
     \<and> parse_lan_port (bytes_of_str ''[AD]32809[/AD]'') = None
     \<and> parse_lan_port (bytes_of_str ''[MOTD]Local world[/MOTD][AD]invalid[/AD]'') = None
     \<and> parse_lan_port (bytes_of_str ''prefix[MOTD]Local world[/MOTD][AD]32809[/AD]'') = None"

lemma local_world_name: "sanitize_name (scalars ''Local world'') = scalars ''Local world''"
  by (simp add: sanitize_name_def scalars_def MOTD_CHARS_MAX_def clean_char_def is_control_def is_whitespace_def)

lemma ascii_scalars: "list_all (\<lambda>c. c < 0x80) cs \<Longrightarrow> utf8_encode cs = map of_nat cs"
  by (induction cs) (simp_all add: utf8_encode_def encode_char_def)

definition local_world_packet :: "u16 \<Rightarrow> bytes" where
  "local_world_packet port = bytes_of_str (''[MOTD]Local world[/MOTD][AD]'' @ show_u16 port @ ''[/AD]'')"

lemma local_world_packet_eq: "local_world_packet port = build_packet (scalars ''Local world'') port"
proof -
  have "utf8_encode (scalars ''Local world'') = bytes_of_str ''Local world''"
    by (subst ascii_scalars) (simp_all add: scalars_def bytes_of_str_def)
  then show ?thesis
    by (simp add: build_packet_def local_world_name local_world_packet_def) (simp add: bytes_of_str_def)
qed

lemma local_world_port: "port \<noteq> 0 \<Longrightarrow> parse_lan_port (take SCAN_PACKET_SIZE_MAX (local_world_packet port)) = Some port"
  unfolding local_world_packet_eq using packet_parses [OF scalars_scalar, of port "''Local world''"] by simp

lemma builds_java_edition_lan_packet_passes: "builds_java_edition_lan_packet"
proof -
  have "sanitize_name (scalars ''sculk'') = scalars ''sculk''"
    using fallback_sanitized by (simp add: MOTD_FALLBACK_def)
  moreover have "utf8_encode (scalars ''sculk'') = bytes_of_str ''sculk''"
    by (subst ascii_scalars) (simp_all add: scalars_def bytes_of_str_def)
  moreover have "show_u16 25565 = ''25565''"
    by (simp add: show_u16_def show_nat.simps digit_char_def) code_simp
  ultimately show ?thesis
    by (simp add: builds_java_edition_lan_packet_def build_packet_def test_port_def) (simp add: bytes_of_str_def)
qed

lemma sanitize_word:
  assumes "name \<noteq> []" "list_all (\<lambda>c. name_char c \<and> \<not> is_whitespace c) name"
  shows "sanitize_name name = take MOTD_CHARS_MAX name"
proof -
  let ?w = "take MOTD_CHARS_MAX name"
  have w: "?w \<noteq> []" using assms(1) by (simp add: MOTD_CHARS_MAX_def)
  have all: "\<forall>c\<in>set ?w. name_char c \<and> \<not> is_whitespace c"
    using assms(2) by (auto simp: list_all_iff dest: in_set_takeD)
  then have "map clean_char ?w = ?w" by (simp add: map_idI clean_char_id)
  moreover have "split_words [] ?w = [?w]"
    using split_words_prefix [of ?w "[]" "[]"] all w by auto
  ultimately show ?thesis using w by (simp add: sanitize_name_def)
qed

lemma sanitizes_lan_display_name_passes: "sanitizes_lan_display_name"
proof -
  have "sanitize_name (replicate (MOTD_CHARS_MAX + 1) 0x754C) = replicate MOTD_CHARS_MAX 0x754C"
    by (subst sanitize_word)
      (simp_all add: MOTD_CHARS_MAX_def list_all_iff name_char_def is_control_def is_whitespace_def take_replicate)
  then show ?thesis
    by (simp add: sanitizes_lan_display_name_def)
      (simp add: sanitize_name_def scalars_def MOTD_CHARS_MAX_def clean_char_def is_control_def is_whitespace_def)
qed

text \<open>What such a packet says, for any text between the brackets.\<close>

lemma local_world_parse:
  assumes "\<forall>c\<in>set d. (of_char c :: nat) < 128 \<and> c \<noteq> CHR ''[''"
  shows "parse_lan_port (bytes_of_str (''[MOTD]Local world[/MOTD][AD]'' @ d @ ''[/AD]'')) = parse_nonzero_u16 d"
proof -
  define a where "a = bytes_of_str ''[MOTD]''"
  define n where "n = bytes_of_str ''Local world''"
  define b where "b = bytes_of_str ''[/MOTD]''"
  define e where "e = bytes_of_str ''[AD]''"
  define f where "f = bytes_of_str ''[/AD]''"
  define packet where "packet = ''[MOTD]Local world[/MOTD][AD]'' @ d @ ''[/AD]''"
  have pk: "bytes_of_str packet = a @ n @ b @ e @ bytes_of_str d @ f"
    by (simp add: packet_def a_def n_def b_def e_def f_def bytes_of_str_def)
  have "\<forall>c\<in>set packet. (of_char c :: nat) < 128" using assms by (auto simp: packet_def)
  from utf8_valid_ascii_append [OF ascii_str [OF this], of "[]"] have valid: "utf8_valid (bytes_of_str packet)" by simp
  have nb: "0x5B \<notin> set n" by (simp add: n_def bytes_of_str_def)
  have nd: "0x5B \<notin> set (bytes_of_str d)"
  proof
    assume "0x5B \<in> set (bytes_of_str d)"
    then obtain c where c: "c \<in> set d" "of_nat (of_char c) = (0x5B :: u8)" by (force simp: bytes_of_str_def)
    then have "unat (of_nat (of_char c) :: u8) = 91" by simp
    with c(1) assms have "of_char c = (of_char (CHR ''['') :: nat)" by (simp add: unat_of_nat take_bit_eq_mod)
    then have "c = CHR ''[''" by (simp only: of_char_eq_iff)
    with c(1) assms show False by blast
  qed
  have hd: "b \<noteq> []" "hd b = 0x5B" "f \<noteq> []" "hd f = 0x5B" by (simp_all add: b_def f_def bytes_of_str_def)
  have "find_sub b (n @ b @ e @ bytes_of_str d @ f) = Some (length n)"
    by (rule find_sub_append) (use hd nb in simp_all)
  moreover have "find_sub f (bytes_of_str d @ f) = Some (length (bytes_of_str d))"
    using find_sub_append [of f "bytes_of_str d" "[]"] hd nd by simp
  moreover have "drop 7 b = []" "length b = 7" by (simp_all add: b_def bytes_of_str_def)
  ultimately show ?thesis
    unfolding packet_def [symmetric]
    using valid by (simp add: parse_lan_port_def pk a_def [symmetric] b_def [symmetric] e_def [symmetric] f_def [symmetric])
qed

lemma parses_port_from_minecraft_lan_packet_passes: "parses_port_from_minecraft_lan_packet"
proof -
  have "parse_nonzero_u16 ''32809'' = Some 32809" "parse_nonzero_u16 ''0'' = None" "parse_nonzero_u16 ''invalid'' = None"
    by (simp_all add: parse_nonzero_u16_def parse_u16_def char_digit_def)
  with local_world_parse [of "''32809''"] local_world_parse [of "''0''"] local_world_parse [of "''invalid''"]
  have "parse_lan_port (bytes_of_str ''[MOTD]Local world[/MOTD][AD]32809[/AD]'') = Some 32809"
    "parse_lan_port (bytes_of_str ''[MOTD]Local world[/MOTD][AD]0[/AD]'') = None"
    "parse_lan_port (bytes_of_str ''[MOTD]Local world[/MOTD][AD]invalid[/AD]'') = None"
    by simp_all
  then show ?thesis
    by (simp add: parses_port_from_minecraft_lan_packet_def)
      (simp add: parse_lan_port_def strip_prefix_def bytes_of_str_def)
qed

section \<open>The scanner\<close>

text \<open>A receive that times out, and the datagram of a server that announces itself.\<close>

definition quiet_turn :: scan_input where
  "quiet_turn = \<lparr>si_stop = SigNone, si_recv = Inl (lan_io_err WouldBlock ''Resource temporarily unavailable''),
     si_net = served_net (start_probe_server 0)\<rparr>"

definition announced_turn :: "u16 \<Rightarrow> (bytes \<Rightarrow> io_error + u8) \<Rightarrow> scan_input" where
  "announced_turn port server =
     \<lparr>si_stop = SigNone, si_recv = Inr (local_world_packet port), si_net = served_net server\<rparr>"

definition scanner_test_timeout :: duration where "scanner_test_timeout = from_millis 100"

definition stopped_ok :: "((io_error + unit) \<times> 'a) option \<Rightarrow> bool" where
  "stopped_ok r \<longleftrightarrow> map_option fst r = Some (Inr ())"

definition scanner_after :: "scan_input list \<Rightarrow> io_error + lan_scanner" where
  "scanner_after turns =
     map_sum id (\<lambda>sn. run_steps (scanner_step scanner_test_timeout) sn (map ScanMove turns)) (scanner_start_thread (Inr ()))"

definition starts_on_minecraft_multicast_socket :: "scanner_setup \<Rightarrow> scan_input list \<Rightarrow> bool" where
  "starts_on_minecraft_multicast_socket setup turns \<longleftrightarrow>
     (case scanner_start setup of
        Inl _ \<Rightarrow> False
      | Inr scanner \<Rightarrow> stopped_ok (scanner_stop PROBE_TIMEOUT scanner turns))"

definition scanner_reports_local_minecraft_server_once :: "nat \<Rightarrow> u16 \<Rightarrow> scan_input list \<Rightarrow> bool" where
  "scanner_reports_local_minecraft_server_once before port later \<longleftrightarrow>
     (let server = start_probe_server 0xFF
      in case scanner_after (replicate before quiet_turn @ [announced_turn port server]) of
           Inl _ \<Rightarrow> False
         | Inr scanner \<Rightarrow>
             (let (received, scanner') = scanner_try_recv scanner
              in received = Received port
                 \<and> stopped_ok (scanner_stop scanner_test_timeout scanner' later)
                 \<and> join_server server = Inr ()))"

definition scanner_ignores_non_minecraft_server :: "nat \<Rightarrow> nat \<Rightarrow> u16 \<Rightarrow> scan_input list \<Rightarrow> bool" where
  "scanner_ignores_non_minecraft_server before waited port later \<longleftrightarrow>
     (let server = start_probe_server 0
      in case scanner_after (replicate before quiet_turn @ [announced_turn port server] @ replicate waited quiet_turn) of
           Inl _ \<Rightarrow> False
         | Inr scanner \<Rightarrow>
             fst (scanner_try_recv scanner) = RecvEmpty
             \<and> stopped_ok (scanner_stop scanner_test_timeout scanner later)
             \<and> join_server server = Inr ())"

definition stop_interrupts_scanner_wait :: "scan_input list \<Rightarrow> bool" where
  "stop_interrupts_scanner_wait later \<longleftrightarrow>
     (case scanner_start_thread (Inr ()) of
        Inl _ \<Rightarrow> False
      | Inr scanner \<Rightarrow> stopped_ok (scanner_stop scanner_test_timeout scanner later))"

lemma join_test_server: "join_server (start_probe_server response) = Inr ()"
  by (simp add: server_test_defs)

lemma quiet_move:
  "sh_result (sn_thread sn) = None \<Longrightarrow> sn_chan sn = stop_channel_new \<Longrightarrow>
     scanner_step t sn (ScanMove quiet_turn) = sn"
  by (simp add: thread_move_def scan_work_def quiet_turn_def stop_poll_def stop_channel_new_def lan_io_err_def)

lemma quiet_moves:
  "sh_result (sn_thread sn) = None \<Longrightarrow> sn_chan sn = stop_channel_new \<Longrightarrow>
     run_steps (scanner_step t) sn (map ScanMove (replicate n quiet_turn)) = sn"
  by (induction n) (simp_all add: quiet_move del: scanner_step.simps)

definition listening :: lan_scanner where
  "listening = \<lparr>sn_handle = lan_handle_new, sn_chan = stop_channel_new, sn_thread = \<lparr>sh_result = None, sh_ports = []\<rparr>\<rparr>"

lemma announced_move:
  assumes "port \<noteq> 0"
  shows "scanner_step scanner_test_timeout listening (ScanMove (announced_turn port (start_probe_server response))) =
    (if response = 0xFF then listening\<lparr>sn_thread := \<lparr>sh_result = Some (Inr ()), sh_ports = [port]\<rparr>\<rparr> else listening)"
  using local_world_port [OF assms]
  by (simp add: listening_def thread_move_def scan_work_def announced_turn_def stop_poll_def stop_channel_new_def
      server_test_defs)

lemma stop_running_scanner:
  assumes "sh_result (sn_thread sn) = None" "sn_handle sn = lan_handle_new" "later \<noteq> []"
  shows "stopped_ok (scanner_stop t sn later)"
proof -
  obtain i "is" where later: "later = i # is" using assms(3) by (cases later) auto
  have "fst (stop_poll (send_stop (sn_chan sn))) \<noteq> SigNone" by (rule stop_poll_sticky [THEN conjunct1]) simp
  then have m: "scan_move t (sn_thread sn, send_stop (sn_chan sn)) i
      = (\<lparr>sh_result = Some (Inr ()), sh_ports = sh_ports (sn_thread sn)\<rparr>, snd (stop_poll (send_stop (sn_chan sn))))"
    using assms(1) by (simp add: thread_move_def scan_work_def)
  show ?thesis
    using assms(2) unfolding later
    by (simp add: stopped_ok_def scanner_stop_def lan_handle_new_def lan_stop_def m scan_thread.ended_stays)
qed

lemma stop_ended_scanner:
  assumes "sh_result (sn_thread sn) = Some (Inr ())" "sn_handle sn = lan_handle_new"
  shows "stopped_ok (scanner_stop t sn later)"
  using assms
  by (simp add: stopped_ok_def scanner_stop_def lan_handle_new_def lan_stop_def scan_thread.ended_stays)

lemma starts_on_minecraft_multicast_socket_passes:
  assumes "scanner_start setup = Inr scanner" "later \<noteq> []"
  shows "starts_on_minecraft_multicast_socket setup later"
  using scanner_started [OF assms(1)] assms
  by (simp add: starts_on_minecraft_multicast_socket_def stop_running_scanner)

lemma scanner_tests_pass:
  assumes "port \<noteq> 0"
  shows "scanner_reports_local_minecraft_server_once before port later"
    and "later \<noteq> [] \<Longrightarrow> scanner_ignores_non_minecraft_server before waited port later"
    and "later \<noteq> [] \<Longrightarrow> stop_interrupts_scanner_wait later"
proof -
  have start: "scanner_start_thread (Inr ()) = Inr listening" by (simp add: scanner_start_thread_def listening_def)
  have l: "sh_result (sn_thread listening) = None" "sn_chan listening = stop_channel_new"
    "sn_handle listening = lan_handle_new" "sh_ports (sn_thread listening) = []" by (simp_all add: listening_def)
  note quiet = quiet_moves [OF l(1,2), of scanner_test_timeout]
  show "scanner_reports_local_minecraft_server_once before port later"
    using assms quiet [of before] l
    by (simp add: scanner_reports_local_minecraft_server_once_def scanner_after_def start run_steps_append
        announced_move scanner_try_recv_def stop_ended_scanner join_test_server del: scanner_step.simps map_replicate)
  show "later \<noteq> [] \<Longrightarrow> scanner_ignores_non_minecraft_server before waited port later"
    using assms quiet [of before] quiet [of waited] l
    by (simp add: scanner_ignores_non_minecraft_server_def scanner_after_def start run_steps_append
        announced_move scanner_try_recv_def stop_running_scanner join_test_server del: scanner_step.simps map_replicate)
  show "later \<noteq> [] \<Longrightarrow> stop_interrupts_scanner_wait later"
    by (simp add: stop_interrupts_scanner_wait_def start stop_running_scanner l)
qed

section \<open>The broadcaster\<close>

text \<open>
  \<^verbatim>\<open>BroadcastMode::Always\<close> exists only in tests: the first datagram is sent by the caller, the others
  by the thread, one per interval. The result, and the datagrams sent.
\<close>

fun repeat_broadcast_loop ::
  "broadcast_config \<Rightarrow> broadcast_input list \<Rightarrow> (io_error + unit) option \<times> bytes list" where
  "repeat_broadcast_loop cfg [] = (None, [])"
| "repeat_broadcast_loop cfg (i # is) =
     (if bi_signal i \<noteq> SigNone then (Some (Inr ()), [])
      else case send_packet cfg i of
        Inl e \<Rightarrow> (Some (Inl e), [])
      | Inr _ \<Rightarrow> (case repeat_broadcast_loop cfg is of (r, sent) \<Rightarrow> (r, bc_packet cfg # sent)))"

definition start_with_socket ::
  "broadcast_config \<Rightarrow> broadcast_input \<Rightarrow> broadcast_input list \<Rightarrow> io_error + (io_error + unit) option \<times> bytes list" where
  "start_with_socket cfg first is =
     and_then (send_packet cfg first) (\<lambda>_. case repeat_broadcast_loop cfg is of (r, sent) \<Rightarrow> Inr (r, bc_packet cfg # sent))"

definition start_with_probe :: "instant \<Rightarrow> io_error + lan_broadcaster" where
  "start_with_probe now = broadcaster_start_thread now (Inr ())"

text \<open>
  The configuration of a test: its interval, the packet for \<^verbatim>\<open>sculk\<close> and the probe of the test
  server; and what a step meets, after \<open>elapsed\<close> nanoseconds, when its datagram is sent whole.
\<close>

definition test_broadcast :: "duration \<Rightarrow> socket_addr \<Rightarrow> broadcast_config" where
  "test_broadcast interval addr =
     \<lparr>bc_interval = interval, bc_packet = build_packet (scalars ''sculk'') test_port,
      bc_probe = \<lparr>pc_addr = addr, pc_interval = from_secs 1, pc_timeout = from_millis 100\<rparr>\<rparr>"

definition test_turn :: "nat \<Rightarrow> stop_signal \<Rightarrow> (bytes \<Rightarrow> io_error + u8) \<Rightarrow> broadcast_input" where
  "test_turn elapsed sig server =
     \<lparr>bi_elapsed = elapsed, bi_net = served_net server, bi_signal = sig,
      bi_send = Inr (length (build_packet (scalars ''sculk'') test_port))\<rparr>"

definition broadcasts_immediately_and_repeatedly :: "socket_addr \<Rightarrow> nat \<Rightarrow> bool" where
  "broadcasts_immediately_and_repeatedly addr elapsed \<longleftrightarrow>
     (let cfg = test_broadcast (from_millis 20) addr;
          turn = (\<lambda>sig. test_turn elapsed sig (start_probe_server 0))
      in case start_with_socket cfg (turn SigNone) [turn SigNone, turn SigStop] of
           Inl _ \<Rightarrow> False
         | Inr (result, received) \<Rightarrow>
             length received = 2
             \<and> list_all (\<lambda>datagram. datagram = build_packet (scalars ''sculk'') test_port) received
             \<and> result = Some (Inr ()))"

definition broadcasts_after_minecraft_probe_succeeds :: "socket_addr \<Rightarrow> instant \<Rightarrow> nat \<Rightarrow> bool" where
  "broadcasts_after_minecraft_probe_succeeds addr now elapsed \<longleftrightarrow>
     (let server = start_probe_server 0xFF;
          cfg = test_broadcast (from_millis 20) addr;
          turn = test_turn elapsed SigNone server
      in case start_with_probe now of
           Inl _ \<Rightarrow> False
         | Inr broadcaster \<Rightarrow>
             (let running = broadcaster_move cfg broadcaster turn
              in map fst (bs_log (br_thread running)) = [now + int elapsed]
                 \<and> bc_packet cfg = build_packet (scalars ''sculk'') test_port
                 \<and> stopped_ok (broadcaster_stop cfg running [turn, turn])
                 \<and> join_server server = Inr ()))"

definition pauses_broadcast_when_minecraft_probe_fails :: "socket_addr \<Rightarrow> instant \<Rightarrow> nat \<Rightarrow> bool" where
  "pauses_broadcast_when_minecraft_probe_fails addr now elapsed \<longleftrightarrow>
     (let server = start_probe_server 0;
          cfg = test_broadcast (from_millis 20) addr;
          turn = test_turn elapsed SigNone server
      in case start_with_probe now of
           Inl _ \<Rightarrow> False
         | Inr broadcaster \<Rightarrow>
             (let running = broadcaster_move cfg broadcaster turn
              in bs_log (br_thread running) = []
                 \<and> stopped_ok (broadcaster_stop cfg running [turn])
                 \<and> join_server server = Inr ()))"

text \<open>That the wait is cut short is that the thread returns at its next poll, with nothing more sent.\<close>

definition stop_interrupts_broadcast_wait :: "socket_addr \<Rightarrow> nat \<Rightarrow> bool" where
  "stop_interrupts_broadcast_wait addr elapsed \<longleftrightarrow>
     (let cfg = test_broadcast (from_secs 2) addr;
          turn = (\<lambda>sig. test_turn elapsed sig (start_probe_server 0))
      in case start_with_socket cfg (turn SigNone) [turn SigStop] of
           Inl _ \<Rightarrow> False
         | Inr (result, received) \<Rightarrow> length received = 1 \<and> result = Some (Inr ()))"

lemmas broadcast_test_defs = test_broadcast_def test_turn_def start_with_socket_def start_with_probe_def
  send_packet_def broadcaster_start_thread_def stopped_ok_def lan_handle_new_def

lemma repeated_broadcast_tests_pass:
  "broadcasts_immediately_and_repeatedly addr elapsed" "stop_interrupts_broadcast_wait addr elapsed"
  by (simp_all add: broadcasts_immediately_and_repeatedly_def stop_interrupts_broadcast_wait_def broadcast_test_defs)

lemmas probed_broadcast_defs = thread_move_def broadcast_work_def broadcast_step_def broadcast_result_def
  broadcast_polls_def broadcast_send_def broadcaster_stop_def lan_stop_def stop_poll_def send_stop_def
  stop_channel_new_def saturating_duration_since_def join_test_server

lemma probed_broadcast_tests_pass:
  "elapsed < from_secs 1 \<Longrightarrow> broadcasts_after_minecraft_probe_succeeds addr now elapsed"
  "pauses_broadcast_when_minecraft_probe_fails addr now elapsed"
  by (simp_all add: broadcasts_after_minecraft_probe_succeeds_def pauses_broadcast_when_minecraft_probe_fails_def
      broadcast_test_defs probed_broadcast_defs server_test_defs Let_def)

end
