(* ===== verification/Schedule_Tests.thy ===== *)
theory Schedule_Tests
  imports Token_Policy
begin

text \<open>
  The unit tests of \<^verbatim>\<open>core/src/tunnel/iroh/node.rs\<close> that need no Node: target addresses, the
  rotation schedule, and the token a service starts with. \<^verbatim>\<open>Instant::now()\<close> and the tokens that are
  generated are arguments.
\<close>

definition validates_target_address_boundaries :: bool where
  "validates_target_address_boundaries \<longleftrightarrow>
     validate_target \<lparr>sa_ip = V4 127 0 0 1, sa_port = 1\<rparr> = Inr ()
     \<and> validate_target \<lparr>sa_ip = V6 [0, 0, 0, 0, 0, 0, 0, 1], sa_port = 65535\<rparr> = Inr ()
     \<and> validate_target \<lparr>sa_ip = V4 192 168 1 2, sa_port = 25565\<rparr> = Inl TargetNotLoopback
     \<and> validate_target \<lparr>sa_ip = V4 127 0 0 1, sa_port = 0\<rparr> = Inl InvalidTargetPort"

definition epoch_plus :: "nat \<Rightarrow> system_time" where
  "epoch_plus secs = int (from_secs secs)"

definition rotation_schedule_handles_clock_jumps_without_catch_up :: "instant \<Rightarrow> bool" where
  "rotation_schedule_handles_clock_jumps_without_catch_up monotonic_start \<longleftrightarrow>
     (let start = epoch_plus 1000;
          deadline = start + int (from_secs 120);
          monotonic_deadline = monotonic_start + int (from_secs 120);
          schedule = schedule_new (from_secs 120) deadline monotonic_deadline;
          jumped_forward = start + int (from_secs 500);
          (ok, schedule1) = schedule_reset schedule jumped_forward monotonic_start;
          jumped_backward = start - int (from_secs 500)
      in schedule_delay schedule start monotonic_start = ROTATION_CLOCK_CHECK_MAX
         \<and> should_rotate schedule jumped_forward monotonic_start
         \<and> ok \<and> \<not> should_rotate schedule1 jumped_forward monotonic_start
         \<and> rs_deadline schedule1 = jumped_forward + int (from_secs 120)
         \<and> schedule_delay schedule1 jumped_backward monotonic_start = ROTATION_CLOCK_CHECK_MAX
         \<and> should_rotate schedule1 jumped_backward monotonic_deadline)"

definition rotation_retry_backoff_is_bounded :: "instant \<Rightarrow> bool" where
  "rotation_retry_backoff_is_bounded monotonic_start \<longleftrightarrow>
     (let start = epoch_plus 1000;
          schedule = schedule_new (from_secs 60) start monotonic_start;
          schedule1 = record_failure schedule;
          schedule2 = record_failure schedule1;
          schedule3 = (record_failure ^^ 64) schedule2
      in retry_delay schedule1 = ROTATION_RETRY_MIN
         \<and> retry_delay schedule2 = saturating_mul ROTATION_RETRY_MIN 2
         \<and> retry_delay schedule3 = ROTATION_RETRY_MAX
         \<and> schedule_delay schedule3 start monotonic_start = ROTATION_RETRY_MAX
         \<and> should_rotate schedule3 start monotonic_start)"

definition rejects_unrepresentable_rotation_deadline :: bool where
  "rejects_unrepresentable_rotation_deadline \<longleftrightarrow> rotation_deadline 0 (Some duration_max) = Inl InvalidRefreshPeriod"

text \<open>\<^verbatim>\<open>assert!(r.is_ok())\<close>, and the rest of the test with the resolved state.\<close>

definition resolved_as ::
  "sculk_node_error + resolved_token_state \<Rightarrow> (resolved_token_state \<Rightarrow> bool) \<Rightarrow> bool" where
  "resolved_as r k = (case r of Inl _ \<Rightarrow> False | Inr resolved \<Rightarrow> k resolved)"

definition token_policy_applies_across_publications :: "crates \<Rightarrow> access_token \<Rightarrow> instant \<Rightarrow> bool" where
  "token_policy_applies_across_publications X fresh monotonic_now \<longleftrightarrow>
     (let created_at = epoch_plus 1000;
          now = created_at + int (from_secs 60);
          token = token_filled 0x5a;
          saved = token_state_new token created_at;
          period = from_secs 3600
      in resolved_as (resolve_token_state PolicyAlways (Some saved) fresh now monotonic_now) (\<lambda>always.
           \<not> token_matches X (ts_token (rt_state always)) token \<and> ts_created_at (rt_state always) = now)
         \<and> resolved_as (resolve_token_state PolicyNever (Some saved) fresh now monotonic_now) (\<lambda>never.
           token_matches X (ts_token (rt_state never)) token \<and> ts_created_at (rt_state never) = created_at
           \<and> rt_deadline never = None)
         \<and> resolved_as (resolve_token_state (PolicyAfter period) (Some saved) fresh now monotonic_now) (\<lambda>timed.
           token_matches X (ts_token (rt_state timed)) token \<and> ts_created_at (rt_state timed) = created_at
           \<and> rt_deadline timed = Some (created_at + int period)))"

definition timed_policy_rotates_expired_or_future_state :: "crates \<Rightarrow> access_token \<Rightarrow> instant \<Rightarrow> bool" where
  "timed_policy_rotates_expired_or_future_state X fresh monotonic_now \<longleftrightarrow>
     (let now = epoch_plus 10000;
          period = from_secs 3600;
          token = token_filled 0x5a
      in list_all (\<lambda>created_at.
           resolved_as (resolve_token_state (PolicyAfter period) (Some (token_state_new token created_at)) fresh now
               monotonic_now) (\<lambda>resolved.
             \<not> token_matches X (ts_token (rt_state resolved)) token
             \<and> ts_created_at (rt_state resolved) = now \<and> rt_deadline resolved = Some (now + int period)))
           [now - int period, now + int (from_secs 1)]
         \<and> resolve_token_state (PolicyAfter 0) None fresh now monotonic_now = Inl InvalidRefreshPeriod)"

section \<open>They pass\<close>

lemma schedule_tests_pass:
  "validates_target_address_boundaries"
  "rejects_unrepresentable_rotation_deadline"
  by (simp_all add: validates_target_address_boundaries_def validate_target_def
      rejects_unrepresentable_rotation_deadline_def rotation_deadline_def time_checked_add_def duration_max_def time_max_def
      nanos_per_sec_def)

lemma clock_jump_test_passes:
  assumes "monotonic_start + int (from_secs 120) \<le> time_max"
  shows "rotation_schedule_handles_clock_jumps_without_catch_up monotonic_start"
  using assms
  by (simp add: rotation_schedule_handles_clock_jumps_without_catch_up_def epoch_plus_def schedule_new_def
      schedule_delay_def should_rotate_def schedule_reset_def time_checked_add_def duration_since_def
      saturating_duration_since_def rotation_consts time_max_def)

lemma failures_counted:
  "unat (rs_failure_count s) + n < 2 ^ 32 \<Longrightarrow>
     (record_failure ^^ n) s = s\<lparr>rs_failure_count := of_nat (unat (rs_failure_count s) + n)\<rparr>"
proof (induction n)
  case (Suc n)
  define k where "k = unat (rs_failure_count s) + n"
  have k: "k + 1 < 2 ^ 32" using Suc.prems by (simp add: k_def)
  then have "unat (of_nat k :: u32) = k" by (simp add: unat_of_nat take_bit_eq_mod)
  with k have "of_nat k \<noteq> (- 1 :: u32)" by (auto dest: arg_cong [of _ _ unat])
  then have "saturating_inc (of_nat k :: u32) = of_nat (Suc k)" by (simp add: saturating_inc_def)
  with Suc show ?case by (simp add: record_failure_def k_def)
qed simp

lemma rotation_retry_backoff_is_bounded_passes: "rotation_retry_backoff_is_bounded monotonic_start"
proof -
  define s2 where "s2 = record_failure (record_failure (schedule_new (from_secs 60) (epoch_plus 1000) monotonic_start))"
  have c2: "rs_failure_count s2 = 2"
    by (simp add: s2_def record_failure_def schedule_new_def saturating_inc_def)
  have "(record_failure ^^ 64) s2 = s2\<lparr>rs_failure_count := 66\<rparr>"
    using failures_counted [of s2 64] by (simp add: c2)
  moreover have "retry_delay (s2\<lparr>rs_failure_count := 66\<rparr>) = ROTATION_RETRY_MAX"
    by (simp add: retry_delay_def saturating_dec_def saturating_mul_def saturating_pow2_def rotation_consts duration_max_def)
  moreover have "retry_delay s2 = saturating_mul ROTATION_RETRY_MIN 2"
    by (simp add: retry_delay_def c2 saturating_dec_def saturating_mul_def saturating_pow2_def rotation_consts duration_max_def)
  moreover have "retry_delay (record_failure (schedule_new (from_secs 60) (epoch_plus 1000) monotonic_start)) = ROTATION_RETRY_MIN"
    by (simp add: retry_delay_def record_failure_def schedule_new_def saturating_inc_def saturating_dec_def
        saturating_mul_def saturating_pow2_def rotation_consts duration_max_def)
  ultimately show ?thesis
    unfolding rotation_retry_backoff_is_bounded_def Let_def s2_def [symmetric]
    by (simp add: schedule_delay_def should_rotate_def)
qed

text \<open>The tokens the tests draw differ from the one of the fixture.\<close>

lemma token_policy_test_passes:
  assumes "ct_eq_law X" "fresh \<noteq> token_filled 0x5a" "monotonic_now + int (from_secs 3600) \<le> time_max"
  shows "token_policy_applies_across_publications X fresh monotonic_now"
  using assms
  by (simp add: token_policy_applies_across_publications_def resolved_as_def resolve_token_state_def
      epoch_plus_def token_state_generate_def token_state_new_def token_matches_iff time_checked_add_def
      duration_since_def time_max_def from_secs_def nanos_per_sec_def)

lemma timed_policy_test_passes:
  assumes "ct_eq_law X" "fresh \<noteq> token_filled 0x5a" "monotonic_now + int (from_secs 3600) \<le> time_max"
  shows "timed_policy_rotates_expired_or_future_state X fresh monotonic_now"
  using assms
  by (simp add: timed_policy_rotates_expired_or_future_state_def resolved_as_def resolve_token_state_def
      epoch_plus_def token_state_generate_def token_state_new_def token_matches_iff time_checked_add_def
      duration_since_def time_max_def from_secs_def nanos_per_sec_def)

end
