(* ===== verification/Node_Tests.thy ===== *)
theory Node_Tests
  imports Status_Watch
begin

text \<open>
  The unit tests of \<^verbatim>\<open>core/src/tunnel/iroh/node.rs\<close> that publish services on a Node. Service ids,
  tokens and times that a test draws are arguments. What the tests wait for is what has happened
  once nothing is left to do.
\<close>

section \<open>Fixtures\<close>

definition test_options ::
  "service_id \<Rightarrow> u16 \<Rightarrow> token_state option \<Rightarrow> token_refresh_policy \<Rightarrow> hosted_service_options" where
  "test_options sid port saved policy =
     \<lparr>so_service_id = sid, so_target_addr = \<lparr>sa_ip = V4 127 0 0 1, sa_port = port\<rparr>, so_token_state = saved,
      so_token_refresh = policy, so_config = host_config_default\<rparr>"

text \<open>\<^verbatim>\<open>assert!(r.is_ok()); let Ok(x) = r else { return }\<close> for binding and for starting a service.\<close>

definition bound_with :: "node_options \<Rightarrow> endpoint_id \<Rightarrow> (node \<Rightarrow> bool) \<Rightarrow> bool" where
  "bound_with opts endpoint k = (case node_bind endpoint opts (Inr ()) of Inl _ \<Rightarrow> False | Inr n \<Rightarrow> k n)"

definition bound :: "endpoint_id \<Rightarrow> (node \<Rightarrow> bool) \<Rightarrow> bool" where
  "bound = bound_with node_options_default"

definition service_started ::
  "crates \<Rightarrow> hosted_service_options \<Rightarrow> access_token \<Rightarrow> system_time \<Rightarrow> instant \<Rightarrow> node
     \<Rightarrow> (service_id \<Rightarrow> node \<Rightarrow> bool) \<Rightarrow> bool" where
  "service_started X opts fresh now mt n k =
     (case start_service X opts fresh now mt n of (Inl _, n') \<Rightarrow> False | (Inr handle, n') \<Rightarrow> k handle n')"

text \<open>\<^verbatim>\<open>SculkNode::rotate_token\<close>, with nothing else in between.\<close>

definition rotate_token ::
  "crates \<Rightarrow> service_id \<Rightarrow> access_token \<Rightarrow> system_time \<Rightarrow> node \<Rightarrow> (sculk_node_error + join_uri) \<times> node" where
  "rotate_token X sid fresh now n =
     (case rotate_begin X sid None True fresh now n of
        (Inl e, n') \<Rightarrow> (Inl e, n')
      | (Inr pr, n') \<Rightarrow> rotate_finish pr n')"

definition uri_of :: "service_id \<Rightarrow> node \<Rightarrow> join_uri option" where
  "uri_of sid n = (case handle_join_uri sid n of Some (Inr uri) \<Rightarrow> Some uri | _ \<Rightarrow> None)"

definition status_of :: "service_id \<Rightarrow> node \<Rightarrow> hosted_service_status option" where
  "status_of sid n = (case handle_status sid n of Inl _ \<Rightarrow> None | Inr st \<Rightarrow> Some st)"

text \<open>What a service has sent to its subscribers since an earlier moment.\<close>

definition events_since :: "service_id \<Rightarrow> node \<Rightarrow> node \<Rightarrow> tunnel_event list" where
  "events_since sid n n' =
     (case (lookup_service n sid, lookup_service n' sid) of
        (Some i, Some j) \<Rightarrow>
          drop (length (ch_queue (hw_events (sv_world (nd_objects n ! i))))) (ch_queue (hw_events (sv_world (nd_objects n' ! j))))
      | _ \<Rightarrow> [])"

section \<open>What the fixtures do\<close>

definition empty_node :: "endpoint_id \<Rightarrow> nat \<Rightarrow> node" where
  "empty_node endpoint slots =
     \<lparr>nd_endpoint_id = endpoint, nd_relay_url = None, nd_services = [], nd_objects = [], nd_session_next = 1,
      nd_slots = slots, nd_tasks = [], nd_rotations = [], nd_closes = [], nd_open = True\<rparr>"

lemma bound_empty: "bound endpoint k = k (empty_node endpoint 128)"
  by (simp add: bound_def bound_with_def node_bind_def node_options_default_def empty_node_def
      NODE_UNAUTHENTICATED_CONNECTIONS_MAX_def)

lemma exposes_direct:
  assumes "base64_law X" "ju_relay_url u = None"
  shows "is_ok (expose_secret_uri X u)"
proof -
  obtain s where "expose_secret_uri X u = Inr s"
    using assms(2) by (simp add: expose_Inr [OF assms(1)] join_payload_Inr)
  then show ?thesis by simp
qed

lemma is_ok_case: "is_ok r \<Longrightarrow> (case r of Inl e \<Rightarrow> f e | Inr a \<Rightarrow> b) = b"
  by (cases r) simp_all

lemma node_uri_direct:
  assumes "base64_law X" "nd_relay_url n = None"
  shows "is_ok (expose_secret_uri X (node_join_uri_value n sid token))"
  using assms by (intro exposes_direct) (simp_all add: node_join_uri_value_def join_uri_new_def)

lemma start_on_node:
  assumes "base64_law X" "nd_relay_url n = None" "nd_session_next n \<noteq> - 1"
    and "validate_target (so_target_addr opts) = Inr ()"
    and "resolve_token_state (so_token_refresh opts) (so_token_state opts) fresh now mt = Inr resolved"
  shows "start_service X opts fresh now mt n =
    (if lookup_service n (so_service_id opts) = None
     then (Inr (so_service_id opts), with_new_service (new_service opts resolved (nd_session_next n))
             (n\<lparr>nd_session_next := nd_session_next n + 1\<rparr>))
     else (Inl DuplicateService, n\<lparr>nd_session_next := nd_session_next n + 1\<rparr>))"
  using assms node_uri_direct [OF assms(1,2)]
  by (simp add: start_service_def is_ok_case checked_inc_def lookup_service_def with_new_service_def new_service_def Let_def)

lemma test_options_simps [simp]:
  "so_service_id (test_options sid port saved policy) = sid" "so_token_state (test_options sid port saved policy) = saved"
  "so_token_refresh (test_options sid port saved policy) = policy"
  "so_config (test_options sid port saved policy) = host_config_default"
  "port \<noteq> 0 \<Longrightarrow> validate_target (so_target_addr (test_options sid port saved policy)) = Inr ()"
  by (simp_all add: test_options_def validate_target_def)

lemma resolve_simps [simp]:
  "resolve_token_state PolicyAlways saved fresh now mt =
     Inr \<lparr>rt_state = token_state_new fresh now, rt_refresh = None, rt_deadline = None, rt_deadline_monotonic = None\<rparr>"
  "resolve_token_state PolicyNever None fresh now mt =
     Inr \<lparr>rt_state = token_state_new fresh now, rt_refresh = None, rt_deadline = None, rt_deadline_monotonic = None\<rparr>"
  "resolve_token_state PolicyNever (Some st) fresh now mt =
     Inr \<lparr>rt_state = st, rt_refresh = None, rt_deadline = None, rt_deadline_monotonic = None\<rparr>"
  by (simp_all add: resolve_token_state_def token_state_generate_def)

lemma new_service_simps [simp]:
  "sv_target (new_service opts r g) = so_target_addr opts" "sv_token (new_service opts r g) = ts_token (rt_state r)"
  "sv_service_id (new_service opts r g) = so_service_id opts" "\<not> sv_rotating (new_service opts r g)"
  "sv_rotation (new_service opts r g) = 0" "sv_session_generation (new_service opts r g) = g"
  "sv_token_refresh (new_service opts r g) = rt_refresh r"
  "sv_world (new_service opts r g) = host_world_new (host_context_new (hc_event_delay (so_config opts)) (so_service_id opts)
     (ts_token (rt_state r)) (hc_max_players (so_config opts))
     (Some (hosted_status_new (so_service_id opts) (ts_created_at (rt_state r)) (rt_deadline r))))"
  by (simp_all add: new_service_def Let_def)

lemma token_state_simps [simp]:
  "ts_token (token_state_new t at) = t" "ts_created_at (token_state_new t at) = at"
  by (simp_all add: token_state_new_def)

lemma apply_rotation_unlocked:
  "\<not> sv_rotating sv \<Longrightarrow> (apply_rotation pr (sv\<lparr>sv_rotating := True\<rparr>))\<lparr>sv_rotating := False\<rparr> = apply_rotation pr sv"
  by (cases sv) (simp add: apply_rotation_def Let_def)

lemma apply_rotation_simps [simp]:
  "sv_token (apply_rotation pr sv) = pr_token pr" "sv_service_id (apply_rotation pr sv) = sv_service_id sv"
  "sv_rotating (apply_rotation pr sv) = sv_rotating sv" "sv_token_refresh (apply_rotation pr sv) = sv_token_refresh sv"
  "sv_session_generation (apply_rotation pr sv) = sv_session_generation sv"
  "hw_ctx (sv_world (apply_rotation pr sv)) = hw_ctx (on_status (rotate_uri (pr_created_at pr) (pr_next_at pr)) (sv_world sv))"
  "hw_events (sv_world (apply_rotation pr sv)) = emit_event (hw_events (sv_world sv)) TokenRotated"
  by (simp_all add: apply_rotation_def Let_def on_status_def)

lemma status_new_simps [simp]:
  "hx_current (hosted_status_new sid created next_at) =
     \<lparr>st_service_id = sid, st_phase = Active, st_uri_generation = 1, st_token_created_at = created,
      st_next_rotation_at = next_at, st_connection_count = 0, st_bridge_count = 0, st_last_error = None\<rparr>"
  "hx_published (hosted_status_new sid created next_at) = hx_current (hosted_status_new sid created next_at)"
  "hx_version (hosted_status_new sid created next_at) = 0"
  by (simp_all add: hosted_status_new_def Let_def)

lemma rotate_token_eq:
  assumes "base64_law X" "nd_relay_url n = None" "lookup_service n sid = Some i" "\<not> sv_rotating (nd_objects n ! i)"
    and "i < length (nd_objects n)" "nd_rotations n = []"
    and "rotation_deadline now (sv_token_refresh (nd_objects n ! i)) = Inr next_at"
  shows "rotate_token X sid fresh now n =
    (Inr (node_join_uri_value n (sv_service_id (nd_objects n ! i)) fresh),
     update_object i (apply_rotation \<lparr>pr_object = i, pr_service_id = sid, pr_token = fresh, pr_created_at = now,
       pr_next_at = next_at, pr_reset_timer = True\<rparr>) n)"
proof -
  define pr where "pr = \<lparr>pr_object = i, pr_service_id = sid, pr_token = fresh, pr_created_at = now,
    pr_next_at = next_at, pr_reset_timer = True\<rparr>"
  have "rotate_begin X sid None True fresh now n
      = (Inr pr, update_object i (\<lambda>s. s\<lparr>sv_rotating := True\<rparr>) (n\<lparr>nd_rotations := [pr]\<rparr>))"
    using assms node_uri_direct [OF assms(1,2)] by (simp add: rotate_begin_def is_ok_case Let_def pr_def)
  moreover have "(apply_rotation pr ((nd_objects n ! i)\<lparr>sv_rotating := True\<rparr>))\<lparr>sv_rotating := False\<rparr>
      = apply_rotation pr (nd_objects n ! i)"
    by (rule apply_rotation_unlocked [OF assms(4)])
  ultimately show ?thesis
    using assms(3,5,6) unfolding rotate_token_def pr_def [symmetric]
    by (simp add: rotate_finish_alt pr_def release_rotation_def update_object_def lookup_service_def
        node_join_uri_value_def)
qed

lemma resolve_fresh_after:
  assumes "p > 0" "now + int p \<le> time_max" "mt + int p \<le> time_max"
  shows "resolve_token_state (PolicyAfter p) None fresh now mt =
    Inr \<lparr>rt_state = token_state_new fresh now, rt_refresh = Some p, rt_deadline = Some (now + int p),
      rt_deadline_monotonic = Some (mt + int p)\<rparr>"
  using assms by (simp add: resolve_token_state_def token_state_generate_def Let_def time_checked_add_def duration_since_def)

lemma node_close_simps [simp]: "nd_services (node_close net n) = []" "\<not> nd_open (node_close net n)"
proof -
  have "nd_services (fold (\<lambda>(_, i). update_object i (stop_object net r)) xs m) = nd_services m" for r m and xs :: "(service_id \<times> nat) list"
    by (induction xs arbitrary: m) (auto simp: update_object_def)
  then show "nd_services (node_close net n) = []" "\<not> nd_open (node_close net n)" by (simp_all add: node_close_def Let_def)
qed

lemma stop_object_ctx [simp]:
  "ct_status (hw_ctx (sv_world (stop_object net r sv)))
     = map_option (set_phase Stopped \<circ> set_phase Stopping) (ct_status (hw_ctx (sv_world sv)))"
  by (simp add: stop_object_def on_world_def on_status_def drain_conns_def Let_def option.map_comp)

text \<open>A service of a Node, by its parts.\<close>

lemmas node_parts = with_new_service_def lookup_service_def update_object_def empty_node_def
  handle_join_uri_def handle_status_def service_status_def status_snapshot_def node_join_uri_value_def
  host_world_new_def host_context_new_def uri_of_def status_of_def events_since_def
  service_started_def bound_empty

section \<open>Service ids and rotation conflicts\<close>

definition rejects_duplicate_service_ids ::
  "crates \<Rightarrow> endpoint_id \<Rightarrow> service_id \<Rightarrow> access_token \<Rightarrow> access_token \<Rightarrow> system_time \<Rightarrow> instant \<Rightarrow> bool" where
  "rejects_duplicate_service_ids X endpoint service_id fresh fresh' now mt \<longleftrightarrow>
     bound endpoint (\<lambda>node.
     service_started X (test_options service_id 25565 None PolicyAlways) fresh now mt node (\<lambda>first node.
       case start_service X (test_options service_id 25566 None PolicyAlways) fresh' now mt node of
         (duplicate, node) \<Rightarrow> duplicate = Inl DuplicateService \<and> length (nd_services node) = 1))"

lemma rejects_duplicate_service_ids_passes:
  "base64_law X \<Longrightarrow> rejects_duplicate_service_ids X endpoint service_id fresh fresh' now mt"
  by (simp add: rejects_duplicate_service_ids_def start_on_node node_parts)

text \<open>The test holds the rotation mutex itself while it calls \<^verbatim>\<open>rotate_token\<close>.\<close>

definition rotation_conflict_preserves_current_uri ::
  "crates \<Rightarrow> endpoint_id \<Rightarrow> service_id \<Rightarrow> access_token \<Rightarrow> access_token \<Rightarrow> system_time \<Rightarrow> instant \<Rightarrow> bool" where
  "rotation_conflict_preserves_current_uri X endpoint service_id fresh fresh' now mt \<longleftrightarrow>
     bound endpoint (\<lambda>node.
     service_started X (test_options service_id 25565 None PolicyAlways) fresh now mt node (\<lambda>service node.
       case (uri_of service node, lookup_service node service_id) of
         (Some current_uri, Some hosted) \<Rightarrow>
           (let locked = update_object hosted (\<lambda>s. s\<lparr>sv_rotating := True\<rparr>) node;
                (result, node) = rotate_token X service fresh' now locked;
                node = update_object hosted (\<lambda>s. s\<lparr>sv_rotating := False\<rparr>) node
            in result = Inl RotationInProgress
               \<and> (case uri_of service node of
                    None \<Rightarrow> False
                  | Some after_conflict \<Rightarrow> token_matches X (ju_token current_uri) (ju_token after_conflict))
               \<and> map_option st_uri_generation (status_of service node) = Some 1)
       | _ \<Rightarrow> False))"

lemma rotation_conflict_test_passes:
  "base64_law X \<Longrightarrow> ct_eq_law X \<Longrightarrow>
     rotation_conflict_preserves_current_uri X endpoint service_id fresh fresh' now mt"
  by (simp add: rotation_conflict_preserves_current_uri_def start_on_node node_parts rotate_token_def rotate_begin_def
      join_uri_new_def token_matches_iff)

definition rotation_failure_updates_status_and_warning_event ::
  "crates \<Rightarrow> endpoint_id \<Rightarrow> service_id \<Rightarrow> access_token \<Rightarrow> system_time \<Rightarrow> instant \<Rightarrow> bool" where
  "rotation_failure_updates_status_and_warning_event X endpoint service_id fresh now mt \<longleftrightarrow>
     bound endpoint (\<lambda>node.
     service_started X (test_options service_id 25565 None PolicyAlways) fresh now mt node (\<lambda>service node.
       case map_option (\<lambda>i. sv_session_generation (nd_objects node ! i)) (lookup_service node service_id) of
         None \<Rightarrow> False
       | Some session_generation \<Rightarrow>
           (let node' = record_rotation_failure service_id session_generation CatInternal ROTATION_RETRY_MIN node
            in Option.bind (status_of service node') st_last_error = Some CatInternal
               \<and> events_since service node node' = [TokenRotationFailed ROTATION_RETRY_MIN])))"

lemma rotation_failure_test_passes:
  "base64_law X \<Longrightarrow> rotation_failure_updates_status_and_warning_event X endpoint service_id fresh now mt"
  by (simp add: rotation_failure_updates_status_and_warning_event_def start_on_node node_parts
      record_rotation_failure_def on_world_def on_status_def emit_event_def channel_new_def EVENT_CHANNEL_SIZE_def)

section \<open>Publishing and unpublishing\<close>

text \<open>One \<^verbatim>\<open>recv\<close> on the status of service object \<open>i\<close>; \<open>None\<close> also if it would wait.\<close>

definition recv_status :: "nat \<Rightarrow> node \<Rightarrow> status_subscription \<Rightarrow> hosted_service_status option \<times> status_subscription" where
  "recv_status i n sub =
     (case object_watch i n of
        None \<Rightarrow> (None, sub)
      | Some h \<Rightarrow>
          (case status_recv h True sub of
             (Some r, sub') \<Rightarrow> (r, sub')
           | (None, sub') \<Rightarrow> (None, sub')))"

definition stopping_one_service_keeps_node_and_other_service ::
  "crates \<Rightarrow> net_view \<Rightarrow> endpoint_id \<Rightarrow> service_id \<Rightarrow> service_id \<Rightarrow> access_token \<Rightarrow> access_token \<Rightarrow> access_token
     \<Rightarrow> system_time \<Rightarrow> instant \<Rightarrow> bool" where
  "stopping_one_service_keeps_node_and_other_service X net endpoint first_id second_id fresh fresh' fresh'' now mt \<longleftrightarrow>
     bound endpoint (\<lambda>node.
     service_started X (test_options first_id 25565 None PolicyAlways) fresh now mt node (\<lambda>first node.
       case (handle_subscribe_status first node, lookup_service node first) of
         (Inr first_status, Some first_object) \<Rightarrow>
           (let (initial, first_status) = recv_status first_object node first_status
            in (case initial of
                  None \<Rightarrow> False
                | Some st \<Rightarrow> st_phase st = Active \<and> st_uri_generation st = 1 \<and> st_connection_count st = 0 \<and> st_bridge_count st = 0)
               \<and> service_started X (test_options second_id 25566 None (PolicyAfter (from_millis 20))) fresh' now mt node
                  (\<lambda>second node.
                    let status = node_status node
                    in ns_endpoint_id status = nd_endpoint_id node \<and> ns_online status \<and> ns_relay_url status = None
                       \<and> ns_service_count status = 2 \<and> ns_unauthenticated_connection_count status = 0
                       \<and> ns_unauthenticated_connections_max status = NODE_UNAUTHENTICATED_CONNECTIONS_MAX
                       \<and> map_option st_connection_count (status_of second node) = Some 0
                       \<and> (case (uri_of second node, rotate_token X second fresh'' now node) of
                            (Some first_uri, Inr rotated_uri, node') \<Rightarrow>
                              ju_endpoint_id first_uri = ju_endpoint_id rotated_uri
                              \<and> ju_service_id first_uri = ju_service_id rotated_uri
                              \<and> \<not> token_matches X (ju_token first_uri) (ju_token rotated_uri)
                              \<and> map_option st_uri_generation (status_of second node') = Some 2
                              \<and> events_since second node node' = [TokenRotated]
                              \<and> length (nd_services node') = 2
                              \<and> (let (stopped, node'') = stop_service net first node';
                                     closed = node_status (node_close net node'')
                                 in stopped = Inr ()
                                    \<and> map_option st_phase (fst (recv_status first_object node'' first_status)) = Some Stopped
                                    \<and> handle_status first node'' = Inl ServiceNotFound
                                    \<and> length (nd_services node'') = 1
                                    \<and> uri_of second node'' \<noteq> None
                                    \<and> \<not> ns_online closed \<and> ns_service_count closed = 0)
                          | _ \<Rightarrow> False)))
       | _ \<Rightarrow> False))"

definition token_policy_controls_uri_across_node_restarts ::
  "crates \<Rightarrow> access_token \<Rightarrow> access_token \<Rightarrow> access_token \<Rightarrow> system_time \<Rightarrow> instant \<Rightarrow> bool" where
  "token_policy_controls_uri_across_node_restarts X fresh fresh' fresh'' now mt \<longleftrightarrow>
     (let secret_key = secret_filled 0x3c;
          service_id = service_filled 0x4b;
          opts = node_options_default\<lparr>no_secret_key := Some secret_key\<rparr>;
          endpoint = cr_public X secret_key
      in bound_with opts endpoint (\<lambda>first.
         service_started X (test_options service_id 25565 None PolicyNever) fresh now mt first (\<lambda>first_service first.
           case (uri_of first_service first, handle_token_state first_service first) of
             (Some first_uri, Some (Inr saved)) \<Rightarrow>
               bound_with opts endpoint (\<lambda>second.
               service_started X (test_options service_id 25565 (Some saved) PolicyNever) fresh' now mt second (\<lambda>never second.
                 uri_of never second = Some first_uri \<and>
                 bound_with opts endpoint (\<lambda>third.
                 service_started X (test_options service_id 25565 (Some saved) PolicyAlways) fresh'' now mt third (\<lambda>always third.
                   uri_of always third \<noteq> Some first_uri))))
           | _ \<Rightarrow> False)))"

definition bounds_unauthenticated_connections_globally ::
  "crates \<Rightarrow> (conn_id \<Rightarrow> endpoint_id) \<Rightarrow> endpoint_id \<Rightarrow> conn_id \<Rightarrow> bool" where
  "bounds_unauthenticated_connections_globally X remote endpoint conn_a \<longleftrightarrow>
     bound_with (node_options_default\<lparr>no_unauthenticated_connections_max := 1\<rparr>) endpoint (\<lambda>node.
       let bounded = node_status (node_step X remote node (NodeIncoming conn_a))
       in ns_unauthenticated_connection_count bounded = 1 \<and> ns_unauthenticated_connections_max bounded = 1)"

lemma bounds_unauthenticated_test_passes: "bounds_unauthenticated_connections_globally X remote endpoint conn_a"
  by (simp add: bounds_unauthenticated_connections_globally_def bound_with_def node_bind_def node_options_default_def
      node_status_def node_task_of_def set_node_task_def)

lemma restart_bound:
  "bound_with (node_options_default\<lparr>no_secret_key := sk\<rparr>) endpoint k = k (empty_node endpoint 128)"
  by (simp add: bound_with_def node_bind_def node_options_default_def empty_node_def
      NODE_UNAUTHENTICATED_CONNECTIONS_MAX_def)

lemma token_policy_restart_test_passes:
  "base64_law X \<Longrightarrow> fresh \<noteq> fresh'' \<Longrightarrow> token_policy_controls_uri_across_node_restarts X fresh fresh' fresh'' now mt"
  by (simp add: token_policy_controls_uri_across_node_restarts_def restart_bound start_on_node node_parts
      handle_token_state_def join_uri_new_def)

lemma stopping_one_service_test_passes:
  assumes "base64_law X" "ct_eq_law X" "first_id \<noteq> second_id" "fresh' \<noteq> fresh''"
    and "now + 20000000 \<le> time_max" "mt + 20000000 \<le> time_max"
  shows "stopping_one_service_keeps_node_and_other_service X net endpoint first_id second_id fresh fresh' fresh'' now mt"
  using assms
  by (simp add: stopping_one_service_keeps_node_and_other_service_def start_on_node resolve_fresh_after node_parts
     from_millis_def rotate_token_eq rotation_deadline_def time_checked_add_def recv_status_def object_watch_def
     handle_subscribe_status_def status_subscribe_def status_recv_def node_status_def join_uri_new_def token_matches_iff
     NODE_UNAUTHENTICATED_CONNECTIONS_MAX_def)
    (simp add: stop_service_def node_parts saturating_inc_def emit_event_def channel_new_def
     EVENT_CHANNEL_SIZE_def status_recv_def set_phase_def status_update_def Let_def)

end
