(* ===== verification/Guest_Tests.thy ===== *)
theory Guest_Tests
  imports Node_Tests Iroh_Tunnel
begin

text \<open>
  The unit tests of \<^verbatim>\<open>core/src/tunnel/iroh/node.rs\<close> in which guests join the services of a Node. A
  connection is a number, and its client an endpoint by \<open>remote\<close>; a guest is the client side of the
  handshake over the Node's answer, and then the tunnel that \<open>join_to\<close> sets up.
\<close>

section \<open>Guests\<close>

text \<open>A guest sends the request of its URI on connection \<open>c\<close>, and the Node routes it.\<close>

definition handshake ::
  "crates \<Rightarrow> (conn_id \<Rightarrow> endpoint_id) \<Rightarrow> conn_id \<Rightarrow> join_uri \<Rightarrow> node \<Rightarrow> (sculk_error + unit) \<times> node" where
  "handshake X remote c uri n =
     (let request = encode_request \<lparr>cq_service_id = ju_service_id uri, cq_token = ju_token uri\<rparr>;
          (result, answer, n') = route_connection X remote c (request_stream request) n
      in (fst (auth_send None (answer_stream answer) (ju_service_id uri) (ju_token uri)), n'))"

text \<open>\<open>join_direct\<close>: dialling the Node gives connection \<open>c\<close>; the rest is the guest's \<open>join_to\<close>.\<close>

definition join_direct ::
  "crates \<Rightarrow> (conn_id \<Rightarrow> endpoint_id) \<Rightarrow> join_env \<Rightarrow> conn_id \<Rightarrow> join_uri \<Rightarrow> u16 \<Rightarrow> join_config \<Rightarrow> node
     \<Rightarrow> (sculk_error + iroh_tunnel \<times> join_supervisor) \<times> node" where
  "join_direct X remote env c uri local_port config n =
     (case handshake X remote c uri n of
        (auth, n') \<Rightarrow>
          (fst (join_to (env\<lparr>je_dial := \<lparr>dn_connect = (\<lambda>_. Inr c), dn_auth = (\<lambda>_. auth)\<rparr>\<rparr>)
             (\<lambda>_. nd_endpoint_id n) uri local_port config), n'))"

definition join_node ::
  "crates \<Rightarrow> (conn_id \<Rightarrow> endpoint_id) \<Rightarrow> join_env \<Rightarrow> conn_id \<Rightarrow> join_uri \<Rightarrow> node
     \<Rightarrow> (sculk_error + iroh_tunnel \<times> join_supervisor) \<times> node" where
  "join_node X remote env c uri n = join_direct X remote env c uri 0 join_config_default n"

text \<open>An environment in which a guest can bind its endpoint and its listener.\<close>

definition guest_ready :: "join_env \<Rightarrow> bool" where
  "guest_ready env \<longleftrightarrow> (\<exists>e. \<forall>b. je_bind env b = Inr e) \<and> \<not> je_poisoned env
     \<and> (\<forall>p. je_listen env p = Inr ()) \<and> (\<exists>addr. je_local_addr env = Inr addr)"

section \<open>What a guest gets\<close>

text \<open>The handshake says exactly whether the token was right, and so does the join.\<close>

lemma handshake_eq:
  assumes "ct_eq_law X"
  shows "handshake X remote c uri n =
    (case lookup_service n (ju_service_id uri) of
       Some i \<Rightarrow>
         if sv_token (nd_objects n ! i) = ju_token uri
         then (Inr (), update_object i (on_world (start_authenticated_host_connection X remote c id)) n)
         else (Inl (TunnelErr AuthRejectedByHost), close_unauthenticated c n)
     | None \<Rightarrow> (Inl (TunnelErr AuthRejectedByHost), close_unauthenticated c n))"
  by (auto simp: handshake_def route_connection_def auth_accept_request auth_respond_ok token_valid_def
      token_matches_iff [OF assms] auth_send_def auth_send_inner_def answer_stream_def read_to_end_def CONTROL_OK_def
      split: option.split)

lemma dial_at_once:
  "connect_with_retry config \<lparr>dn_connect = (\<lambda>_. Inr c), dn_auth = (\<lambda>_. auth)\<rparr>
     = (and_then auth (\<lambda>_. Inr c), [DialConnect, DialAuth])"
  by (simp add: connect_with_retry_def connect_attempts_tried failed_attempt_def before_attempt_def)

definition joined_supervisor :: "endpoint_id \<Rightarrow> conn_id \<Rightarrow> join_supervisor" where
  "joined_supervisor host c =
     join_supervisor_new [\<lparr>tc_remote_id = host, tc_handle = c\<rparr>] (emit_event (channel_new EVENT_CHANNEL_SIZE) Connected) c"

lemma join_direct_ok:
  assumes "guest_ready env" "handshake X remote c uri n = (Inr (), n')"
  shows "\<exists>t. join_direct X remote env c uri port config n = (Inr (t, joined_supervisor (nd_endpoint_id n) c), n')
    \<and> it_local_addr t \<noteq> None"
proof -
  obtain e addr where env: "\<forall>b. je_bind env b = Inr e" "je_local_addr env = Inr addr"
      "\<not> je_poisoned env" "\<forall>p. je_listen env p = Inr ()"
    using assms(1) by (auto simp: guest_ready_def)
  with assms(2) show ?thesis
    by (simp add: join_direct_def join_to_def Let_def dial_at_once lock_mutex_def joined_supervisor_def tunnel_new_def)
qed

lemma join_direct_refused:
  assumes "guest_ready env" "handshake X remote c uri n = (Inl e, n')"
  shows "join_direct X remote env c uri port config n = (Inl e, n')"
proof -
  obtain ep where "\<forall>b. je_bind env b = Inr ep" using assms(1) by (auto simp: guest_ready_def)
  with assms(2) show ?thesis by (simp add: join_direct_def join_to_def Let_def dial_at_once)
qed

lemma join_node_cases:
  assumes "ct_eq_law X" "guest_ready env"
  shows "lookup_service n (ju_service_id uri) = Some i \<Longrightarrow> sv_token (nd_objects n ! i) = ju_token uri \<Longrightarrow>
      \<exists>t. join_node X remote env c uri n = (Inr (t, joined_supervisor (nd_endpoint_id n) c),
        update_object i (on_world (start_authenticated_host_connection X remote c id)) n) \<and> it_local_addr t \<noteq> None"
    and "lookup_service n (ju_service_id uri) = Some i \<Longrightarrow> sv_token (nd_objects n ! i) \<noteq> ju_token uri \<Longrightarrow>
      join_node X remote env c uri n = (Inl (TunnelErr AuthRejectedByHost), close_unauthenticated c n)"
    and "lookup_service n (ju_service_id uri) = None \<Longrightarrow>
      join_node X remote env c uri n = (Inl (TunnelErr AuthRejectedByHost), close_unauthenticated c n)"
  using join_direct_ok [OF assms(2)] join_direct_refused [OF assms(2)]
  by (simp_all add: join_node_def handshake_eq [OF assms(1)])

section \<open>Joining\<close>

definition rejects_unknown_service_and_wrong_token_identically ::
  "crates \<Rightarrow> (conn_id \<Rightarrow> endpoint_id) \<Rightarrow> join_env \<Rightarrow> endpoint_id \<Rightarrow> service_id \<Rightarrow> service_id \<Rightarrow> access_token
     \<Rightarrow> access_token \<Rightarrow> access_token \<Rightarrow> system_time \<Rightarrow> instant \<Rightarrow> bool" where
  "rejects_unknown_service_and_wrong_token_identically X remote env endpoint service_id other_service token other_token
       fresh now mt \<longleftrightarrow>
     bound endpoint (\<lambda>node.
     service_started X (test_options service_id 25565 (Some (token_state_new token now)) PolicyNever) fresh now mt node
      (\<lambda>started node.
       list_all (\<lambda>(c, requested_service, requested_token).
         let uri = join_uri_new (nd_endpoint_id node) requested_service requested_token None
         in fst (join_node X remote env c uri node) = Inl (TunnelErr AuthRejectedByHost))
       [(0, other_service, token), (1, service_id, other_token)]))"

lemma rejects_identically_passes:
  assumes "base64_law X" "ct_eq_law X" "guest_ready env" "other_service \<noteq> service_id" "other_token \<noteq> token"
  shows "rejects_unknown_service_and_wrong_token_identically X remote env endpoint service_id other_service token
    other_token fresh now mt"
  using assms(1,4,5)
  by (auto simp: rejects_unknown_service_and_wrong_token_identically_def start_on_node node_parts
      join_node_cases(2,3) [OF assms(2,3)] join_uri_new_def)

text \<open>The second stream is there before the request has been read; the Node then closes the connection.\<close>

definition rejects_additional_stream_before_authentication ::
  "crates \<Rightarrow> (conn_id \<Rightarrow> endpoint_id) \<Rightarrow> endpoint_id \<Rightarrow> conn_id \<Rightarrow> box_error + bytes \<Rightarrow> bool" where
  "rejects_additional_stream_before_authentication X remote endpoint conn unread \<longleftrightarrow>
     bound endpoint (\<lambda>node.
       let io = \<lparr>as_accept = Inr 0, as_extra = Some (Inr ()), as_read = unread, as_write = Inr (), as_finish = Inr ()\<rparr>;
           (result, answer, node') = route_connection X remote conn io node
       in list_ex (\<lambda>(c, code, reason). c = conn \<and> code = CLOSE_AUTH_FAILED) (nd_closes node'))"

lemma rejects_additional_stream_passes:
  "rejects_additional_stream_before_authentication X remote endpoint conn unread"
  by (simp add: rejects_additional_stream_before_authentication_def bound_empty route_connection_def auth_accept_def
      auth_refuse_def auth_respond_def close_unauthenticated_def empty_node_def)

definition rejects_old_uri_after_token_rotation ::
  "crates \<Rightarrow> (conn_id \<Rightarrow> endpoint_id) \<Rightarrow> join_env \<Rightarrow> endpoint_id \<Rightarrow> service_id \<Rightarrow> access_token \<Rightarrow> access_token
     \<Rightarrow> system_time \<Rightarrow> instant \<Rightarrow> bool" where
  "rejects_old_uri_after_token_rotation X remote env endpoint service_id fresh fresh' now mt \<longleftrightarrow>
     bound endpoint (\<lambda>node.
     service_started X (test_options service_id 25565 None PolicyAlways) fresh now mt node (\<lambda>service node.
       case (uri_of service node, rotate_token X service fresh' now node) of
         (Some old_uri, Inr rotated_uri, node) \<Rightarrow>
           (let (old_join, node) = join_node X remote env 0 old_uri node;
                (new_join, node) = join_node X remote env 1 rotated_uri node
            in \<not> is_ok old_join \<and> is_ok new_join)
       | _ \<Rightarrow> False))"

lemma rejects_old_uri_passes:
  assumes "base64_law X" "ct_eq_law X" "guest_ready env" "fresh \<noteq> fresh'"
  shows "rejects_old_uri_after_token_rotation X remote env endpoint service_id fresh fresh' now mt"
proof -
  have ok: "is_ok (fst (join_node X remote env c uri n))"
    if "lookup_service n (ju_service_id uri) = Some i" "sv_token (nd_objects n ! i) = ju_token uri" for c uri n i
    using join_node_cases(1) [OF assms(2,3) that, of remote c] by auto
  show ?thesis
    using assms(1,4)
    by (simp add: rejects_old_uri_after_token_rotation_def start_on_node node_parts rotate_token_eq rotation_deadline_def
        join_node_cases(2) [OF assms(2,3)] join_uri_new_def close_unauthenticated_def case_prod_beta)
      (rule ok [where i = 0], simp_all add: lookup_service_def)
qed

text \<open>Port \<open>port\<close> is taken: listening on it fails.\<close>

definition reports_fixed_local_port_conflict ::
  "crates \<Rightarrow> (conn_id \<Rightarrow> endpoint_id) \<Rightarrow> join_env \<Rightarrow> endpoint_id \<Rightarrow> service_id \<Rightarrow> access_token \<Rightarrow> u16 \<Rightarrow> io_error
     \<Rightarrow> system_time \<Rightarrow> instant \<Rightarrow> bool" where
  "reports_fixed_local_port_conflict X remote env endpoint service_id fresh port in_use now mt \<longleftrightarrow>
     bound endpoint (\<lambda>node.
     service_started X (test_options service_id 25565 None PolicyAlways) fresh now mt node (\<lambda>service node.
       case uri_of service node of
         None \<Rightarrow> False
       | Some uri \<Rightarrow>
           (let occupied = env\<lparr>je_listen := (\<lambda>p. if p = port then Inl (BoxIo in_use) else je_listen env p)\<rparr>
            in case fst (join_direct X remote occupied 0 uri port join_config_default node) of
                 Inl e \<Rightarrow> sculk_category e = CatLocalPortUnavailable
               | Inr _ \<Rightarrow> False)))"

lemma reports_port_conflict_passes:
  assumes "base64_law X" "ct_eq_law X" "guest_ready env"
  shows "reports_fixed_local_port_conflict X remote env endpoint service_id fresh port in_use now mt"
proof -
  obtain e where "\<forall>b. je_bind env b = Inr e" "\<not> je_poisoned env" using assms(3) by (auto simp: guest_ready_def)
  with assms(1) show ?thesis
    by (simp add: reports_fixed_local_port_conflict_def start_on_node node_parts join_direct_def handshake_eq [OF assms(2)]
        join_uri_new_def join_to_def Let_def dial_at_once lock_mutex_def)
qed

section \<open>Guests and the status of the service\<close>

lemma join_node_admitted:
  assumes "ct_eq_law X" "guest_ready env" "lookup_service n (ju_service_id uri) = Some i"
    and "sv_token (nd_objects n ! i) = ju_token uri"
  shows "(case join_node X remote env c uri n of (Inl e, n') \<Rightarrow> f e n' | (Inr (t, joined), n') \<Rightarrow> g joined n')
    = g (joined_supervisor (nd_endpoint_id n) c)
        (update_object i (on_world (start_authenticated_host_connection X remote c id)) n)"
proof -
  obtain t where "join_node X remote env c uri n = (Inr (t, joined_supervisor (nd_endpoint_id n) c),
      update_object i (on_world (start_authenticated_host_connection X remote c id)) n)"
    using join_node_cases(1) [OF assms] by blast
  then show ?thesis by simp
qed

text \<open>The counts and events of a world, after one look at a guest.\<close>

lemmas admission = start_authenticated_host_connection_def host_look_def register_attempt_def has_capacity_for_def
  sessions_of_def session_of_def sessions_default_def players_u32_def active_players_def upsert_def admit_registered_def
  host_reject_full_def host_block_defs set_connection_count_def status_update_def on_world_def
  status_snapshot_def Let_def

definition enforces_service_connection_limit ::
  "crates \<Rightarrow> (conn_id \<Rightarrow> endpoint_id) \<Rightarrow> join_env \<Rightarrow> endpoint_id \<Rightarrow> service_id \<Rightarrow> access_token
     \<Rightarrow> system_time \<Rightarrow> instant \<Rightarrow> bool" where
  "enforces_service_connection_limit X remote env endpoint service_id fresh now mt \<longleftrightarrow>
     bound endpoint (\<lambda>node.
     service_started X ((test_options service_id 25565 None PolicyAlways)
         \<lparr>so_config := host_config_default\<lparr>hc_max_players := Some 1\<rparr>\<rparr>) fresh now mt node (\<lambda>service node.
       case uri_of service node of
         None \<Rightarrow> False
       | Some uri \<Rightarrow>
           (case join_node X remote env 0 uri node of
              (Inl e, n') \<Rightarrow> False
            | (Inr (t, joined), n') \<Rightarrow>
                map_option st_connection_count (status_of service n') = Some 1
                \<and> (let n'' = snd (join_node X remote env 1 uri n')
                   in list_ex (\<lambda>event. case event of PlayerRejected _ _ \<Rightarrow> True | _ \<Rightarrow> False) (events_since service node n'')
                      \<and> map_option st_connection_count (status_of service n'') = Some 1))))"

lemma snd_join_node:
  assumes "ct_eq_law X" "guest_ready env" "lookup_service n (ju_service_id uri) = Some i"
    and "sv_token (nd_objects n ! i) = ju_token uri"
  shows "snd (join_node X remote env c uri n)
    = update_object i (on_world (start_authenticated_host_connection X remote c id)) n"
  using join_node_cases(1) [OF assms, of remote c] by auto

lemma limit_options [simp]:
  "so_service_id ((test_options sid port saved policy)\<lparr>so_config := c\<rparr>) = sid"
  "so_token_state ((test_options sid port saved policy)\<lparr>so_config := c\<rparr>) = saved"
  "so_token_refresh ((test_options sid port saved policy)\<lparr>so_config := c\<rparr>) = policy"
  "port \<noteq> 0 \<Longrightarrow> validate_target (so_target_addr ((test_options sid port saved policy)\<lparr>so_config := c\<rparr>)) = Inr ()"
  by (simp_all add: test_options_def validate_target_def)

lemma enforces_connection_limit_passes:
  assumes "base64_law X" "ct_eq_law X" "guest_ready env" "remote 0 \<noteq> remote 1"
  shows "enforces_service_connection_limit X remote env endpoint service_id fresh now mt"
  using assms(1,4)
  by (simp add: enforces_service_connection_limit_def start_on_node node_parts join_uri_new_def
      join_node_admitted [OF assms(2,3)] snd_join_node [OF assms(2,3)])
   (simp add: admission emit_event_def channel_new_def EVENT_CHANNEL_SIZE_def)

definition stopping_service_closes_authenticated_connections ::
  "crates \<Rightarrow> (conn_id \<Rightarrow> endpoint_id) \<Rightarrow> join_env \<Rightarrow> net_view \<Rightarrow> net_view \<Rightarrow> duration \<Rightarrow> endpoint_id \<Rightarrow> service_id \<Rightarrow> access_token
     \<Rightarrow> system_time \<Rightarrow> instant \<Rightarrow> bool" where
  "stopping_service_closes_authenticated_connections X remote env net net' elapsed endpoint service_id fresh now mt \<longleftrightarrow>
     bound endpoint (\<lambda>node.
     service_started X (test_options service_id 25565 None PolicyAlways) fresh now mt node (\<lambda>service node.
       case (uri_of service node, lookup_service node service_id) of
         (Some uri, Some hosted) \<Rightarrow>
           (case join_node X remote env 0 uri node of
              (Inl e, n') \<Rightarrow> False
            | (Inr (t, join), n') \<Rightarrow>
                map_option st_connection_count (status_of service n') = Some 1
                \<and> (case stop_service net service_id n' of
                     (stopped, n'') \<Rightarrow>
                       stopped = Inr ()
                       \<and> list_ex (\<lambda>(c, code, reason). c = 0 \<and> code = CLOSE_HOST_STOPPED)
                           (hw_closes (sv_world (nd_objects n'' ! hosted)))
                       \<and> fst (tunnel_connections X False net' elapsed (js_conns join)) = Inr []
                       \<and> handle_status service n'' = Inl ServiceNotFound))
       | _ \<Rightarrow> False))"

lemma stopping_service_closes_passes:
  assumes "base64_law X" "ct_eq_law X" "guest_ready env" "net 0 \<noteq> None" "net' 0 = None"
  shows "stopping_service_closes_authenticated_connections X remote env net net' elapsed endpoint service_id fresh now mt"
  using assms(1,4,5)
  by (simp add: stopping_service_closes_authenticated_connections_def start_on_node node_parts join_uri_new_def
      join_node_admitted [OF assms(2,3)] joined_supervisor_def join_supervisor_new_def tunnel_connections_def
      lock_mutex_def tracked_is_alive_def)
   (simp add: stop_service_def stop_object_def drain_conns_def node_parts admission Let_def host_config_default_def)

definition records_target_connection_failures_in_status ::
  "crates \<Rightarrow> (conn_id \<Rightarrow> endpoint_id) \<Rightarrow> join_env \<Rightarrow> endpoint_id \<Rightarrow> service_id \<Rightarrow> access_token \<Rightarrow> string
     \<Rightarrow> system_time \<Rightarrow> instant \<Rightarrow> bool" where
  "records_target_connection_failures_in_status X remote env endpoint service_id fresh refused now mt \<longleftrightarrow>
     bound endpoint (\<lambda>node.
     service_started X (test_options service_id 25565 None PolicyAlways) fresh now mt node (\<lambda>service node.
       case (uri_of service node, lookup_service node service_id) of
         (Some uri, Some hosted) \<Rightarrow>
           (case join_node X remote env 0 uri node of
              (Inl e, n') \<Rightarrow> False
            | (Inr (t, join), n') \<Rightarrow>
                Option.bind (status_of service (node_step X remote n' (NodeService hosted (HostTargetUnavailable refused))))
                  st_last_error = Some CatTargetUnavailable)
       | _ \<Rightarrow> False))"

lemma records_target_failures_passes:
  assumes "base64_law X" "ct_eq_law X" "guest_ready env"
  shows "records_target_connection_failures_in_status X remote env endpoint service_id fresh refused now mt"
  using assms(1)
  by (simp add: records_target_connection_failures_in_status_def start_on_node node_parts join_uri_new_def
      join_node_admitted [OF assms(2,3)])
   (simp add: admission host_target_unavailable_def set_error_def host_config_default_def)

text \<open>The test loops over the events until it has seen one \<^verbatim>\<open>Reconnecting\<close> and then \<^verbatim>\<open>Reconnected\<close>.\<close>

fun saw_reconnect :: "bool \<Rightarrow> tunnel_event list \<Rightarrow> bool" where
  "saw_reconnect pending [] = False"
| "saw_reconnect pending (Reconnecting _ # events) = saw_reconnect True events"
| "saw_reconnect pending (Reconnected # events) = pending"
| "saw_reconnect pending (_ # events) = saw_reconnect pending events"

text \<open>
  The guest sees the close of connection 0 at \<open>began\<close>, and its first attempt, connection 1, ends at
  \<open>later\<close>; \<open>shown\<close> is the text of the close.
\<close>

definition join_reconnects_after_service_republished_with_same_uri ::
  "crates \<Rightarrow> (conn_id \<Rightarrow> endpoint_id) \<Rightarrow> join_env \<Rightarrow> net_view \<Rightarrow> string \<Rightarrow> endpoint_id \<Rightarrow> service_id \<Rightarrow> access_token
     \<Rightarrow> access_token \<Rightarrow> system_time \<Rightarrow> instant \<Rightarrow> instant \<Rightarrow> instant \<Rightarrow> bool" where
  "join_reconnects_after_service_republished_with_same_uri X remote env net shown endpoint service_id fresh fresh' now mt
       began later \<longleftrightarrow>
     bound endpoint (\<lambda>node.
     service_started X (test_options service_id 25565 None PolicyNever) fresh now mt node (\<lambda>service node.
       case (uri_of service node, handle_token_state service node) of
         (Some uri, Some (Inr token_state)) \<Rightarrow>
           (case join_node X remote env 0 uri node of
              (Inl e, n1) \<Rightarrow> False
            | (Inr (t, joined), n1) \<Rightarrow>
                service_started X (test_options service_id 25565 (Some token_state) PolicyNever) fresh' now mt
                  (snd (stop_service net service_id n1)) (\<lambda>service n2.
                  let lost = WakeClosed began (Some (ApplicationClosed CLOSE_HOST_STOPPED ''service stopped'', shown));
                      attempt = reconnect_once (Inr 1) (fst (handshake X remote 1 uri n2)) None;
                      polled = WakePoll later False (Some attempt) net False
                  in saw_reconnect False (ch_queue (js_events (run_steps (join_step join_config_default remote) joined [lost, polled])))))
       | _ \<Rightarrow> False))"

lemma join_reconnects_passes:
  assumes "base64_law X" "ct_eq_law X" "guest_ready env"
  shows "join_reconnects_after_service_republished_with_same_uri X remote env net shown endpoint service_id fresh fresh'
    now mt began later"
  using assms(1)
  by (simp add: join_reconnects_after_service_republished_with_same_uri_def start_on_node node_parts join_uri_new_def
      handle_token_state_def join_node_admitted [OF assms(2,3)])
   (simp add: stop_service_def node_parts start_on_node handshake_eq [OF assms(2)] reconnect_once_def connection_closed_def
      CLOSE_HOST_STOPPED_def CLOSE_SERVER_FULL_def CLOSE_AUTH_FAILED_def joined_supervisor_def join_supervisor_new_def
      join_config_default_def begin_reconnect_def join_emit_def arm_timer_def timer_due_def reconnect_done_def
      lock_mutex_def emit_event_def channel_new_def EVENT_CHANNEL_SIZE_def Let_def)

text \<open>
  One local session at most: the second client is accepted only once the first has gone. The
  guest's accept loop asks for a permit whenever it can.
\<close>

definition bounds_local_forwarding_sessions ::
  "crates \<Rightarrow> (conn_id \<Rightarrow> endpoint_id) \<Rightarrow> join_env \<Rightarrow> endpoint_id \<Rightarrow> service_id \<Rightarrow> access_token
     \<Rightarrow> system_time \<Rightarrow> instant \<Rightarrow> bool" where
  "bounds_local_forwarding_sessions X remote env endpoint service_id fresh now mt \<longleftrightarrow>
     bound endpoint (\<lambda>node.
     service_started X (test_options service_id 25565 None PolicyAlways) fresh now mt node (\<lambda>service node.
       case uri_of service node of
         None \<Rightarrow> False
       | Some uri \<Rightarrow>
           (let config = join_config_default\<lparr>jc_local_sessions_max := 1\<rparr>
            in case fst (join_direct X remote env 0 uri 0 config node) of
                 Inl e \<Rightarrow> False
               | Inr (t, joined) \<Rightarrow>
                   (let run = run_steps join_accept_loop;
                        first_local = run (local_sessions_new (jc_local_sessions_max config)) [LocalPermit, LocalAccepted (Inr ())];
                        second_local = run first_local [LocalPermit, LocalAccepted (Inr ())];
                        first_dropped = run second_local [LocalSessionEnded];
                        second_served = run first_dropped [LocalPermit, LocalAccepted (Inr ())]
                    in it_local_addr t \<noteq> None \<and> ls_active first_local = 1 \<and> ls_active second_local = 1
                       \<and> ls_active first_dropped = 0 \<and> ls_active second_served = 1))))"

lemma bounds_local_sessions_passes:
  assumes "base64_law X" "ct_eq_law X" "guest_ready env"
  shows "bounds_local_forwarding_sessions X remote env endpoint service_id fresh now mt"
proof -
  have joined: "case fst (join_direct X remote env c uri port config n) of Inl e \<Rightarrow> False | Inr (t, j) \<Rightarrow> P t j"
    if "lookup_service n (ju_service_id uri) = Some i" "sv_token (nd_objects n ! i) = ju_token uri"
      and "\<And>t j. it_local_addr t \<noteq> None \<Longrightarrow> P t j" for n uri i c port config P
    using join_direct_ok [OF assms(3), of X remote c uri n _ port config] that
    by (auto simp: handshake_eq [OF assms(2)])
  show ?thesis
    using assms(1)
    by (simp add: bounds_local_forwarding_sessions_def start_on_node node_parts join_uri_new_def, unfold Let_def)
      (rule joined [where i = 0], simp_all add: lookup_service_def local_sessions_new_def permits_held_def)
qed

end
