(* ===== verification/Rotation_Tests.thy ===== *)
theory Rotation_Tests
  imports Node_Tests
begin

text \<open>
  The unit tests of \<^verbatim>\<open>core/src/tunnel/iroh/node.rs\<close> that watch the rotation tasks. What a test sleeps
  for becomes the steps that are due by then; \<open>now\<close> and \<open>mt\<close> are the clocks at its start.
\<close>

text \<open>The clocks \<open>ms\<close> milliseconds later.\<close>

definition ms_later :: "int \<Rightarrow> nat \<Rightarrow> int" where
  "ms_later t ms = t + int (from_millis ms)"

text \<open>\<^verbatim>\<open>rotate_token\<close> by hand, with the task woken by its reset channel.\<close>

definition rotated_by_hand ::
  "crates \<Rightarrow> (conn_id \<Rightarrow> endpoint_id) \<Rightarrow> service_id \<Rightarrow> access_token \<Rightarrow> system_time \<Rightarrow> instant \<Rightarrow> hosting \<Rightarrow> hosting" where
  "rotated_by_hand X remote sid fresh now mt g =
     (let g1 = hosting_step X remote g (HgNode (NodeRotate sid None True fresh now))
      in run_steps (hosting_step X remote) g1
           (map (\<lambda>pr. HgNode (NodeRotateFinish pr)) (nd_rotations (hg_node g1)) @ [HgReset 0 now mt]))"

definition generation_of :: "service_id \<Rightarrow> hosting \<Rightarrow> u64 option" where
  "generation_of sid g = map_option st_uri_generation (status_of sid (hg_node g))"

definition manual_rotation_resets_automatic_deadline ::
  "crates \<Rightarrow> (conn_id \<Rightarrow> endpoint_id) \<Rightarrow> endpoint_id \<Rightarrow> service_id \<Rightarrow> access_token \<Rightarrow> access_token \<Rightarrow> access_token
     \<Rightarrow> system_time \<Rightarrow> instant \<Rightarrow> bool" where
  "manual_rotation_resets_automatic_deadline X remote endpoint sid fresh fresh' fresh'' now mt \<longleftrightarrow>
     bound endpoint (\<lambda>node.
       let period = from_millis 300;
           g = hosting_step X remote (hosting_new node) (HgPublish (test_options sid 25565 None (PolicyAfter period)) fresh now mt);
           initial = status_of sid (hg_node g);
           manual = rotated_by_hand X remote sid fresh' (ms_later now 200) (ms_later mt 200) g;
           after_manual = status_of sid (hg_node manual);
           old_deadline = hosting_step X remote manual (HgDue 0 (ms_later now 350) (ms_later mt 350) fresh'' (ms_later now 350));
           rotated = run_steps (hosting_step X remote) old_deadline
             [HgDue 0 (ms_later now 500) (ms_later mt 500) fresh'' (ms_later now 500), HgRotated 0 (ms_later now 500) (ms_later mt 500)]
       in Option.bind initial st_next_rotation_at \<noteq> None
          \<and> map_option st_uri_generation after_manual = Some 2
          \<and> (case (initial, after_manual) of
               (Some first, Some second) \<Rightarrow> st_token_created_at first < st_token_created_at second
             | _ \<Rightarrow> False)
          \<and> generation_of sid old_deadline = Some 2
          \<and> generation_of sid rotated = Some 3)"

definition stopped_rotation_task_cannot_modify_republished_service ::
  "crates \<Rightarrow> (conn_id \<Rightarrow> endpoint_id) \<Rightarrow> net_view \<Rightarrow> endpoint_id \<Rightarrow> service_id \<Rightarrow> access_token \<Rightarrow> access_token \<Rightarrow> access_token
     \<Rightarrow> system_time \<Rightarrow> instant \<Rightarrow> bool" where
  "stopped_rotation_task_cannot_modify_republished_service X remote net endpoint sid fresh fresh' fresh'' now mt \<longleftrightarrow>
     bound endpoint (\<lambda>node.
       let republished = run_steps (hosting_step X remote) (hosting_new node)
             [HgPublish (test_options sid 25565 None (PolicyAfter (from_millis 100))) fresh now mt,
              HgNode (NodeStop net sid),
              HgPublish (test_options sid 25566 None PolicyAlways) fresh' now mt]
       in list_all (\<lambda>woken.
            generation_of sid (run_steps (hosting_step X remote) republished
              [woken, HgRotated 0 (ms_later now 200) (ms_later mt 200), HgReported 0]) = Some 1)
          [HgClosed 0, HgDue 0 (ms_later now 200) (ms_later mt 200) fresh'' (ms_later now 200)])"

lemma rotate_begin_ok:
  assumes "base64_law X" "nd_relay_url n = None" "lookup_service n sid = Some i" "\<not> sv_rotating (nd_objects n ! i)"
    and "expected = None \<or> expected = Some (sv_session_generation (nd_objects n ! i))"
    and "rotation_deadline now (sv_token_refresh (nd_objects n ! i)) = Inr next_at"
  shows "rotate_begin X sid expected reset fresh now n =
    (let pr = \<lparr>pr_object = i, pr_service_id = sid, pr_token = fresh, pr_created_at = now, pr_next_at = next_at,
       pr_reset_timer = reset\<rparr>
     in (Inr pr, update_object i (\<lambda>s. s\<lparr>sv_rotating := True\<rparr>) (n\<lparr>nd_rotations := pr # nd_rotations n\<rparr>)))"
  using assms(3-) node_uri_direct [OF assms(1,2)] by (auto simp: rotate_begin_def is_ok_case Let_def)

lemma apply_rotation_counted [simp]:
  "sv_rotation (apply_rotation pr sv) = (if pr_reset_timer pr then sv_rotation sv + 1 else sv_rotation sv)"
  by (simp add: apply_rotation_def Let_def)

lemma stopped_task_test_passes:
  assumes "base64_law X" "now + 200000000 \<le> time_max" "mt + 200000000 \<le> time_max"
  shows "stopped_rotation_task_cannot_modify_republished_service X remote net endpoint sid fresh fresh' fresh'' now mt"
  using assms
  by (simp add: stopped_rotation_task_cannot_modify_republished_service_def node_parts hosting_new_def from_millis_def
     publish_service_def start_on_node resolve_fresh_after spawned_task_def stop_service_def ms_later_def)
   (simp add: Let_def task_closed_def task_due_def task_rotated_def task_reported_def rotation_task_of_def
     on_rotation_task_def drop_rotation_task_def schedule_new_def should_rotate_def sender_dropped_def rotate_begin_def
     generation_of_def node_parts)

lemma manual_rotation_test_passes:
  assumes "base64_law X" "now + 1000000000 \<le> time_max" "mt + 1000000000 \<le> time_max"
  shows "manual_rotation_resets_automatic_deadline X remote endpoint sid fresh fresh' fresh'' now mt"
  using assms
  by (simp add: manual_rotation_resets_automatic_deadline_def node_parts hosting_new_def from_millis_def
     publish_service_def start_on_node resolve_fresh_after spawned_task_def ms_later_def rotated_by_hand_def
     rotate_begin_ok rotation_deadline_def time_checked_add_def Let_def,
    simp add: rotate_finish_alt release_rotation_def node_parts Let_def task_reset_def rotation_task_of_def
     on_rotation_task_def schedule_reset_def schedule_new_def time_checked_add_def after_reset_def saturating_inc_def)
   (simp add: task_due_def rotation_task_of_def should_rotate_def rotate_begin_ok rotation_deadline_def
     time_checked_add_def on_rotation_task_def task_rotated_def rotate_finish_alt release_rotation_def schedule_reset_def
     after_reset_def generation_of_def node_parts Let_def saturating_inc_def)

end
