(* ===== verification/Spec2Isabelle.thy ===== *)
theory Spec2Isabelle
  imports Sculk_Reference Lan_Threads Path_Monitor Rotation_Properties Host_Command Join_Command Clipboard
    Uri_Tests Persist_Tests Service_Tests Tunnel_Tests Lan_Tests Schedule_Tests Guest_Tests Rotation_Tests
begin

text \<open>
  A verification library of sculk, a peer-to-peer tunnel for Minecraft over QUIC (Rust, the library
  in \<^verbatim>\<open>core/\<close>, the command line client in \<^verbatim>\<open>cli/\<close>). A Host publishes local servers on an iroh
  endpoint and hands out a share URI that carries the endpoint, the service and a token; a Join
  connects with it, proves the token on a control stream, and bridges local clients to the Host.

  \<^bold>\<open>How the parts fit.\<close> \<^verbatim>\<open>tunnel/service.rs\<close> runs one \<^verbatim>\<open>IrohTunnel\<close> (\<^verbatim>\<open>tunnel/iroh/mod.rs\<close>), which is a
  Host (\<^verbatim>\<open>host.rs\<close>, \<^verbatim>\<open>session.rs\<close>) or a Join (\<^verbatim>\<open>join.rs\<close>); \<^verbatim>\<open>node.rs\<close> publishes many services on one
  endpoint and reuses the Host's admission. All of them authenticate with \<^verbatim>\<open>auth.rs\<close>, report paths
  with \<^verbatim>\<open>monitor.rs\<close>, copy with \<^verbatim>\<open>transport.rs\<close> and emit the events of \<^verbatim>\<open>event.rs\<close>. \<^verbatim>\<open>persist/\<close> keeps the
  key, the preferences and the Host state; \<^verbatim>\<open>minecraft/lan.rs\<close> announces a tunnel to the local network;
  the client wires all of this to commands.

  \<^bold>\<open>Which theory models what.\<close> Definitions have the names of the code, or say in the manifest which
  function they are.
  \<^item> \<open>Sculk_Prelude\<close>, \<open>Sculk_Time\<close>, \<open>Sculk_Text\<close>, \<open>Sculk_Utf8\<close>, \<open>Sculk_Codec\<close>: results as sums, saturating and
    checked arithmetic, runs of steps (\<open>run_steps\<close>, with the locale \<open>invariant_system\<close> for invariants of
    reachable states), durations and clocks in nanoseconds, the text functions of the standard
    library, and the locale \<open>fixed_codec\<close> of canonical fixed-length encodings.
  \<^item> \<open>Sculk_Errors\<close>, \<open>Sculk_Types\<close>, \<open>Sculk_Events\<close>: \<^verbatim>\<open>error.rs\<close>, \<^verbatim>\<open>types.rs\<close>, \<^verbatim>\<open>event.rs\<close> and the shared part of
    \<^verbatim>\<open>iroh/mod.rs\<close>; the record \<open>crates\<close> holds what is called of other crates.
  \<^item> \<open>Join_Uri\<close>, \<open>Sculk_Reference\<close>: \<^verbatim>\<open>join_uri.rs\<close>, and an instance of the crates that satisfies the laws.
  \<^item> \<open>File_Store\<close>, \<open>Key_Store\<close>, \<open>Host_State\<close>, \<open>Profile\<close>: \<^verbatim>\<open>persist/\<close> over a file system in which every call
    may fail; the locale \<open>atomic_writer\<close> is the contract of an atomic replacement.
  \<^item> \<open>Token_Policy\<close>, \<open>Hosted_Status\<close>, \<open>Node_Service\<close>, \<open>Node_Invariant\<close>, \<open>Node_Properties\<close>: \<^verbatim>\<open>node.rs\<close>. Published
    services are objects in a list, because tasks keep using them after they were unpublished.
  \<^item> \<open>Rotation_Task\<close>, \<open>Rotation_Properties\<close>: the tasks that rotate tokens periodically, interleaved with
    everything else on the Node.
  \<^item> \<open>Node_Objects\<close>, \<open>Status_Watch\<close>, \<open>Service_Shape\<close>: what one service can go through, as a relation
    \<open>object_move\<close> that every step of the Node follows; what its subscribers see, over the locale
    \<open>watch_source\<close> of versioned values; and what each service keeps.
  \<^item> \<open>Control_Auth\<close>, \<open>Sessions\<close>, \<open>Path_Monitor\<close>, \<open>Transport\<close>, \<open>Host_Tunnel\<close>: the Host side of a tunnel.
  \<^item> \<open>Join_Tunnel\<close>, \<open>Join_Properties\<close>, \<open>Iroh_Tunnel\<close>: the Join side, and how tunnels are set up and closed.
  \<^item> \<open>Tunnel_Service\<close>, \<open>Service_Properties\<close>: \<^verbatim>\<open>service.rs\<close>.
  \<^item> \<open>Lan\<close>, \<open>Lan_Threads\<close>: \<^verbatim>\<open>minecraft/lan.rs\<close>, the loops and the threads that run them with their stop
    channels; the locale \<open>stoppable_thread\<close> is what \<open>stop\<close> and \<open>join\<close> need of a loop.
  \<^item> \<open>Cli_Client\<close>, \<open>Cli_Properties\<close>, \<open>Clipboard\<close>: the pieces of \<^verbatim>\<open>cli/src/main.rs\<close>, and \<^verbatim>\<open>cli/src/clipboard.rs\<close>.
  \<^item> \<open>Host_Session\<close>, \<open>Host_Command\<close>: \<^verbatim>\<open>run_host\<close> and \<^verbatim>\<open>run_host_until_shutdown\<close> on the Node they serve.
    \<open>Join_Command\<close>: the \<^verbatim>\<open>join\<close> command on the managed service it owns.
  \<^item> \<open>Uri_Tests\<close> (\<^verbatim>\<open>join_uri.rs\<close>, \<^verbatim>\<open>types.rs\<close>, \<^verbatim>\<open>error.rs\<close>), \<open>Persist_Tests\<close> (\<^verbatim>\<open>persist/\<close>), \<open>Service_Tests\<close>
    (\<^verbatim>\<open>service.rs\<close>), \<open>Tunnel_Tests\<close> (\<^verbatim>\<open>tunnel/iroh/\<close> but the Node), \<open>Schedule_Tests\<close>, \<open>Node_Tests\<close>,
    \<open>Guest_Tests\<close>, \<open>Rotation_Tests\<close> (\<^verbatim>\<open>node.rs\<close>), \<open>Lan_Tests\<close> (\<^verbatim>\<open>minecraft/\<close>): the unit tests of the
    library, each as a predicate with the name of the test that says that all its assertions hold of
    the model, and a lemma that it does, for all values the test draws or finds in its environment.

  \<^bold>\<open>State and steps.\<close> Sequential code is a function on an explicit state; what is read from a file, the
  network or a clock is an argument. Concurrent code (a Host, a Node, the reconnect supervisor, the
  managed service, the racing creators of a key) is a state and a function from a label to the next
  state: a label is what one task does between two waits, a run is a list of labels, and a theorem
  about \<open>run_steps\<close> holds for every interleaving. Labels that are not enabled change nothing. Values
  that \<^verbatim>\<open>select!\<close> may take in any order have a label each; a biased select is one label. A call whose
  caller stops waiting for it has labels of its own where that leaves something behind: a stop of the
  managed service before and after it has published, an error report, a rotation.

  \<^bold>\<open>What is shown.\<close> Share URIs parse back to what was printed and the binary format has exactly one
  reading; together with authentication and routing, a URI admits a guest exactly while its token
  is the service's (the last theorem below), and a stranger learns nothing from a refusal. The Node's
  registry, phases, generations and permits are consistent in every interleaving; rotations exclude
  each other and replace exactly one token; every service that asked for it keeps exactly one
  rotation task, which rotates nothing but its own session; unpublishing closes exactly the service's connections. Every
  service, URI and deadline the Node hands out is well formed, and a subscriber of a status ends with
  the current one. A
  Host never has more players than allowed, and its events for a player alternate. A Join's events
  follow one conversation, its attempts and delays are bounded, and rejections are final. The managed
  service loses no tunnel, closes none twice, is never stuck, and cancelled starts cannot come back.
  Files are replaced atomically under every failure, keys are agreed on by racing creators, and what
  the client shared last is what it answers after a restart. The host command keeps its file and its
  display up to date with a Node that rotates under it, the two commands leave no service, tunnel or
  connection behind however they end, and background threads end when they are told to. The unit
  tests hold of the model as they do of the program, which is a check of the definitions themselves.

  \<^bold>\<open>Parameters and their laws.\<close> \<open>base64_law\<close>, \<open>url_law\<close>, \<open>endpoint_law\<close>, \<open>ct_eq_law\<close> and \<open>toml_law\<close> state documented
  behaviour of the base64, url, iroh, subtle and toml crates; \<open>Sculk_Reference\<close>, \<open>Node_Properties\<close> and
  \<open>Profile\<close> give instances of which they hold. Streams, connections and sockets are the results of their
  calls.

  \<^bold>\<open>Bounds.\<close> Recursion follows the data, so nothing runs out of fuel; the list of labels is the only
  length of a run. Operation ids of the service are 64 bits wide and wrap, so its properties are for
  runs of fewer than \<open>2 ^ 64 - 3\<close> labels. Session generations saturate, as the code makes them.

  \<^bold>\<open>Not modelled.\<close> The bytes a bridge copies (\<^verbatim>\<open>tokio\<close>), QUIC itself, argument parsing (\<^verbatim>\<open>clap\<close>), logging,
  colours, what the clipboard and the helper programs do with the text, and random generation (its
  results are arguments). Of the unit tests, those that observe only these: bytes through sockets
  (\<^verbatim>\<open>joins_and_forwards_to_the_selected_service\<close>), the endpoint of a dropped Node handle, random draws
  that differ, and the parser of the command line. Setters and getters of option and handle types,
  and the functions that only spawn a task or forward a call, have no definition of their own. The
  monotonic and the wall clock never run ahead of what the types can hold; allocation does not fail.
\<close>

section \<open>From the Host to the guest\<close>

text \<open>
  C1. A share URI works exactly while its token is the service's: whatever the Node has done before
  and does after the handle gave out the URI, a guest who parses its text and sends the request it
  stands for is accepted, and its connection admitted to that very service, exactly when the
  service is then published with the token of the URI; otherwise the guest is told that it was
  rejected and the Node closes the connection and admits nobody.
\<close>

theorem shared_uri_admits:
  assumes "base64_law X" and "url_law X" and "endpoint_law X" and "ct_eq_law X" and "node_start n0"
    and "n = run_steps (node_step X remote) n0 ls" and "m = run_steps (node_step X remote) n later"
    and "handle_join_uri sid n = Some (Inr uri)" and "join_uri_wf X uri" and "expose_secret_uri X uri = Inr shared"
    and "parse_join_uri X shared = Inr guest"
    and "auth_send None (answer_stream answer) (ju_service_id guest) (ju_token guest) = (outcome, request)"
    and "route_connection X remote c (request_stream request) m = (r, answer, m')"
  shows "guest = uri
    \<and> (case lookup_service m sid of
         Some i \<Rightarrow>
           if sv_token (nd_objects m ! i) = ju_token uri
           then outcome = Inr () \<and> m' = update_object i (on_world (start_authenticated_host_connection X remote c id)) m
           else outcome = Inl (TunnelErr AuthRejectedByHost) \<and> m' = close_unauthenticated c m
       | None \<Rightarrow> outcome = Inl (TunnelErr AuthRejectedByHost) \<and> m' = close_unauthenticated c m)
    \<and> (handle_join_uri sid m = Some (Inr uri) \<longrightarrow> outcome = Inr ())"
proof -
  have guest: "guest = uri" using parse_exposed [OF assms(1-3,9,10)] assms(11) by simp
  have inv: "node_inv remote n" "node_inv remote m"
    unfolding assms(6,7) run_steps_append [symmetric] by (rule node_sys.inv_reachable [OF assms(5)])+
  then have sid: "lookup_service k sid = Some i \<Longrightarrow> k \<in> {n, m} \<Longrightarrow> sv_service_id (nd_objects k ! i) = sid" for k i
    by (auto simp: node_inv_def registry_ok_def)
  have uri: "ju_service_id uri = sid"
    using assms(8) sid by (auto simp: handle_join_uri_def Let_def node_join_uri_value_def join_uri_new_def
        split: option.splits if_splits)
  define q where "q = \<lparr>cq_service_id = sid, cq_token = ju_token uri\<rparr>"
  define valid where "valid = token_valid X m (lookup_service m sid) (ju_token uri)"
  have send: "request = encode_request q" "outcome = (if length answer > 1
      then Inl (TunnelErr (ReadAuthResult (BoxOther ''stream too long'')))
      else if answer = [CONTROL_OK] then Inr () else Inl (TunnelErr AuthRejectedByHost))"
    using assms(12) by (auto simp: guest uri auth_send_def auth_send_inner_def answer_stream_def read_to_end_def q_def Let_def
        split: if_splits)
  have "answer = [if valid then 0 else 1]" and m': "m' = (case (lookup_service m sid, valid) of
      (Some i, True) \<Rightarrow> update_object i (on_world (start_authenticated_host_connection X remote c id)) m
    | _ \<Rightarrow> close_unauthenticated c m)"
    using assms(13) unfolding send(1)
    by (auto simp: route_connection_def auth_accept_request auth_respond_ok q_def valid_def Let_def
        split: option.splits bool.splits)
  then have outcome: "outcome = (if valid then Inr () else Inl (TunnelErr AuthRejectedByHost))"
    by (simp add: send(2) CONTROL_OK_def)
  have "valid \<longleftrightarrow> (\<exists>i. lookup_service m sid = Some i \<and> sv_token (nd_objects m ! i) = ju_token uri)"
    by (auto simp: valid_def token_valid_def token_matches_iff [OF assms(4)] split: option.split)
  moreover have "handle_join_uri sid m = Some (Inr uri) \<Longrightarrow>
      \<exists>i. lookup_service m sid = Some i \<and> sv_token (nd_objects m ! i) = ju_token uri"
    by (auto simp: handle_join_uri_def Let_def node_join_uri_value_def join_uri_new_def split: option.splits if_splits)
  ultimately show ?thesis using guest outcome m' by (auto split: option.split)
qed

text \<open>A Node publishes one service; a guest uses its URI.\<close>

definition open_node :: node where
  "open_node = run_steps (node_step ref_crates demo_remote) demo_bound [NodeStart demo_options (token_filled 2) 0 0]"

definition open_uri :: join_uri where
  "open_uri = node_join_uri_value demo_bound (service_filled 1) (token_filled 2)"

lemma open_uri_wf: "join_uri_wf ref_crates open_uri" "\<exists>txt1. expose_secret_uri ref_crates open_uri = Inr txt1"
proof -
  show "join_uri_wf ref_crates open_uri"
    by (simp add: join_uri_wf_def open_uri_def node_join_uri_value_def demo_bound_def join_uri_new_def ref_crates_def
        ref_endpoint_def endpoint_filled_def Abs_endpoint_id_inverse)
  show "\<exists>txt1. expose_secret_uri ref_crates open_uri = Inr txt1"
    by (simp add: expose_Inr [OF ref_base64] open_uri_def node_join_uri_value_def demo_bound_def join_uri_new_def join_payload_Inr)
qed

lemma open_node_answers: "handle_join_uri (service_filled 1) open_node = Some (Inr open_uri)"
proof -
  obtain txt1 where "expose_secret_uri ref_crates (node_join_uri_value demo_bound (service_filled 1) (token_filled 2)) = Inr txt1"
    using open_uri_wf(2) by (auto simp: open_uri_def)
  then have "start_service ref_crates demo_options (token_filled 2) 0 0 demo_bound = (Inr (service_filled 1), open_node)"
    by (simp add: open_node_def start_service_def demo_options_def validate_target_def resolve_token_state_def
        token_state_generate_def token_state_new_def)
      (simp add: demo_bound_def lookup_service_def checked_inc_def Let_def)
  then show ?thesis
    by (rule started_answers) (auto simp: demo_options_def resolve_token_state_def token_state_generate_def token_state_new_def open_uri_def)
qed

theorem shared_uri_admits_witness:
  "\<exists>txt1 guest answer request. expose_secret_uri ref_crates open_uri = Inr txt1 \<and> parse_join_uri ref_crates txt1 = Inr guest
     \<and> auth_send None (answer_stream answer) (ju_service_id guest) (ju_token guest) = (Inr (), request)
     \<and> fst (snd (route_connection ref_crates demo_remote 5 (request_stream request) open_node)) = answer"
proof -
  note ct = ref_ct_eq
  obtain txt1 where txt1: "expose_secret_uri ref_crates open_uri = Inr txt1" using open_uri_wf(2) by blast
  have parsed: "parse_join_uri ref_crates txt1 = Inr open_uri"
    by (rule parse_exposed [OF ref_base64 ref_url ref_endpoint_law open_uri_wf(1) txt1])
  define request where "request = encode_request \<lparr>cq_service_id = ju_service_id open_uri, cq_token = ju_token open_uri\<rparr>"
  obtain r answer m' where route: "route_connection ref_crates demo_remote 5 (request_stream request) open_node = (r, answer, m')"
    by (metis prod.exhaust)
  have "snd (auth_send None (answer_stream answer) (ju_service_id open_uri) (ju_token open_uri)) = request"
    by (cases "length answer > 1")
      (simp_all add: auth_send_def auth_send_inner_def answer_stream_def read_to_end_def request_def Let_def)
  then obtain outcome where send: "auth_send None (answer_stream answer) (ju_service_id open_uri) (ju_token open_uri) = (outcome, request)"
    by (metis prod.collapse)
  have "open_node = run_steps (node_step ref_crates demo_remote) open_node []" by simp
  from shared_uri_admits [OF ref_base64 ref_url ref_endpoint_law ct demo_start open_node_def this open_node_answers
      open_uri_wf(1) txt1 parsed send route] open_node_answers
  have "outcome = Inr ()" by blast
  with txt1 parsed send route show ?thesis
    by - (rule exI [of _ txt1], rule exI [of _ open_uri], rule exI [of _ answer], rule exI [of _ request], simp)
qed

end
